(* ===== verification/Sonic_Prelude.thy ===== *)
theory Sonic_Prelude
  imports Main "HOL-Library.Word" "HOL-Library.State_Monad"
begin

unbundle bit_operations_syntax

text \<open>
  Shared vocabulary of the development: the machine integers of the C and C++ sources as
  words, the fact collections the component theories add to, and the generic facts on
  words, lists and state-monad programs that their proofs use.
\<close>

section \<open>Machine integers\<close>

type_synonym u8 = "8 word"
type_synonym u16 = "16 word"
type_synonym u32 = "32 word"
type_synonym u64 = "64 word"

text \<open>
  The two 32-bit halves of a 64-bit value, and the value two halves make: the conversions
  \<^verbatim>\<open>value >> 32\<close>, \<^verbatim>\<open>value\<close> and \<^verbatim>\<open>(hi << 32) | lo\<close> of the sources.
\<close>

definition hi32 :: "u64 \<Rightarrow> u32" where
  "hi32 v = ucast (drop_bit 32 v)"

definition lo32 :: "u64 \<Rightarrow> u32" where
  "lo32 v = ucast v"

definition join64 :: "u32 \<Rightarrow> u32 \<Rightarrow> u64" where
  "join64 h l = push_bit 32 (ucast h) OR ucast l"

lemma join64_halves [simp]: "join64 (hi32 v) (lo32 v) = v"
  by (rule bit_word_eqI)
    (auto simp: join64_def hi32_def lo32_def bit_simps not_less)

lemma hi32_join64 [simp]: "hi32 (join64 h l) = h"
  by (rule bit_word_eqI) (auto simp: join64_def hi32_def bit_simps dest: bit_imp_le_length)

lemma lo32_join64 [simp]: "lo32 (join64 h l) = l"
  by (rule bit_word_eqI) (auto simp: join64_def lo32_def bit_simps)

section \<open>State-monad programs\<close>

named_theorems monad_run \<open>evaluation of state-monad programs\<close>

lemma run_bind [monad_run]:
  "run_state (State_Monad.bind m f) s =
     (let (a, s') = run_state m s in run_state (f a) s')"
  by (simp add: State_Monad.bind_def case_prod_unfold Let_def)

lemma run_return [monad_run]: "run_state (State_Monad.return a) s = (a, s)"
  by (simp add: State_Monad.return_def)

text \<open>A counted loop of state-monad programs.\<close>

fun for_each :: "'i list \<Rightarrow> ('i \<Rightarrow> ('s, unit) state) \<Rightarrow> ('s, unit) state" where
  "for_each [] f = State_Monad.return ()"
| "for_each (i # is) f = do { f i; for_each is f }"

section \<open>Results with errors\<close>

text \<open>Sequencing of operations that may stop with an error, the left component of a sum.\<close>

definition and_then :: "'e + 'a \<Rightarrow> ('a \<Rightarrow> 'e + 'b) \<Rightarrow> 'e + 'b" where
  "and_then r f = (case r of Inl e \<Rightarrow> Inl e | Inr a \<Rightarrow> f a)"

lemma and_then_simps [simp]: "and_then (Inl e) f = Inl e" "and_then (Inr a) f = f a"
  by (simp_all add: and_then_def)

lemma and_then_eq_Inr: "and_then r f = Inr b \<longleftrightarrow> (\<exists>a. r = Inr a \<and> f a = Inr b)"
  by (cases r) simp_all

lemma and_then_eq_Inl: "and_then r f = Inl e \<longleftrightarrow> r = Inl e \<or> (\<exists>a. r = Inr a \<and> f a = Inl e)"
  by (cases r) simp_all

section \<open>Loops over an array\<close>

text \<open>A loop that rewrites the array cell of each index it visits.\<close>

lemma length_fold_update [simp]:
  "length (fold (\<lambda>i xs. xs[i := f i (xs ! i)]) is xs) = length xs"
  by (induction "is" arbitrary: xs) simp_all

lemma fold_update_nth:
  assumes "distinct is" "j < length xs"
  shows "fold (\<lambda>i xs. xs[i := f i (xs ! i)]) is xs ! j = (if j \<in> set is then f j (xs ! j) else xs ! j)"
  using assms
proof (induction "is" arbitrary: xs)
  case (Cons i "is")
  then show ?case by (cases "i = j") auto
qed simp

lemma fold_assign_nth:
  assumes "distinct is"
  shows "length (fold (\<lambda>i xs. xs[i := g i]) is xs) = length xs"
    and "j < length xs \<Longrightarrow> fold (\<lambda>i xs. xs[i := g i]) is xs ! j = (if j \<in> set is then g j else xs ! j)"
  using length_fold_update [of "\<lambda>i _. g i" "is" xs] fold_update_nth [OF assms, of j xs "\<lambda>i _. g i"]
  by simp_all

end
