(* ===== verification/Match_Table.thy ===== *)
theory Match_Table
  imports Sonic_Prelude
begin

text \<open>
  The software match tables of \<^verbatim>\<open>src/p4/bsv/matchtable_model.cpp\<close>: three global
  \<^verbatim>\<open>std::unordered_map\<close>s (destination MAC, sequence and acceptor tables) with a read and a
  write entry point each, called from the simulated pipeline.  A table is a partial map; the
  tables are one record, since the entry points share the process's globals.  The diagnostic
  dumps of the tables to \<^verbatim>\<open>stderr\<close> are not modelled: they change no table.
\<close>

section \<open>Data\<close>

type_synonym DmacReqT = u64
type_synonym DmacRespT = u16
type_synonym SequenceReqT = u16
type_synonym SequenceRespT = u8
type_synonym AcceptorReqT = u16
type_synonym AcceptorRespT = u8

record match_tables =
  dmac_table :: "DmacReqT \<rightharpoonup> DmacRespT"
  sequence_table :: "SequenceReqT \<rightharpoonup> SequenceRespT"
  acceptor_table :: "AcceptorReqT \<rightharpoonup> AcceptorRespT"

definition empty_tables :: match_tables where
  "empty_tables = \<lparr>dmac_table = Map.empty, sequence_table = Map.empty,
     acceptor_table = Map.empty\<rparr>"

text \<open>
  \<^verbatim>\<open>operator[]\<close> of \<^verbatim>\<open>std::unordered_map\<close> as the library defines it: a missing key is
  inserted with a zero value first, so the operation returns a map as well.
\<close>

definition umap_index :: "('k \<rightharpoonup> 'v::zero) \<Rightarrow> 'k \<Rightarrow> 'v \<times> ('k \<rightharpoonup> 'v)" where
  "umap_index m k = (case m k of Some v \<Rightarrow> (v, m) | None \<Rightarrow> (0, m(k \<mapsto> 0)))"

definition umap_assign :: "('k \<rightharpoonup> 'v::zero) \<Rightarrow> 'k \<Rightarrow> 'v \<Rightarrow> ('k \<rightharpoonup> 'v)" where
  "umap_assign m k v = (snd (umap_index m k))(k \<mapsto> v)"

section \<open>The entry points\<close>

definition matchtable_read_dmac :: "DmacReqT \<Rightarrow> match_tables \<Rightarrow> DmacRespT \<times> match_tables" where
  "matchtable_read_dmac rdata t =
     (if dmac_table t rdata \<noteq> None
      then let (v, m) = umap_index (dmac_table t) rdata in (v, t\<lparr>dmac_table := m\<rparr>)
      else (0, t))"

definition matchtable_write_dmac :: "DmacReqT \<Rightarrow> DmacRespT \<Rightarrow> match_tables \<Rightarrow> match_tables" where
  "matchtable_write_dmac wdata action t =
     t\<lparr>dmac_table := umap_assign (dmac_table t) wdata action\<rparr>"

definition matchtable_read_sequence ::
  "SequenceReqT \<Rightarrow> match_tables \<Rightarrow> SequenceRespT \<times> match_tables" where
  "matchtable_read_sequence rdata t =
     (if sequence_table t rdata \<noteq> None
      then let (v, m) = umap_index (sequence_table t) rdata in (v, t\<lparr>sequence_table := m\<rparr>)
      else (0, t))"

definition matchtable_write_sequence ::
  "SequenceReqT \<Rightarrow> SequenceRespT \<Rightarrow> match_tables \<Rightarrow> match_tables" where
  "matchtable_write_sequence wdata action t =
     t\<lparr>sequence_table := umap_assign (sequence_table t) wdata action\<rparr>"

definition matchtable_read_acceptor ::
  "AcceptorReqT \<Rightarrow> match_tables \<Rightarrow> AcceptorRespT \<times> match_tables" where
  "matchtable_read_acceptor rdata t =
     (if acceptor_table t rdata \<noteq> None
      then let (v, m) = umap_index (acceptor_table t) rdata in (v, t\<lparr>acceptor_table := m\<rparr>)
      else (0, t))"

definition matchtable_write_acceptor ::
  "AcceptorReqT \<Rightarrow> AcceptorRespT \<Rightarrow> match_tables \<Rightarrow> match_tables" where
  "matchtable_write_acceptor wdata action t =
     t\<lparr>acceptor_table := umap_assign (acceptor_table t) wdata action\<rparr>"

lemmas matchtable_defs =
  matchtable_read_dmac_def matchtable_write_dmac_def matchtable_read_sequence_def
  matchtable_write_sequence_def matchtable_read_acceptor_def matchtable_write_acceptor_def
  umap_index_def umap_assign_def

section \<open>The contract of one table\<close>

text \<open>
  What the pipeline relies on: a read answers from the abstract map, with zero for a missing
  key, and leaves the tables alone; a write updates one key of the abstract map.  The state
  of the other tables is \<open>rest\<close>, which neither operation touches.
\<close>

locale table_entry_points =
  fixes rd :: "'k \<Rightarrow> 't \<Rightarrow> 'v::zero \<times> 't"
    and wr :: "'k \<Rightarrow> 'v \<Rightarrow> 't \<Rightarrow> 't"
    and content :: "'t \<Rightarrow> ('k \<rightharpoonup> 'v)"
    and rest :: "'t \<Rightarrow> 'r"
  assumes rd_value: "fst (rd k t) = (case content t k of None \<Rightarrow> 0 | Some v \<Rightarrow> v)"
    and rd_keeps: "snd (rd k t) = t"
    and wr_content: "content (wr k v t) = (content t)(k \<mapsto> v)"
    and wr_rest: "rest (wr k v t) = rest t"
begin

lemma rd_after_wr: "fst (rd k (wr k v t)) = v"
  by (simp add: rd_value wr_content)

lemma rd_after_other_wr: "k' \<noteq> k \<Longrightarrow> fst (rd k' (wr k v t)) = fst (rd k' t)"
  by (simp add: rd_value wr_content)

lemma content_after_writes:
  "content (fold (\<lambda>(k, v). wr k v) ws t) = content t ++ map_of (rev ws)"
  by (induction ws arbitrary: t) (auto simp: wr_content map_add_def fun_eq_iff split: option.splits)

lemma rest_after_writes: "rest (fold (\<lambda>(k, v). wr k v) ws t) = rest t"
  by (induction ws arbitrary: t) (auto simp: wr_rest)

lemma read_after_writes:
  "fst (rd k (fold (\<lambda>(k, v). wr k v) ws t)) =
     (case map_of (rev ws) k of Some v \<Rightarrow> v | None \<Rightarrow> fst (rd k t))"
  by (simp add: rd_value content_after_writes map_add_def split: option.splits)

end

interpretation dmac: table_entry_points matchtable_read_dmac matchtable_write_dmac dmac_table
  "\<lambda>t. (sequence_table t, acceptor_table t)"
  by unfold_locales (auto simp: matchtable_defs split: option.splits)

interpretation seqt: table_entry_points matchtable_read_sequence matchtable_write_sequence
  sequence_table "\<lambda>t. (dmac_table t, acceptor_table t)"
  by unfold_locales (auto simp: matchtable_defs split: option.splits)

interpretation acct: table_entry_points matchtable_read_acceptor matchtable_write_acceptor
  acceptor_table "\<lambda>t. (dmac_table t, sequence_table t)"
  by unfold_locales (auto simp: matchtable_defs split: option.splits)

section \<open>Interleaved calls\<close>

text \<open>A call of one of the six entry points, and a run of calls collecting the answers.\<close>

datatype table_call =
    ReadDmac DmacReqT | WriteDmac DmacReqT DmacRespT
  | ReadSequence SequenceReqT | WriteSequence SequenceReqT SequenceRespT
  | ReadAcceptor AcceptorReqT | WriteAcceptor AcceptorReqT AcceptorRespT

datatype table_answer = DmacAnswer DmacRespT | SequenceAnswer SequenceRespT
  | AcceptorAnswer AcceptorRespT

fun table_step :: "table_call \<Rightarrow> match_tables \<Rightarrow> table_answer list \<times> match_tables" where
  "table_step (ReadDmac k) t = (let (v, t') = matchtable_read_dmac k t in ([DmacAnswer v], t'))"
| "table_step (WriteDmac k v) t = ([], matchtable_write_dmac k v t)"
| "table_step (ReadSequence k) t =
     (let (v, t') = matchtable_read_sequence k t in ([SequenceAnswer v], t'))"
| "table_step (WriteSequence k v) t = ([], matchtable_write_sequence k v t)"
| "table_step (ReadAcceptor k) t =
     (let (v, t') = matchtable_read_acceptor k t in ([AcceptorAnswer v], t'))"
| "table_step (WriteAcceptor k v) t = ([], matchtable_write_acceptor k v t)"

fun table_run :: "table_call list \<Rightarrow> match_tables \<Rightarrow> table_answer list \<times> match_tables" where
  "table_run [] t = ([], t)"
| "table_run (c # cs) t =
     (let (a, t') = table_step c t; (as, t'') = table_run cs t' in (a @ as, t''))"

text \<open>
  The reference: the answer to a read is the value of the latest earlier write of that key
  to that table in the history of calls (newest first), and zero when there is none.
\<close>

fun latest_dmac :: "table_call list \<Rightarrow> DmacReqT \<Rightarrow> DmacRespT" where
  "latest_dmac [] k = 0"
| "latest_dmac (WriteDmac k' v # h) k = (if k' = k then v else latest_dmac h k)"
| "latest_dmac (_ # h) k = latest_dmac h k"

fun latest_sequence :: "table_call list \<Rightarrow> SequenceReqT \<Rightarrow> SequenceRespT" where
  "latest_sequence [] k = 0"
| "latest_sequence (WriteSequence k' v # h) k = (if k' = k then v else latest_sequence h k)"
| "latest_sequence (_ # h) k = latest_sequence h k"

fun latest_acceptor :: "table_call list \<Rightarrow> AcceptorReqT \<Rightarrow> AcceptorRespT" where
  "latest_acceptor [] k = 0"
| "latest_acceptor (WriteAcceptor k' v # h) k = (if k' = k then v else latest_acceptor h k)"
| "latest_acceptor (_ # h) k = latest_acceptor h k"

fun history_answer :: "table_call list \<Rightarrow> table_call \<Rightarrow> table_answer list" where
  "history_answer h (ReadDmac k) = [DmacAnswer (latest_dmac h k)]"
| "history_answer h (ReadSequence k) = [SequenceAnswer (latest_sequence h k)]"
| "history_answer h (ReadAcceptor k) = [AcceptorAnswer (latest_acceptor h k)]"
| "history_answer h _ = []"

fun history_answers :: "table_call list \<Rightarrow> table_call list \<Rightarrow> table_answer list" where
  "history_answers h [] = []"
| "history_answers h (c # cs) = history_answer h c @ history_answers (c # h) cs"

text \<open>The tables agree with a history when every read would answer from the history.\<close>

definition agrees :: "table_call list \<Rightarrow> match_tables \<Rightarrow> bool" where
  "agrees h t \<longleftrightarrow>
     (\<forall>k. fst (matchtable_read_dmac k t) = latest_dmac h k) \<and>
     (\<forall>k. fst (matchtable_read_sequence k t) = latest_sequence h k) \<and>
     (\<forall>k. fst (matchtable_read_acceptor k t) = latest_acceptor h k)"

lemma agrees_empty: "agrees [] empty_tables"
  by (simp add: agrees_def matchtable_defs empty_tables_def)

lemma table_step_agrees:
  assumes "agrees h t"
  shows "fst (table_step c t) = history_answer h c \<and> agrees (c # h) (snd (table_step c t))"
  using assms
  by (cases c)
    (auto simp: agrees_def case_prod_unfold Let_def dmac.rd_keeps seqt.rd_keeps acct.rd_keeps
      dmac.rd_value seqt.rd_value acct.rd_value dmac.wr_content seqt.wr_content acct.wr_content
      dmac.wr_rest [simplified] seqt.wr_rest [simplified] acct.wr_rest [simplified])

lemma table_run_agrees: "agrees h t \<Longrightarrow> fst (table_run cs t) = history_answers h cs"
proof (induction cs arbitrary: h t)
  case (Cons c cs)
  from table_step_agrees [OF Cons.prems, of c] Cons.IH [of "c # h" "snd (table_step c t)"]
  show ?case by (simp add: case_prod_unfold Let_def)
qed simp

text \<open>
  C7. Whatever sequence of calls the simulated pipeline makes on fresh tables, each read
  answers with the value the latest earlier write gave that key in that table, and with zero
  when the key was never written; calls on the other tables, and earlier reads, never matter.
\<close>

theorem match_tables_answer_from_history:
  "fst (table_run cs empty_tables) = history_answers [] cs"
  using table_run_agrees [OF agrees_empty] .

end
