(* ===== verification/Mem_Model.thy ===== *)
theory Mem_Model
  imports Sonic_Prelude
begin

unbundle bit_operations_syntax

text \<open>
  The simulation model of a block memory whose read and write ports differ in width
  (\<^verbatim>\<open>src/p4/bsv/AsymmetricBRAM/mem_model.c\<close>): one row of bytes per written element; a read
  concatenates as many elements as the ratio of the widths.  Accesses outside the rows and
  shifts by more than the word are errors, and the division by a zero width a failed creation.
\<close>

section \<open>The memory\<close>

record mem_t =
  data :: "u8 list list"
  elementByteSize :: u32
  size :: u32
  ratio :: u32
  readElementSize :: u32
  writeElementSize :: u32

datatype mem_error = Out_of_bounds | Bad_shift

definition round_up_div :: "u32 \<Rightarrow> u32 \<Rightarrow> u32" where
  "round_up_div a b = (if a mod b \<noteq> 0 then a div b + 1 else a div b)"

text \<open>\<open>None\<close> is the trap of a division by a zero element size.\<close>

definition mem_create :: "u32 \<Rightarrow> u32 \<Rightarrow> u32 \<Rightarrow> mem_t option" where
  "mem_create memSize readSize writeSize =
     (if writeSize = 0 then None
      else let ebs = round_up_div writeSize 8
           in Some \<lparr>data = replicate (unat memSize) (replicate (unat ebs) 0), elementByteSize = ebs, size = memSize,
                    ratio = round_up_div readSize writeSize, readElementSize = readSize, writeElementSize = writeSize\<rparr>)"

text \<open>The body of the inner loop of \<^verbatim>\<open>mem_read\<close>, and the two loops as one over their index pairs.\<close>

definition read_byte :: "mem_t \<Rightarrow> u32 \<Rightarrow> nat \<Rightarrow> nat \<Rightarrow> u64 \<Rightarrow> mem_error + u64" where
  "read_byte m base i j output =
     (let idx = unat (base + of_nat i); shift_a = of_nat i * writeElementSize m
      in if idx \<ge> length (data m) then Inl Out_of_bounds
         else let bits = data m ! idx ! j
              in if of_nat j \<noteq> elementByteSize m - 1
                 then (if shift_a \<ge> 64 then Inl Bad_shift
                       else Inr (output OR push_bit (unat shift_a) (ucast bits)))
                 else let mask = of_int (push_bit (unat (writeElementSize m mod 8)) 1 - 1) :: u8;
                          shift = (elementByteSize m - 1) * 8 + shift_a
                      in if shift \<ge> 64 then Inl Bad_shift
                         else Inr (output OR push_bit (unat shift) (ucast (bits AND mask))))"

fun read_loop :: "mem_t \<Rightarrow> u32 \<Rightarrow> (nat \<times> nat) list \<Rightarrow> u64 \<Rightarrow> mem_error + u64" where
  "read_loop m base [] output = Inr output"
| "read_loop m base ((i, j) # ps) output =
     (case read_byte m base i j output of Inl e \<Rightarrow> Inl e | Inr output \<Rightarrow> read_loop m base ps output)"

definition mem_read :: "mem_t \<Rightarrow> u32 \<Rightarrow> mem_error + u8 list" where
  "mem_read m rindex =
     (let return_size = round_up_div (readElementSize m) 8;
          base = rindex * ratio m
      in case read_loop m base (List.product [0..<unat (ratio m)] [0..<unat (elementByteSize m)]) 0 of
           Inl e \<Rightarrow> Inl e
         | Inr output \<Rightarrow> Inr (map (\<lambda>i. ucast (drop_bit (i * 8) output AND 0xFF)) [0..<unat return_size]))"

definition mem_write :: "mem_t \<Rightarrow> u32 \<Rightarrow> (nat \<Rightarrow> u8) \<Rightarrow> mem_error + mem_t" where
  "mem_write m windex wdata =
     (if unat windex \<ge> length (data m) then Inl Out_of_bounds
      else Inr (m\<lparr>data := (data m)[unat windex := map wdata [0..<unat (elementByteSize m)]]\<rparr>))"

text \<open>The heap blocks \<^verbatim>\<open>mem_create\<close> allocates and \<^verbatim>\<open>mem_clean\<close> frees.\<close>

datatype block = Mem_struct | Data_array | Row nat

definition create_blocks :: "mem_t \<Rightarrow> block list" where
  "create_blocks m = Mem_struct # Data_array # map Row [0..<unat (size m)]"

definition mem_clean :: "mem_t \<Rightarrow> block list" where
  "mem_clean m = map Row [0..<unat (size m)] @ [Mem_struct]"

section \<open>What a read collects\<close>

text \<open>The bits one index pair contributes.\<close>

definition contribution :: "mem_t \<Rightarrow> nat \<Rightarrow> nat \<Rightarrow> nat \<Rightarrow> u64" where
  "contribution m base i j =
     (if Suc j \<noteq> unat (elementByteSize m) then push_bit (i * unat (writeElementSize m)) (ucast (data m ! (base + i) ! j))
      else push_bit ((unat (elementByteSize m) - 1) * 8 + i * unat (writeElementSize m))
             (ucast (data m ! (base + i) ! j AND mask (unat (writeElementSize m) mod 8))))"

text \<open>Rows of the declared size.\<close>

definition wf_mem :: "mem_t \<Rightarrow> bool" where
  "wf_mem m \<longleftrightarrow> length (data m) = unat (size m) \<and> (\<forall>r \<in> set (data m). length r = unat (elementByteSize m))"

lemma unat_add_small: "unat a + n < 2 ^ 32 \<Longrightarrow> unat (a + of_nat n :: u32) = unat a + n"
  by (simp add: unat_word_ariths unsigned_of_nat take_bit_nat_eq_self)

lemma unat_mult_small: "n * unat a < 2 ^ 32 \<Longrightarrow> n < 2 ^ 32 \<Longrightarrow> unat (of_nat n * a :: u32) = n * unat a"
  by (simp add: unat_word_ariths unsigned_of_nat take_bit_nat_eq_self)

lemma last_byte:
  assumes "j < unat (e :: u32)"
  shows "(of_nat j = e - 1) \<longleftrightarrow> Suc j = unat e" "unat (e - 1) = unat e - 1"
proof -
  have "e \<noteq> 0" using assms by (auto simp: unat_eq_0)
  then show e: "unat (e - 1) = unat e - 1" by (simp add: unat_minus_one)
  have "j < 2 ^ 32" using assms unsigned_less [of e, where 'a = nat] by simp
  then have "unat (of_nat j :: u32) = j" by (simp add: unsigned_of_nat take_bit_nat_eq_self)
  then show "(of_nat j = e - 1) \<longleftrightarrow> Suc j = unat e"
    using assms e by (auto simp: word_unat_eq_iff)
qed

lemma small_shift:
  assumes "i < 64" "(i * unat w + c * 8) < 64"
  shows "unat (of_nat i * w :: u32) = i * unat w" "unat (of_nat c * 8 + of_nat i * w :: u32) = c * 8 + i * unat w"
proof -
  show m: "unat (of_nat i * w :: u32) = i * unat w" using assms by (intro unat_mult_small) simp_all
  have "unat (of_nat c * 8 :: u32) = c * 8" using assms unat_mult_small [of c 8] by simp
  then show "unat (of_nat c * 8 + of_nat i * w :: u32) = c * 8 + i * unat w"
    using m assms by (simp add: unat_word_ariths)
qed

lemma read_byte_contribution:
  assumes "unat base + i < length (data m)" "length (data m) < 2 ^ 32" "j < unat (elementByteSize m)" "i < 64"
    and "i * unat (writeElementSize m) + (unat (elementByteSize m) - 1) * 8 < 64"
  shows "read_byte m base i j out = Inr (out OR contribution m (unat base) i j)"
proof -
  let ?e = "elementByteSize m" and ?w = "writeElementSize m"
  have idx: "unat (base + of_nat i) = unat base + i" using assms by (intro unat_add_small) simp
  have e1: "?e - 1 = of_nat (unat ?e - 1)" unfolding last_byte(2) [OF assms(3), symmetric] by simp
  note sh = small_shift [OF assms(4,5)]
  have mk: "(of_int (push_bit k 1 - 1) :: u8) = mask k" for k
    by (simp add: mask_eq_exp_minus_1 push_bit_eq_mult)
  have le: "\<not> 64 \<le> of_nat i * ?w" "\<not> 64 \<le> (?e - 1) * 8 + of_nat i * ?w"
    using sh assms(5) unfolding e1 by (simp_all add: word_le_nat_alt)
  have sh2: "unat ((?e - 1) * 8 + of_nat i * ?w) = (unat ?e - 1) * 8 + i * unat ?w"
    using sh(2) unfolding e1 .
  show ?thesis
    unfolding read_byte_def Let_def mk idx contribution_def last_byte(1) [OF assms(3)]
    using assms(1) le by (simp add: sh(1) sh2 [simplified] unat_mod)
qed

lemma read_loop_collects:
  assumes "length (data m) < 2 ^ 32"
    and "\<And>i j. (i, j) \<in> set ps \<Longrightarrow> unat base + i < length (data m) \<and> j < unat (elementByteSize m) \<and> i < 64 \<and>
      i * unat (writeElementSize m) + (unat (elementByteSize m) - 1) * 8 < 64"
  shows "\<exists>out'. read_loop m base ps out = Inr out' \<and>
    (\<forall>n. bit out' n \<longleftrightarrow> bit out n \<or> (\<exists>(i, j) \<in> set ps. bit (contribution m (unat base) i j) n))"
  using assms(2)
proof (induction ps arbitrary: out)
  case (Cons p ps)
  obtain i j where p: "p = (i, j)" by force
  have "read_byte m base i j out = Inr (out OR contribution m (unat base) i j)"
    using Cons.prems [of i j] assms(1) p by (intro read_byte_contribution) simp_all
  with Cons.IH [of "out OR contribution m (unat base) i j"] Cons.prems p show ?case
    by (auto simp: bit_or_iff)
qed simp

text \<open>
  The bits of an element: bit \<open>p\<close> is in byte \<open>p div 8\<close>.  For elements of one or two bytes whose
  width is not a multiple of eight, the contributions of an element's bytes are its bits at
  their place.
\<close>

definition element_bit :: "u8 list \<Rightarrow> nat \<Rightarrow> bool" where
  "element_bit row p = bit (row ! (p div 8)) (p mod 8)"

lemma contribution_bit:
  "bit (contribution m base i j) n \<longleftrightarrow> n < 64 \<and>
     (let s = i * unat (writeElementSize m); e = unat (elementByteSize m); b = data m ! (base + i) ! j
      in if Suc j \<noteq> e then s \<le> n \<and> bit b (n - s)
         else (e - 1) * 8 + s \<le> n \<and> n - ((e - 1) * 8 + s) < unat (writeElementSize m) mod 8 \<and>
              bit b (n - ((e - 1) * 8 + s)))"
  by (auto simp: contribution_def Let_def bit_simps not_le dest: bit_imp_le_length)

lemma element_contributes:
  assumes w: "w = unat (writeElementSize m)" "0 < w" "w < 16" "w mod 8 \<noteq> 0"
    and e: "unat (elementByteSize m) = (w + 7) div 8"
  shows "(\<exists>j < unat (elementByteSize m). bit (contribution m base i j) n) \<longleftrightarrow>
    n < 64 \<and> i * w \<le> n \<and> n < i * w + w \<and> element_bit (data m ! (base + i)) (n - i * w)"
proof (cases "w < 8")
  case True
  then have "unat (elementByteSize m) = 1" "w mod 8 = w" using w(2) e by auto
  with True show ?thesis
    by (auto simp: contribution_bit Let_def element_bit_def w(1) [symmetric])
next
  case False
  then have w9: "9 \<le> w" using w(4) by (cases "w = 8") auto
  then have e2: "unat (elementByteSize m) = 2" unfolding e using w(3) by (intro div_nat_eqI) simp_all
  have w8: "w mod 8 = w - 8" using w9 w(3) by (simp add: le_mod_geq)
  have ex: "(\<exists>j < 2. P j) \<longleftrightarrow> P 0 \<or> P (1 :: nat)" for P
    by (auto simp: less_2_cases_iff)
  show ?thesis
  proof (cases "i * w \<le> n")
    case True
    define p where "p = n - i * w"
    have n: "n = i * w + p" using True by (simp add: p_def)
    have small: "\<not> bit (b :: u8) q" if "8 \<le> q" for b q using that bit_imp_le_length by fastforce
    show ?thesis
    proof (cases "p < 8")
      case True
      then show ?thesis unfolding e2 ex n using w9
        by (auto simp: contribution_bit Let_def element_bit_def w(1) [symmetric] e2)
    next
      case False
      have d: "p div 8 = 1" "p mod 8 = p - 8" if "p < w"
        using that False w(3) by (auto intro: div_nat_eqI simp: le_mod_geq)
      show ?thesis unfolding e2 ex n using w9 w8 w(3) False
        by (auto simp: contribution_bit Let_def element_bit_def w(1) [symmetric] e2 small d)
    qed
  next
    case False
    then show ?thesis unfolding e2 ex by (auto simp: contribution_bit Let_def w(1) [symmetric] e2)
  qed
qed

lemma ceil8: "(a + 7) div 8 = (if a mod 8 = 0 then a div 8 else a div 8 + 1)" for a :: nat
proof -
  obtain q t where a: "a = q * 8 + t" "t < 8" by (metis div_mod_decomp mod_less_divisor zero_less_numeral)
  then have "(a + 7) div 8 = q + (t + 7) div 8" "a div 8 = q" "a mod 8 = t" by simp_all
  moreover have "(t + 7) div 8 = (if t = 0 then 0 else 1)" using a(2) by (auto intro: div_nat_eqI)
  ultimately show ?thesis by simp
qed

lemma ceil8_le: "a \<le> 8 * ((a + 7) div 8)" for a :: nat
  using mult_div_mod_eq [of 8 "a + 7"] mod_less_divisor [of 8 "a + 7"] by linarith

text \<open>A read whose elements lie inside the memory collects the contributions of all their bytes.\<close>

lemma read_inside:
  assumes "wf_mem m" and w: "w = unat (writeElementSize m)" "0 < w" "(unat (elementByteSize m) - 1) * 8 < w"
    and r: "unat (ratio m) * w \<le> 64" "unat rindex * unat (ratio m) + unat (ratio m) \<le> unat (size m)"
  obtains out where
    "read_loop m (rindex * ratio m) (List.product [0..<unat (ratio m)] [0..<unat (elementByteSize m)]) 0 = Inr out"
    "\<forall>n. bit out n \<longleftrightarrow> (\<exists>i < unat (ratio m). \<exists>j < unat (elementByteSize m).
       bit (contribution m (unat rindex * unat (ratio m)) i j) n)"
proof -
  let ?k = "unat (ratio m)" and ?e = "unat (elementByteSize m)"
  have len: "length (data m) = unat (size m)" "unat (size m) < 2 ^ 32"
    using assms(1) unsigned_less [of "size m", where 'a = nat] by (simp_all add: wf_mem_def)
  have base: "unat (rindex * ratio m) = unat rindex * ?k"
    using r(2) len(2) by (simp add: unat_word_ariths)
  have row: "i * w + w \<le> 64 \<and> i \<le> i * w" if "i < ?k" for i
    using mult_le_mono1 [of "Suc i" ?k w] that r(1) w(2) by simp
  have shift: "i * w + (?e - 1) * 8 < 64" "i < 64" if "i < ?k" for i
    using row [OF that] w(2,3) by linarith+
  have "\<exists>out. read_loop m (rindex * ratio m) (List.product [0..<?k] [0..<?e]) 0 = Inr out \<and>
      (\<forall>n. bit out n \<longleftrightarrow> bit (0 :: u64) n \<or>
        (\<exists>(i, j) \<in> set (List.product [0..<?k] [0..<?e]). bit (contribution m (unat (rindex * ratio m)) i j) n))"
    using len r(2) shift w(1) by (intro read_loop_collects) (auto simp: base)
  then obtain out where out: "read_loop m (rindex * ratio m) (List.product [0..<?k] [0..<?e]) 0 = Inr out"
      "\<forall>n. bit out n \<longleftrightarrow> bit (0 :: u64) n \<or>
        (\<exists>(i, j) \<in> set (List.product [0..<?k] [0..<?e]). bit (contribution m (unat rindex * ?k) i j) n)"
    unfolding base by blast
  show thesis by (rule that [OF out(1)]) (use out(2) in \<open>auto simp: Bex_def\<close>)
qed

lemma row_place:
  assumes "0 < (w :: nat)"
  shows "i * w \<le> n \<and> n < i * w + w \<longleftrightarrow> i = n div w"
proof
  assume "i * w \<le> n \<and> n < i * w + w"
  then show "i = n div w" by (intro div_nat_eqI [symmetric]) (simp_all add: mult.commute)
next
  assume "i = n div w"
  then show "i * w \<le> n \<and> n < i * w + w"
    using dividend_less_div_times [OF assms, of n] by (simp add: add.commute)
qed

text \<open>All bits of such a read.\<close>

lemma read_bits:
  assumes "wf_mem m" and w: "w = unat (writeElementSize m)" "0 < w" "w < 16" "w mod 8 \<noteq> 0"
    and e: "unat (elementByteSize m) = (w + 7) div 8"
    and r: "unat (ratio m) * w \<le> 64" "unat rindex * unat (ratio m) + unat (ratio m) \<le> unat (size m)"
  shows "\<exists>out. read_loop m (rindex * ratio m) (List.product [0..<unat (ratio m)] [0..<unat (elementByteSize m)]) 0 = Inr out \<and>
    (\<forall>n. bit out n \<longleftrightarrow> n < unat (ratio m) * w \<and>
      element_bit (data m ! (unat rindex * unat (ratio m) + n div w)) (n mod w))"
proof -
  let ?k = "unat (ratio m)" and ?e = "unat (elementByteSize m)"
  have "?e = w div 8 + 1" unfolding e ceil8 using w(4) by simp
  then have "(?e - 1) * 8 + w mod 8 = w" by simp
  then have e8: "(?e - 1) * 8 < w" using w(4) by linarith
  obtain out where out: "read_loop m (rindex * ratio m) (List.product [0..<?k] [0..<?e]) 0 = Inr out"
    "\<forall>n. bit out n \<longleftrightarrow> (\<exists>i < ?k. \<exists>j < ?e. bit (contribution m (unat rindex * ?k) i j) n)"
    by (rule read_inside [OF assms(1) w(1,2) e8 r])
  have "bit out n \<longleftrightarrow> n < ?k * w \<and> element_bit (data m ! (unat rindex * ?k + n div w)) (n mod w)" for n
  proof -
    have "bit out n \<longleftrightarrow> (\<exists>i < ?k. n < 64 \<and> i = n div w \<and> element_bit (data m ! (unat rindex * ?k + i)) (n - i * w))"
      unfolding out(2) [rule_format] element_contributes [OF w e] row_place [OF w(2), symmetric] by blast
    also have "\<dots> \<longleftrightarrow> n < ?k * w \<and> element_bit (data m ! (unat rindex * ?k + n div w)) (n mod w)"
      using w(2) r(1) by (auto simp: div_less_iff_less_mult minus_div_mult_eq_mod)
    finally show ?thesis .
  qed
  with out(1) show ?thesis by blast
qed

section \<open>Histories of writes\<close>

fun mem_writes :: "mem_t \<Rightarrow> (u32 \<times> (nat \<Rightarrow> u8)) list \<Rightarrow> mem_error + mem_t" where
  "mem_writes m [] = Inr m"
| "mem_writes m ((i, wd) # ws) = (case mem_write m i wd of Inl e \<Rightarrow> Inl e | Inr m \<Rightarrow> mem_writes m ws)"

fun last_write :: "(u32 \<times> (nat \<Rightarrow> u8)) list \<Rightarrow> nat \<Rightarrow> (nat \<Rightarrow> u8) option" where
  "last_write [] k = None"
| "last_write ((i, wd) # ws) k =
     (case last_write ws k of Some v \<Rightarrow> Some v | None \<Rightarrow> if unat i = k then Some wd else None)"

definition same_shape :: "mem_t \<Rightarrow> mem_t \<Rightarrow> bool" where
  "same_shape m m' \<longleftrightarrow> size m' = size m \<and> ratio m' = ratio m \<and> elementByteSize m' = elementByteSize m \<and>
     readElementSize m' = readElementSize m \<and> writeElementSize m' = writeElementSize m"

definition row_after :: "mem_t \<Rightarrow> (u32 \<times> (nat \<Rightarrow> u8)) list \<Rightarrow> nat \<Rightarrow> u8 list" where
  "row_after m ws k = (case last_write ws k of None \<Rightarrow> data m ! k | Some wd \<Rightarrow> map wd [0..<unat (elementByteSize m)])"

lemma mem_write_row:
  assumes "wf_mem m" "unat i < unat (size m)"
  shows "\<exists>m'. mem_write m i wd = Inr m' \<and> wf_mem m' \<and> same_shape m m' \<and>
    (\<forall>ws. \<forall>k < unat (size m). row_after m' ws k = row_after m ((i, wd) # ws) k)"
proof (intro exI conjI)
  let ?m = "m\<lparr>data := (data m)[unat i := map wd [0..<unat (elementByteSize m)]]\<rparr>"
  have len: "length (data m) = unat (size m)" using assms by (simp add: wf_mem_def)
  then show "mem_write m i wd = Inr ?m" using assms(2) by (simp add: mem_write_def)
  show "wf_mem ?m" using assms(1) by (auto simp: wf_mem_def dest!: set_update_subset_insert [THEN subsetD])
  show "same_shape m ?m" by (simp add: same_shape_def)
  show "\<forall>ws. \<forall>k < unat (size m). row_after ?m ws k = row_after m ((i, wd) # ws) k"
    using len by (simp add: row_after_def nth_list_update split: option.split)
qed

lemma mem_writes_rows:
  assumes "wf_mem m" "\<forall>(i, wd) \<in> set ws. unat i < unat (size m)"
  shows "\<exists>m'. mem_writes m ws = Inr m' \<and> wf_mem m' \<and> same_shape m m' \<and>
    (\<forall>k < unat (size m). data m' ! k = row_after m ws k)"
  using assms
proof (induction ws arbitrary: m)
  case Nil
  then show ?case by (simp add: row_after_def same_shape_def)
next
  case (Cons x ws)
  obtain i wd where x: "x = (i, wd)" by force
  with Cons.prems mem_write_row [of m i wd] obtain m1 where
    m1: "mem_write m i wd = Inr m1" "wf_mem m1" "same_shape m m1"
      "\<forall>ws. \<forall>k < unat (size m). row_after m1 ws k = row_after m ((i, wd) # ws) k" by auto
  then have "\<forall>(i, wd) \<in> set ws. unat i < unat (size m1)" using Cons.prems(2) by (simp add: same_shape_def)
  from Cons.IH [OF m1(2) this] obtain m' where
    m': "mem_writes m1 ws = Inr m'" "wf_mem m'" "same_shape m1 m'" "\<forall>k < unat (size m1). data m' ! k = row_after m1 ws k"
    by blast
  show ?case
  proof (intro exI conjI)
    show "mem_writes m (x # ws) = Inr m'" using m1(1) m'(1) x by simp
    show "wf_mem m'" by (rule m'(2))
    show "same_shape m m'" using m1(3) m'(3) by (simp add: same_shape_def)
    show "\<forall>k < unat (size m). data m' ! k = row_after m (x # ws) k"
      using m1(3,4) m'(4) x by (simp add: same_shape_def)
  qed
qed

lemma unat_round_up_div8: "unat (round_up_div a 8) = (unat a + 7) div 8"
proof -
  have "unat a < 2 ^ 32" using unsigned_less [of a, where 'a = nat] by simp
  then have "unat a div 8 + 1 < 2 ^ 32" by simp
  then have "unat (a div 8 + 1) = unat a div 8 + 1" by (simp add: unat_word_ariths unat_div)
  then show ?thesis by (simp add: round_up_div_def ceil8 unat_div word_unat_eq_iff unat_mod)
qed

lemma mem_create_fields:
  assumes "mem_create sz r w = Some m"
  shows "wf_mem m" "size m = sz" "readElementSize m = r" "writeElementSize m = w" "w \<noteq> 0"
    "unat (elementByteSize m) = (unat w + 7) div 8" "ratio m = round_up_div r w"
    "k < unat sz \<Longrightarrow> data m ! k = replicate (unat (elementByteSize m)) 0"
  using assms by (auto simp: mem_create_def Let_def wf_mem_def unat_round_up_div8 split: if_splits)

lemma bit_of_byte:
  assumes "n < 8 * c" "c \<le> 8"
  shows "bit (map (\<lambda>i. ucast (drop_bit (i * 8) (out :: u64) AND 0xFF)) [0..<c] ! (n div 8) :: u8) (n mod 8) = bit out n"
proof -
  have q: "n div 8 < c" using assms(1) by (simp add: div_less_iff_less_mult mult.commute)
  have "drop_bit (n div 8 * 8) out AND 0xFF = take_bit 8 (drop_bit (n div 8 * 8) out)"
    by (simp add: take_bit_eq_mask mask_eq_exp_minus_1)
  then have "bit (ucast (drop_bit (n div 8 * 8) out AND 0xFF) :: u8) (n mod 8) = bit out (n div 8 * 8 + n mod 8)"
    by (simp only:) (simp add: bit_simps)
  with q show ?thesis by simp
qed

definition written_bit :: "(u32 \<times> (nat \<Rightarrow> u8)) list \<Rightarrow> nat \<Rightarrow> nat \<Rightarrow> bool" where
  "written_bit ws k p = (case last_write ws k of None \<Rightarrow> False | Some wd \<Rightarrow> bit (wd (p div 8)) (p mod 8))"

lemma row_after_bit:
  assumes "mem_create sz r w = Some m" "k < unat sz" "p < unat w"
  shows "element_bit (row_after m ws k) p = written_bit ws k p"
proof -
  have "p div 8 < unat (elementByteSize m)"
    unfolding mem_create_fields(6) [OF assms(1)] using assms(3) by (simp add: less_eq_div_iff_mult_less_eq Suc_le_eq [symmetric])
  then show ?thesis
    using mem_create_fields(8) [OF assms(1,2)]
    by (simp add: element_bit_def row_after_def written_bit_def split: option.split)
qed

lemma memory_after_writes:
  assumes "mem_create sz r w = Some m0" "unat w dvd unat r" "\<forall>(i, wd) \<in> set ws. unat i < unat sz"
    and "(unat rindex + 1) * (unat r div unat w) \<le> unat sz"
  obtains m where "mem_writes m0 ws = Inr m" "wf_mem m" "size m = sz" "readElementSize m = r"
    "unat w = unat (writeElementSize m)" "unat (elementByteSize m) = (unat w + 7) div 8"
    "unat (ratio m) = unat r div unat w" "unat (ratio m) * unat w = unat r"
    "unat rindex * unat (ratio m) + unat (ratio m) \<le> unat (size m)" "\<forall>k < unat sz. data m ! k = row_after m0 ws k"
proof -
  note f = mem_create_fields [OF assms(1)]
  obtain m where m: "mem_writes m0 ws = Inr m" "wf_mem m" "same_shape m0 m" "\<forall>k < unat sz. data m ! k = row_after m0 ws k"
    using mem_writes_rows [OF f(1), of ws] assms(3) f(2) by auto
  have "r mod w = 0" using assms(2) by (simp add: word_unat_eq_iff unat_mod)
  then have k: "unat (ratio m) = unat r div unat w"
    using m(3) f(7) by (simp add: same_shape_def round_up_div_def unat_div)
  show thesis
    by (rule that [OF m(1,2)]) (use m(3,4) f k assms(2,4) in \<open>simp_all add: same_shape_def\<close>)
qed

section \<open>Properties\<close>

text \<open>
  C24. For write elements of 1 to 7 or 9 to 15 bits and read elements of a whole number of them,
  at most 64 bits: after any sequence of writes inside the memory, a read inside it succeeds and
  returns, bit for bit and least significant element first, the value last written to each
  element, zero where nothing was written.
\<close>

theorem mem_read_returns_last_writes:
  assumes "mem_create sz r w = Some m0" "unat w < 16" "unat w mod 8 \<noteq> 0" "unat w dvd unat r" "unat r \<le> 64"
    and "\<forall>(i, wd) \<in> set ws. unat i < unat sz"
    and "(unat rindex + 1) * (unat r div unat w) \<le> unat sz"
  shows "\<exists>m bytes. mem_writes m0 ws = Inr m \<and> mem_read m rindex = Inr bytes \<and> length bytes = (unat r + 7) div 8 \<and>
    (\<forall>n < unat r. bit (bytes ! (n div 8)) (n mod 8) \<longleftrightarrow>
      written_bit ws (unat rindex * (unat r div unat w) + n div unat w) (n mod unat w))"
proof -
  have w0: "0 < unat w" using mem_create_fields(5) [OF assms(1)] by (simp add: unat_gt_0)
  obtain m where m: "mem_writes m0 ws = Inr m" "wf_mem m" and sh: "unat w = unat (writeElementSize m)"
      "unat (elementByteSize m) = (unat w + 7) div 8" "size m = sz" "readElementSize m = r"
    and k: "unat (ratio m) = unat r div unat w" and kw: "unat (ratio m) * unat w = unat r"
    and range: "unat rindex * unat (ratio m) + unat (ratio m) \<le> unat (size m)"
    and rows: "\<forall>k < unat sz. data m ! k = row_after m0 ws k"
    using memory_after_writes [OF assms(1,4,6,7)] .
  from read_bits [OF m(2) sh(1) w0 assms(2,3) sh(2), of rindex] kw assms(5) range
  obtain out where out: "read_loop m (rindex * ratio m) (List.product [0..<unat (ratio m)] [0..<unat (elementByteSize m)]) 0 = Inr out"
    "\<forall>n. bit out n \<longleftrightarrow> n < unat r \<and> element_bit (data m ! (unat rindex * unat (ratio m) + n div unat w)) (n mod unat w)"
    by auto
  let ?bytes = "map (\<lambda>i. ucast (drop_bit (i * 8) out AND 0xFF)) [0..<(unat r + 7) div 8] :: u8 list"
  have rd: "mem_read m rindex = Inr ?bytes"
    using out(1) sh(4) by (simp add: mem_read_def Let_def unat_round_up_div8)
  have bits: "bit (?bytes ! (n div 8)) (n mod 8) \<longleftrightarrow>
      written_bit ws (unat rindex * (unat r div unat w) + n div unat w) (n mod unat w)" if n: "n < unat r" for n
  proof -
    have "(unat r + 7) div 8 \<le> 8" using assms(5) by (simp add: div_le_mono [of _ 71 8, simplified])
    moreover have "unat r \<le> 8 * ((unat r + 7) div 8)" by (rule ceil8_le)
    ultimately have a: "bit (?bytes ! (n div 8)) (n mod 8) = bit out n" using n by (intro bit_of_byte) simp_all
    have "n div unat w < unat (ratio m)"
      using n kw w0 by (simp add: div_less_iff_less_mult)
    then have "unat rindex * (unat r div unat w) + n div unat w < unat sz" using range k sh(3) by simp
    then show ?thesis
      unfolding a using out(2) n rows row_after_bit [OF assms(1)] w0 k by simp
  qed
  show ?thesis using m(1) rd bits by (intro exI conjI) (assumption | simp)+
qed

theorem mem_read_returns_last_writes_witness:
  "\<exists>m bytes. mem_writes (the (mem_create 16 12 3)) [(1, \<lambda>_. 5)] = Inr m \<and> mem_read m 0 = Inr bytes \<and>
     length bytes = 2 \<and> bit (bytes ! 0) 3 \<and> \<not> bit (bytes ! 0) 4"
proof -
  have c: "mem_create 16 12 3 = Some (the (mem_create 16 12 3))" by (simp add: mem_create_def Let_def)
  from mem_read_returns_last_writes [OF c, of "[(1, \<lambda>_. 5)]" 0] obtain m bytes where
    m: "mem_writes (the (mem_create 16 12 3)) [(1, \<lambda>_. 5)] = Inr m" "mem_read m 0 = Inr bytes" "length bytes = 2"
    and b: "\<forall>n < 12. bit (bytes ! (n div 8)) (n mod 8) \<longleftrightarrow> written_bit [(1, \<lambda>_. 5)] (n div 3) (n mod 3)"
    by auto
  have "bit (bytes ! 0) 3" "\<not> bit (bytes ! 0) 4"
    using b [rule_format, of 3] b [rule_format, of 4] by (simp_all add: written_bit_def)
  with m show ?thesis by blast
qed

text \<open>
  A memory whose write elements are exactly eight bits wide loses all its data: the mask of
  the last byte of an element is empty, so whatever was written, every read inside the memory
  returns zero bytes.  And releasing a memory leaves the array of its rows allocated.
\<close>

theorem byte_elements_read_zero:
  assumes "mem_create sz r 8 = Some m0" "unat r \<le> 64" "8 dvd unat r"
    and "\<forall>(i, wd) \<in> set ws. unat i < unat sz"
    and "(unat rindex + 1) * (unat r div 8) \<le> unat sz"
  shows "(\<exists>m. mem_writes m0 ws = Inr m \<and> mem_read m rindex = Inr (replicate (unat r div 8) 0)) \<and>
    set (create_blocks m0) - set (mem_clean m0) = {Data_array}"
proof -
  have d: "unat (8 :: u32) dvd unat r" "(unat rindex + 1) * (unat r div unat (8 :: u32)) \<le> unat sz"
    using assms(3,5) by simp_all
  obtain m where m: "mem_writes m0 ws = Inr m" "wf_mem m" and "unat (8 :: u32) = unat (writeElementSize m)"
      "unat (elementByteSize m) = (unat (8 :: u32) + 7) div 8" "size m = sz" "readElementSize m = r"
    and "unat (ratio m) * unat (8 :: u32) = unat r"
    and range: "unat rindex * unat (ratio m) + unat (ratio m) \<le> unat (size m)"
    using memory_after_writes [OF assms(1) d(1) assms(4) d(2)] .
  then have sh: "8 = unat (writeElementSize m)" "unat (elementByteSize m) = 1" "size m = sz" "readElementSize m = r"
    and kw: "unat (ratio m) * 8 = unat r" by simp_all
  obtain out where loop: "read_loop m (rindex * ratio m) (List.product [0..<unat (ratio m)] [0..<unat (elementByteSize m)]) 0 = Inr out"
    and "\<forall>n. bit out n \<longleftrightarrow> (\<exists>i < unat (ratio m). \<exists>j < unat (elementByteSize m).
      bit (contribution m (unat rindex * unat (ratio m)) i j) n)"
    using read_inside [OF m(2) sh(1), of rindex] sh(2) kw assms(2) range by auto
  then have out: "\<not> bit out n" for n using sh by (simp add: contribution_def)
  have "out = 0" by (rule bit_word_eqI) (simp add: out)
  moreover have "(unat r + 7) div 8 = unat r div 8" using assms(3) by (simp add: ceil8)
  ultimately have "mem_read m rindex = Inr (replicate (unat r div 8) 0)"
    using loop sh(4) by (simp add: mem_read_def Let_def unat_round_up_div8 map_replicate_const)
  with m(1) show ?thesis by (auto simp: create_blocks_def mem_clean_def)
qed

theorem byte_elements_read_zero_witness:
  "\<exists>m. mem_writes (the (mem_create 4 16 8)) [(0, \<lambda>_. 0xAB), (1, \<lambda>_. 0xCD)] = Inr m \<and> mem_read m 0 = Inr [0, 0]"
proof -
  have "mem_create 4 16 8 = Some (the (mem_create 4 16 8))" by (simp add: mem_create_def Let_def)
  from byte_elements_read_zero [OF this, of "[(0, \<lambda>_. 0xAB), (1, \<lambda>_. 0xCD)]" 0]
  have "\<exists>m. mem_writes (the (mem_create 4 16 8)) [(0, \<lambda>_. 0xAB), (1, \<lambda>_. 0xCD)] = Inr m \<and>
      mem_read m 0 = Inr (replicate 2 0)" by simp
  moreover have "replicate 2 (0 :: u8) = [0, 0]" by (simp add: numeral_2_eq_2)
  ultimately show ?thesis by simp
qed

end
