(* ===== verification/Dtp_Controller.thy ===== *)
theory Dtp_Controller
  imports Sonic_Prelude
begin

text \<open>
  The request methods of the DTP controller (\<^verbatim>\<open>src/hw/bsv/DtpController.bsv\<close>) that the
  kernel driver calls: the hardware behind the portal.  A method takes the controller's
  registers and returns the indications it sends to the host with the new registers.  The
  clock-domain FIFOs that refresh the snapshot registers are the environment: between two
  requests the registers may hold anything.  A method guard that stalls the request
  (\<^verbatim>\<open>dtp_reset\<close> while a reset is counted down, a full log FIFO) delays the method and
  does not change what it does, so a request is modelled at the moment it fires.
\<close>

section \<open>Registers and messages\<close>

record dtp_ctrl =
  version :: u32
  delay_reg :: "u8 \<Rightarrow> u32"
  state_reg :: "u8 \<Rightarrow> u32"
  jumpc_reg :: "u8 \<Rightarrow> u64"
  clocal_reg :: "u8 \<Rightarrow> 53 word"
  cglobal_reg :: "53 word"
  cycle_reg :: "128 word"
  beacon_interval_reg :: "u8 \<Rightarrow> u32"
  lread_data_cycle1 :: "u8 \<Rightarrow> u64 list"
  lread_data_cycle2 :: "u8 \<Rightarrow> u64 list"
  lread_data_timestamp :: "u8 \<Rightarrow> 53 word list"
  lwrite_data_cycle1 :: "(u8 \<times> u64) list"
  lwrite_data_cycle2 :: "(u8 \<times> u64) list"
  lwrite_cnt_enq :: "u8 \<Rightarrow> u32"
  lread_cnt_deq :: "u8 \<Rightarrow> u32"
  dtp_rst_cntr :: "28 word"

text \<open>The requests and indications of the portal that the driver uses, by method.\<close>

datatype dtp_req =
    Req_read_version | Req_reset | Req_set_cnt | Req_read_delay | Req_read_state
  | Req_read_error | Req_read_cnt | Req_logger_write_cnt | Req_logger_read_cnt
  | Req_read_local_cnt | Req_read_global_cnt | Req_set_beacon_interval
  | Req_read_beacon_interval

datatype dtp_ind =
    Ind_read_version | Ind_read_delay | Ind_read_state | Ind_read_error | Ind_read_cnt
  | Ind_logger_read_cnt | Ind_read_local_cnt | Ind_read_global_cnt | Ind_read_beacon_interval

text \<open>An indication: its channel and the 32-bit words of its arguments, most significant first.\<close>

type_synonym ind_msg = "dtp_ind \<times> u32 list"

section \<open>The request methods\<close>

definition ctrl_read_version :: "dtp_ctrl \<Rightarrow> ind_msg list \<times> dtp_ctrl" where
  "ctrl_read_version c = ([(Ind_read_version, [version c])], c)"

definition ctrl_reset :: "u32 \<Rightarrow> dtp_ctrl \<Rightarrow> ind_msg list \<times> dtp_ctrl" where
  "ctrl_reset len c =
     (let limit = (ucast len AND 0xFFFFFFF :: 28 word);
          limit = (if limit < 32 then 32 else limit)
      in ([], c\<lparr>dtp_rst_cntr := limit,
                lwrite_cnt_enq := (\<lambda>i. if i < 4 then 0 else lwrite_cnt_enq c i),
                lread_cnt_deq := (\<lambda>i. if i < 4 then 0 else lread_cnt_deq c i)\<rparr>))"

definition ctrl_set_cnt :: "u8 \<Rightarrow> u64 \<Rightarrow> dtp_ctrl \<Rightarrow> ind_msg list \<times> dtp_ctrl" where
  "ctrl_set_cnt port_no v c = ([], c)"

definition ctrl_read_delay :: "u8 \<Rightarrow> dtp_ctrl \<Rightarrow> ind_msg list \<times> dtp_ctrl" where
  "ctrl_read_delay port_no c =
     (if port_no < 4 then [(Ind_read_delay, [ucast port_no, delay_reg c port_no])] else [], c)"

definition ctrl_read_state :: "u8 \<Rightarrow> dtp_ctrl \<Rightarrow> ind_msg list \<times> dtp_ctrl" where
  "ctrl_read_state port_no c =
     (if port_no < 4 then [(Ind_read_state, [ucast port_no, state_reg c port_no])] else [], c)"

definition ctrl_read_error :: "u8 \<Rightarrow> dtp_ctrl \<Rightarrow> ind_msg list \<times> dtp_ctrl" where
  "ctrl_read_error port_no c =
     (if port_no < 4
      then [(Ind_read_error,
             [ucast port_no, hi32 (jumpc_reg c port_no), lo32 (jumpc_reg c port_no)])]
      else [], c)"

definition ctrl_read_cnt :: "u8 \<Rightarrow> dtp_ctrl \<Rightarrow> ind_msg list \<times> dtp_ctrl" where
  "ctrl_read_cnt port_no c =
     (let v = (ucast (cycle_reg c) :: u64) in ([(Ind_read_cnt, [hi32 v, lo32 v])], c))"

definition ctrl_logger_write_cnt :: "u8 \<Rightarrow> u64 \<Rightarrow> dtp_ctrl \<Rightarrow> ind_msg list \<times> dtp_ctrl" where
  "ctrl_logger_write_cnt port_no host_timestamp c =
     (if port_no < 4
      then ([], c\<lparr>lwrite_data_cycle1 := lwrite_data_cycle1 c @ [(port_no, ucast (clocal_reg c port_no))],
                  lwrite_data_cycle2 := lwrite_data_cycle2 c @ [(port_no, host_timestamp)],
                  lwrite_cnt_enq := (lwrite_cnt_enq c)(port_no := lwrite_cnt_enq c port_no + 1)\<rparr>)
      else ([], c))"

definition ctrl_logger_read_cnt :: "u8 \<Rightarrow> dtp_ctrl \<Rightarrow> ind_msg list \<times> dtp_ctrl" where
  "ctrl_logger_read_cnt port_no c =
     (if port_no < 4
      then (case (lread_data_cycle1 c port_no, lread_data_cycle2 c port_no,
                  lread_data_timestamp c port_no) of
              (m1 # m1s, m2 # m2s, t # ts) \<Rightarrow>
                (let t' = (ucast t :: u64)
                 in ([(Ind_logger_read_cnt,
                       [ucast port_no, hi32 t', lo32 t', hi32 m1, lo32 m1, hi32 m2, lo32 m2])],
                     c\<lparr>lread_data_cycle1 := (lread_data_cycle1 c)(port_no := m1s),
                       lread_data_cycle2 := (lread_data_cycle2 c)(port_no := m2s),
                       lread_data_timestamp := (lread_data_timestamp c)(port_no := ts),
                       lread_cnt_deq := (lread_cnt_deq c)(port_no := lread_cnt_deq c port_no + 1)\<rparr>))
            | _ \<Rightarrow> ([], c))
      else ([], c))"

definition ctrl_read_local_cnt :: "u8 \<Rightarrow> dtp_ctrl \<Rightarrow> ind_msg list \<times> dtp_ctrl" where
  "ctrl_read_local_cnt port_no c =
     (if port_no < 4
      then (let v = ucast (clocal_reg c port_no) + (3 :: u64)
            in [(Ind_read_local_cnt, [ucast port_no, hi32 v, lo32 v])])
      else [], c)"

definition ctrl_read_global_cnt :: "dtp_ctrl \<Rightarrow> ind_msg list \<times> dtp_ctrl" where
  "ctrl_read_global_cnt c =
     (let v = ucast (cglobal_reg c) + (3 :: u64)
      in ([(Ind_read_global_cnt, [hi32 v, lo32 v])], c))"

definition ctrl_set_beacon_interval :: "u8 \<Rightarrow> u32 \<Rightarrow> dtp_ctrl \<Rightarrow> ind_msg list \<times> dtp_ctrl" where
  "ctrl_set_beacon_interval port_no interval c =
     ([], if port_no < 4
          then c\<lparr>beacon_interval_reg := (beacon_interval_reg c)(port_no := interval)\<rparr> else c)"

definition ctrl_read_beacon_interval :: "u8 \<Rightarrow> dtp_ctrl \<Rightarrow> ind_msg list \<times> dtp_ctrl" where
  "ctrl_read_beacon_interval port_no c =
     (if port_no < 4
      then [(Ind_read_beacon_interval, [ucast port_no, beacon_interval_reg c port_no])]
      else [], c)"

section \<open>Dispatch of a complete request message\<close>

text \<open>
  The number of 32-bit words the driver writes for a request, and the method a complete
  message runs: an 8-bit port number is the low byte of its word, a 64-bit argument is two
  words, high half first.
\<close>

fun req_words :: "dtp_req \<Rightarrow> nat" where
  "req_words Req_set_cnt = 3"
| "req_words Req_logger_write_cnt = 3"
| "req_words Req_set_beacon_interval = 2"
| "req_words _ = 1"

definition arg :: "nat \<Rightarrow> u32 list \<Rightarrow> u32" where
  "arg i ws = (if i < length ws then ws ! i else 0)"

fun ctrl_serve :: "dtp_req \<Rightarrow> u32 list \<Rightarrow> dtp_ctrl \<Rightarrow> ind_msg list \<times> dtp_ctrl" where
  "ctrl_serve Req_read_version ws c = ctrl_read_version c"
| "ctrl_serve Req_reset ws c = ctrl_reset (arg 0 ws) c"
| "ctrl_serve Req_set_cnt ws c = ctrl_set_cnt (ucast (arg 0 ws)) (join64 (arg 1 ws) (arg 2 ws)) c"
| "ctrl_serve Req_read_delay ws c = ctrl_read_delay (ucast (arg 0 ws)) c"
| "ctrl_serve Req_read_state ws c = ctrl_read_state (ucast (arg 0 ws)) c"
| "ctrl_serve Req_read_error ws c = ctrl_read_error (ucast (arg 0 ws)) c"
| "ctrl_serve Req_read_cnt ws c = ctrl_read_cnt (ucast (arg 0 ws)) c"
| "ctrl_serve Req_logger_write_cnt ws c =
     ctrl_logger_write_cnt (ucast (arg 0 ws)) (join64 (arg 1 ws) (arg 2 ws)) c"
| "ctrl_serve Req_logger_read_cnt ws c = ctrl_logger_read_cnt (ucast (arg 0 ws)) c"
| "ctrl_serve Req_read_local_cnt ws c = ctrl_read_local_cnt (ucast (arg 0 ws)) c"
| "ctrl_serve Req_read_global_cnt ws c = ctrl_read_global_cnt c"
| "ctrl_serve Req_set_beacon_interval ws c = ctrl_set_beacon_interval (ucast (arg 0 ws)) (arg 1 ws) c"
| "ctrl_serve Req_read_beacon_interval ws c = ctrl_read_beacon_interval (ucast (arg 0 ws)) c"

lemmas ctrl_method_defs =
  ctrl_read_version_def ctrl_reset_def ctrl_set_cnt_def ctrl_read_delay_def
  ctrl_read_state_def ctrl_read_error_def ctrl_read_cnt_def ctrl_logger_write_cnt_def
  ctrl_read_local_cnt_def ctrl_read_global_cnt_def
  ctrl_set_beacon_interval_def ctrl_read_beacon_interval_def

text \<open>The log messages of a port that are ready for the host, oldest first.\<close>

definition log_queue :: "dtp_ctrl \<Rightarrow> u8 \<Rightarrow> (u64 \<times> u64 \<times> u64) list" where
  "log_queue c p =
     zip (map ucast (lread_data_timestamp c p))
         (zip (lread_data_cycle1 c p) (lread_data_cycle2 c p))"

text \<open>Serving log traffic changes no register that a query reads.\<close>

definition same_regs :: "dtp_ctrl \<Rightarrow> dtp_ctrl \<Rightarrow> bool" where
  "same_regs c c' \<longleftrightarrow>
     version c' = version c \<and> delay_reg c' = delay_reg c \<and> state_reg c' = state_reg c \<and>
     jumpc_reg c' = jumpc_reg c \<and> clocal_reg c' = clocal_reg c \<and>
     cglobal_reg c' = cglobal_reg c \<and> cycle_reg c' = cycle_reg c \<and>
     beacon_interval_reg c' = beacon_interval_reg c"

lemma same_regs_refl [simp]: "same_regs c c"
  by (simp add: same_regs_def)

lemma same_regs_trans [trans]: "same_regs a b \<Longrightarrow> same_regs b c \<Longrightarrow> same_regs a c"
  by (simp add: same_regs_def)

lemma ctrl_logger_read_cnt_queue:
  assumes "p < 4"
  shows "case log_queue c p of
      [] \<Rightarrow> ctrl_logger_read_cnt p c = ([], c)
    | (t, m1, m2) # q \<Rightarrow> \<exists>c'. ctrl_logger_read_cnt p c =
        ([(Ind_logger_read_cnt,
           [ucast p, hi32 t, lo32 t, hi32 m1, lo32 m1, hi32 m2, lo32 m2])], c') \<and>
        log_queue c' = (log_queue c)(p := q) \<and> same_regs c c' \<and>
        lwrite_data_cycle1 c' = lwrite_data_cycle1 c \<and> lwrite_data_cycle2 c' = lwrite_data_cycle2 c"
  using assms
  by (auto simp: ctrl_logger_read_cnt_def log_queue_def Let_def same_regs_def fun_eq_iff
      split: list.splits)

lemma ctrl_logger_write_cnt_queue:
  "log_queue (snd (ctrl_logger_write_cnt p m c)) = log_queue c"
  "same_regs c (snd (ctrl_logger_write_cnt p m c))"
  by (simp_all add: ctrl_logger_write_cnt_def log_queue_def same_regs_def fun_eq_iff)

lemma ctrl_logger_write_cnt_sent:
  "p < 4 \<Longrightarrow> lwrite_data_cycle2 (snd (ctrl_logger_write_cnt p m c)) = lwrite_data_cycle2 c @ [(p, m)]"
  by (simp add: ctrl_logger_write_cnt_def)

end
