(* ===== verification/Dtp_Portal.thy ===== *)
theory Dtp_Portal
  imports Dtp_Controller
begin

text \<open>
  The kernel driver's portal access functions (\<^verbatim>\<open>src/sw/daemon/dtp_portal.c\<close>): memory-mapped
  request and indication FIFOs of the DTP controller.  The PCIe bus, the layout constants of
  \<^verbatim>\<open>portal.h\<close> and the channel numbers of \<^verbatim>\<open>GeneratedTypes.h\<close> are not part of the
  repository; they are the fields of \<open>portal_env\<close>, an argument of every function.  A volatile
  access is one call of the bus, which may change the device: the functions are programs of
  the state monad over the driver's portal record.  The locale \<open>dtp_portal_hw\<close> states what
  the driver relies on of the bus.  Messages printed by \<^verbatim>\<open>__DTP_PRINT\<close> are not modelled.
\<close>

section \<open>The environment and the driver's state\<close>

record portal_hdr =
  PORTAL_BASE_OFFSET :: nat
  PORTAL_FIFO :: "nat \<Rightarrow> nat"
  PORTAL_CTRL_IND_QUEUE_STATUS :: nat
  CHAN_NUM_req :: "dtp_req \<Rightarrow> nat"
  CHAN_NUM_ind :: "dtp_ind \<Rightarrow> nat"

record 'd portal_env = portal_hdr +
  mmio_read :: "nat \<Rightarrow> 'd \<Rightarrow> u32 \<times> 'd"
  mmio_write :: "nat \<Rightarrow> u32 \<Rightarrow> 'd \<Rightarrow> 'd"
  native_read_tsc :: "'d \<Rightarrow> u64 \<times> 'd"

record 'd portal =
  portal_request_base :: nat
  portal_indication_base :: nat
  portal_indication_status :: nat
  dev :: 'd

text \<open>Addresses are byte addresses; indexing an \<^verbatim>\<open>unsigned int *\<close> steps by four.\<close>

definition dtp_map_base :: "'x portal_hdr_scheme \<Rightarrow> nat \<Rightarrow> nat \<Rightarrow> nat" where
  "dtp_map_base E bar2io i = bar2io + i * PORTAL_BASE_OFFSET E"

definition dtp_mapchannel :: "'x portal_hdr_scheme \<Rightarrow> nat \<Rightarrow> nat \<Rightarrow> nat" where
  "dtp_mapchannel E base index = base + 4 * PORTAL_FIFO E index"

definition portal_indication_index :: nat where "portal_indication_index = 0"
definition portal_request_index :: nat where "portal_request_index = 1"

definition dtp_map_indication :: "'d portal_env \<Rightarrow> dtp_ind \<Rightarrow> 'd portal \<Rightarrow> nat" where
  "dtp_map_indication E i p = dtp_mapchannel E (portal_indication_base p) (CHAN_NUM_ind E i)"

definition dtp_map_request :: "'d portal_env \<Rightarrow> dtp_req \<Rightarrow> 'd portal \<Rightarrow> nat" where
  "dtp_map_request E m p = dtp_mapchannel E (portal_request_base p) (CHAN_NUM_req E m)"

definition dtp_portal_init :: "'d portal_env \<Rightarrow> nat \<Rightarrow> 'd portal \<Rightarrow> 'd portal" where
  "dtp_portal_init E bar2io p =
     (let ind = dtp_map_base E bar2io portal_indication_index
      in p\<lparr>portal_request_base := dtp_map_base E bar2io portal_request_index,
           portal_indication_base := ind,
           portal_indication_status := ind + 4 * PORTAL_CTRL_IND_QUEUE_STATUS E\<rparr>)"

section \<open>Word accesses\<close>

definition dtp_read_portal_32bit :: "'d portal_env \<Rightarrow> nat \<Rightarrow> ('d portal, u32) state" where
  "dtp_read_portal_32bit E addr =
     State (\<lambda>p. let (w, d) = mmio_read E addr (dev p) in (w, p\<lparr>dev := d\<rparr>))"

definition dtp_read_portal_64bit :: "'d portal_env \<Rightarrow> nat \<Rightarrow> ('d portal, u64) state" where
  "dtp_read_portal_64bit E addr =
     do { hi \<leftarrow> dtp_read_portal_32bit E addr;
          lo \<leftarrow> dtp_read_portal_32bit E addr;
          State_Monad.return (push_bit 32 (ucast hi) OR ucast lo) }"

definition dtp_write_portal_32bit :: "'d portal_env \<Rightarrow> nat \<Rightarrow> u32 \<Rightarrow> ('d portal, unit) state" where
  "dtp_write_portal_32bit E addr value =
     State (\<lambda>p. ((), p\<lparr>dev := mmio_write E addr value (dev p)\<rparr>))"

definition dtp_write_portal_64bit :: "'d portal_env \<Rightarrow> nat \<Rightarrow> u64 \<Rightarrow> ('d portal, unit) state" where
  "dtp_write_portal_64bit E addr value =
     do { dtp_write_portal_32bit E addr (ucast (drop_bit 32 value));
          dtp_write_portal_32bit E addr (ucast value) }"

text \<open>The macros compute addresses from the current base registers.\<close>

definition map_request :: "'d portal_env \<Rightarrow> dtp_req \<Rightarrow> ('d portal, nat) state" where
  "map_request E m = State (\<lambda>p. (dtp_map_request E m p, p))"

definition map_indication :: "'d portal_env \<Rightarrow> dtp_ind \<Rightarrow> ('d portal, nat) state" where
  "map_indication E i = State (\<lambda>p. (dtp_map_indication E i p, p))"

section \<open>The driver's calls\<close>

definition dtp_check_indication_queue :: "'d portal_env \<Rightarrow> dtp_ind \<Rightarrow> ('d portal, u32) state" where
  "dtp_check_indication_queue E channel =
     do { dtp_res \<leftarrow> map_indication E channel;
          dtp_read_portal_32bit E (dtp_res + 4) }"

definition dtp_read_version :: "'d portal_env \<Rightarrow> ('d portal, u32) state" where
  "dtp_read_version E =
     do { dtp_req \<leftarrow> map_request E Req_read_version;
          dtp_res \<leftarrow> map_indication E Ind_read_version;
          dtp_write_portal_32bit E dtp_req 0;
          dtp_read_portal_32bit E dtp_res }"

definition dtp_reset :: "'d portal_env \<Rightarrow> u32 \<Rightarrow> ('d portal, unit) state" where
  "dtp_reset E port =
     do { dtp_req \<leftarrow> map_request E Req_reset;
          dtp_write_portal_32bit E dtp_req port }"

definition dtp_read_cnt :: "'d portal_env \<Rightarrow> u32 \<Rightarrow> ('d portal, u64) state" where
  "dtp_read_cnt E port =
     do { dtp_req \<leftarrow> map_request E Req_read_cnt;
          dtp_res \<leftarrow> map_indication E Ind_read_cnt;
          dtp_write_portal_32bit E dtp_req port;
          dtp_read_portal_64bit E dtp_res }"

definition dtp_set_cnt :: "'d portal_env \<Rightarrow> u32 \<Rightarrow> u64 \<Rightarrow> ('d portal, unit) state" where
  "dtp_set_cnt E port c =
     do { dtp_req \<leftarrow> map_request E Req_set_cnt;
          dtp_write_portal_32bit E dtp_req port;
          dtp_write_portal_64bit E dtp_req c }"

definition dtp_read_delay :: "'d portal_env \<Rightarrow> u32 \<Rightarrow> ('d portal, u32) state" where
  "dtp_read_delay E port =
     do { dtp_req \<leftarrow> map_request E Req_read_delay;
          dtp_res \<leftarrow> map_indication E Ind_read_delay;
          dtp_write_portal_32bit E dtp_req port;
          p \<leftarrow> dtp_read_portal_32bit E dtp_res;
          dtp_read_portal_32bit E dtp_res }"

definition dtp_read_state :: "'d portal_env \<Rightarrow> u32 \<Rightarrow> ('d portal, u32) state" where
  "dtp_read_state E port =
     do { dtp_req \<leftarrow> map_request E Req_read_state;
          dtp_res \<leftarrow> map_indication E Ind_read_state;
          dtp_write_portal_32bit E dtp_req port;
          p \<leftarrow> dtp_read_portal_32bit E dtp_res;
          dtp_read_portal_32bit E dtp_res }"

definition dtp_read_error :: "'d portal_env \<Rightarrow> u32 \<Rightarrow> ('d portal, u64) state" where
  "dtp_read_error E port =
     do { dtp_req \<leftarrow> map_request E Req_read_error;
          dtp_res \<leftarrow> map_indication E Ind_read_error;
          dtp_write_portal_32bit E dtp_req port;
          p \<leftarrow> dtp_read_portal_32bit E dtp_res;
          dtp_read_portal_64bit E dtp_res }"

definition dtp_send_message :: "'d portal_env \<Rightarrow> u32 \<Rightarrow> u64 \<Rightarrow> ('d portal, unit) state" where
  "dtp_send_message E port message =
     do { dtp_req \<leftarrow> map_request E Req_logger_write_cnt;
          dtp_write_portal_32bit E dtp_req port;
          dtp_write_portal_64bit E dtp_req message }"

text \<open>
  \<^verbatim>\<open>dtp_read_message\<close> returns \<open>-1\<close> with its three output parameters untouched (\<open>None\<close>) or
  \<open>0\<close> with the timestamp and the two message words stored through them.
\<close>

definition dtp_read_message ::
  "'d portal_env \<Rightarrow> u32 \<Rightarrow> ('d portal, (u64 \<times> u64 \<times> u64) option) state" where
  "dtp_read_message E port =
     do { dtp_req \<leftarrow> map_request E Req_logger_read_cnt;
          dtp_res \<leftarrow> map_indication E Ind_logger_read_cnt;
          dtp_write_portal_32bit E dtp_req port;
          q \<leftarrow> dtp_check_indication_queue E Ind_logger_read_cnt;
          if q = 0 then State_Monad.return None
          else do { p \<leftarrow> dtp_read_portal_32bit E dtp_res;
                    ts \<leftarrow> dtp_read_portal_64bit E dtp_res;
                    msg1 \<leftarrow> dtp_read_portal_64bit E dtp_res;
                    msg2 \<leftarrow> dtp_read_portal_64bit E dtp_res;
                    State_Monad.return (Some (ts, msg1, msg2)) } }"

definition dtp_read_local_cnt :: "'d portal_env \<Rightarrow> u32 \<Rightarrow> ('d portal, u64) state" where
  "dtp_read_local_cnt E port =
     do { dtp_req \<leftarrow> map_request E Req_read_local_cnt;
          dtp_res \<leftarrow> map_indication E Ind_read_local_cnt;
          dtp_write_portal_32bit E dtp_req port;
          p \<leftarrow> dtp_read_portal_32bit E dtp_res;
          dtp_read_portal_64bit E dtp_res }"

definition dtp_read_global_cnt :: "'d portal_env \<Rightarrow> ('d portal, u64) state" where
  "dtp_read_global_cnt E =
     do { dtp_req \<leftarrow> map_request E Req_read_global_cnt;
          dtp_res \<leftarrow> map_indication E Ind_read_global_cnt;
          dtp_write_portal_32bit E dtp_req 0;
          dtp_read_portal_64bit E dtp_res }"

definition dtp_set_beacon_interval :: "'d portal_env \<Rightarrow> u32 \<Rightarrow> u32 \<Rightarrow> ('d portal, unit) state" where
  "dtp_set_beacon_interval E port interval =
     do { dtp_req \<leftarrow> map_request E Req_set_beacon_interval;
          dtp_write_portal_32bit E dtp_req port;
          dtp_write_portal_32bit E dtp_req interval }"

definition dtp_read_beacon_interval :: "'d portal_env \<Rightarrow> u32 \<Rightarrow> ('d portal, u32) state" where
  "dtp_read_beacon_interval E port =
     do { dtp_req \<leftarrow> map_request E Req_read_beacon_interval;
          dtp_res \<leftarrow> map_indication E Ind_read_beacon_interval;
          dtp_write_portal_32bit E dtp_req port;
          p \<leftarrow> dtp_read_portal_32bit E dtp_res;
          dtp_read_portal_32bit E dtp_res }"

text \<open>The status registers \<^verbatim>\<open>dtp_check_portal\<close> reads, and prints at verbosity two, in order.\<close>

definition dtp_check_portal :: "'d portal_env \<Rightarrow> int \<Rightarrow> ('d portal, u32 list) state" where
  "dtp_check_portal E dtp_verbose =
     (if dtp_verbose < 2 then State_Monad.return []
      else do { addr \<leftarrow> State (\<lambda>p. (portal_indication_status p, p));
                s0 \<leftarrow> dtp_read_portal_32bit E addr;
                s1 \<leftarrow> dtp_check_indication_queue E Ind_read_version;
                s2 \<leftarrow> dtp_check_indication_queue E Ind_read_delay;
                s3 \<leftarrow> dtp_check_indication_queue E Ind_read_state;
                s4 \<leftarrow> dtp_check_indication_queue E Ind_read_error;
                s5 \<leftarrow> dtp_check_indication_queue E Ind_read_cnt;
                s6 \<leftarrow> dtp_check_indication_queue E Ind_logger_read_cnt;
                s7 \<leftarrow> dtp_check_indication_queue E Ind_read_local_cnt;
                s8 \<leftarrow> dtp_check_indication_queue E Ind_read_global_cnt;
                s9 \<leftarrow> dtp_check_indication_queue E Ind_read_beacon_interval;
                State_Monad.return [s0, s1, s2, s3, s4, s5, s6, s7, s8, s9] })"

lemmas portal_access_defs =
  dtp_read_portal_32bit_def dtp_read_portal_64bit_def dtp_write_portal_32bit_def
  dtp_write_portal_64bit_def map_request_def map_indication_def dtp_check_indication_queue_def

lemmas portal_call_defs =
  dtp_read_version_def dtp_reset_def dtp_read_cnt_def dtp_set_cnt_def dtp_read_delay_def
  dtp_read_state_def dtp_read_error_def dtp_send_message_def dtp_read_message_def
  dtp_read_local_cnt_def dtp_read_global_cnt_def dtp_set_beacon_interval_def
  dtp_read_beacon_interval_def

section \<open>What the driver relies on of the bus\<close>

text \<open>
  The abstract portal: words waiting in each indication FIFO, the words of a request message
  received so far, and the state of the hardware behind it.  A word written to a request
  channel completes a message when it is the last one of that request; the hardware then
  serves the message and its indications join their FIFOs.
\<close>

record 'h portal_view =
  pend :: "dtp_ind \<Rightarrow> u32 list"
  part :: "dtp_req \<Rightarrow> u32 list"
  hw :: 'h

fun deliver :: "ind_msg list \<Rightarrow> (dtp_ind \<Rightarrow> u32 list) \<Rightarrow> dtp_ind \<Rightarrow> u32 list" where
  "deliver [] q = q"
| "deliver ((i, ws) # ms) q = deliver ms (q(i := q i @ ws))"

definition push_word ::
  "(dtp_req \<Rightarrow> u32 list \<Rightarrow> 'h \<Rightarrow> ind_msg list \<times> 'h) \<Rightarrow> dtp_req \<Rightarrow> u32 \<Rightarrow>
     'h portal_view \<Rightarrow> 'h portal_view" where
  "push_word serve m w v =
     (let ws = part v m @ [w]
      in if length ws < req_words m then v\<lparr>part := (part v)(m := ws)\<rparr>
         else let (ms, h) = serve m ws (hw v)
              in v\<lparr>part := (part v)(m := []), hw := h, pend := deliver ms (pend v)\<rparr>)"

definition pop_word :: "dtp_ind \<Rightarrow> 'h portal_view \<Rightarrow> 'h portal_view" where
  "pop_word i v = v\<lparr>pend := (pend v)(i := tl (pend v i))\<rparr>"

text \<open>No message half written, no indication left unread.\<close>

definition quiet :: "'h \<Rightarrow> 'h portal_view" where
  "quiet h = \<lparr>pend = (\<lambda>_. []), part = (\<lambda>_. []), hw = h\<rparr>"

definition req_addr :: "'x portal_hdr_scheme \<Rightarrow> nat \<Rightarrow> dtp_req \<Rightarrow> nat" where
  "req_addr E bar2io m =
     dtp_mapchannel E (dtp_map_base E bar2io portal_request_index) (CHAN_NUM_req E m)"

definition ind_addr :: "'x portal_hdr_scheme \<Rightarrow> nat \<Rightarrow> dtp_ind \<Rightarrow> nat" where
  "ind_addr E bar2io i =
     dtp_mapchannel E (dtp_map_base E bar2io portal_indication_index) (CHAN_NUM_ind E i)"

definition status_addr :: "'x portal_hdr_scheme \<Rightarrow> nat \<Rightarrow> nat" where
  "status_addr E bar2io =
     dtp_map_base E bar2io portal_indication_index + 4 * PORTAL_CTRL_IND_QUEUE_STATUS E"

definition attached :: "'d portal_env \<Rightarrow> nat \<Rightarrow> 'd portal \<Rightarrow> bool" where
  "attached E bar2io p \<longleftrightarrow>
     portal_request_base p = dtp_map_base E bar2io portal_request_index \<and>
     portal_indication_base p = dtp_map_base E bar2io portal_indication_index \<and>
     portal_indication_status p = status_addr E bar2io"

lemma attached_init: "attached E bar2io (dtp_portal_init E bar2io p)"
  by (simp add: attached_def dtp_portal_init_def status_addr_def Let_def)

lemma attached_dev [simp]: "attached E bar2io (p\<lparr>dev := d\<rparr>) = attached E bar2io p"
  by (simp add: attached_def)

lemma map_request_attached:
  "attached E bar2io p \<Longrightarrow> dtp_map_request E m p = req_addr E bar2io m"
  by (simp add: attached_def dtp_map_request_def req_addr_def)

lemma map_indication_attached:
  "attached E bar2io p \<Longrightarrow> dtp_map_indication E i p = ind_addr E bar2io i"
  by (simp add: attached_def dtp_map_indication_def ind_addr_def)

text \<open>
  Programs that only look: from a quiet portal they end in a quiet portal with the same
  hardware, with a result that satisfies \<open>Q\<close>.
\<close>

definition looks :: "'d portal_env \<Rightarrow> nat \<Rightarrow> ('d \<Rightarrow> 'h portal_view) \<Rightarrow> 'h \<Rightarrow>
    ('d portal, 'a) state \<Rightarrow> ('a \<Rightarrow> bool) \<Rightarrow> bool" where
  "looks E bar2io view h m Q \<longleftrightarrow>
     (\<forall>p. attached E bar2io p \<longrightarrow> view (dev p) = quiet h \<longrightarrow>
        (\<exists>a d. run_state m p = (a, p\<lparr>dev := d\<rparr>) \<and> view d = quiet h \<and> Q a))"

lemma looksE:
  assumes "looks E bar2io view h m Q" "attached E bar2io p" "view (dev p) = quiet h"
  obtains a d where "run_state m p = (a, p\<lparr>dev := d\<rparr>)" "view d = quiet h" "Q a"
  using assms unfolding looks_def by blast

lemma looks_weaken: "looks E bar2io view h m Q \<Longrightarrow> (\<And>a. Q a \<Longrightarrow> R a) \<Longrightarrow> looks E bar2io view h m R"
  unfolding looks_def by blast

locale dtp_portal_hw =
  fixes E :: "'d portal_env"
    and bar2io :: nat
    and view :: "'d \<Rightarrow> 'h portal_view"
    and serve :: "dtp_req \<Rightarrow> u32 list \<Rightarrow> 'h \<Rightarrow> ind_msg list \<times> 'h"
  assumes write_word: "view (mmio_write E (req_addr E bar2io m) w d) = push_word serve m w (view d)"
    and read_word: "pend (view d) i \<noteq> [] \<Longrightarrow>
      fst (mmio_read E (ind_addr E bar2io i) d) = hd (pend (view d) i)"
    and read_word_view: "pend (view d) i \<noteq> [] \<Longrightarrow>
      view (snd (mmio_read E (ind_addr E bar2io i) d)) = pop_word i (view d)"
    and read_status: "fst (mmio_read E (ind_addr E bar2io i + 4) d) =
      (if pend (view d) i = [] then 0 else 1)"
    and read_status_view: "view (snd (mmio_read E (ind_addr E bar2io i + 4) d)) = view d"
    and read_ctrl_view: "view (snd (mmio_read E (status_addr E bar2io) d)) = view d"
    and tsc_view: "view (snd (native_read_tsc E d)) = view d"
begin

lemmas bus_laws =
  write_word read_word read_word_view read_status read_status_view read_ctrl_view

lemmas run_defs =
  portal_access_defs monad_run map_request_attached map_indication_attached case_prod_unfold
  Let_def bus_laws push_word_def pop_word_def quiet_def

text \<open>A one-word request answered by one message: the call returns the message's payload.\<close>

lemma read_version_call:
  assumes "attached E bar2io p" "view (dev p) = quiet h"
    and "serve Req_read_version [0] h = ([(Ind_read_version, [v])], h')"
  shows "\<exists>d. run_state (dtp_read_version E) p = (v, p\<lparr>dev := d\<rparr>) \<and> view d = quiet h'"
  using assms by (auto simp: dtp_read_version_def run_defs)

lemma read_delay_call:
  assumes "attached E bar2io p" "view (dev p) = quiet h"
    and "serve Req_read_delay [port] h = ([(Ind_read_delay, [q, v])], h')"
  shows "\<exists>d. run_state (dtp_read_delay E port) p = (v, p\<lparr>dev := d\<rparr>) \<and> view d = quiet h'"
  using assms by (auto simp: dtp_read_delay_def run_defs)

lemma read_error_call:
  assumes "attached E bar2io p" "view (dev p) = quiet h"
    and "serve Req_read_error [port] h = ([(Ind_read_error, [q, hi32 v, lo32 v])], h')"
  shows "\<exists>d. run_state (dtp_read_error E port) p = (v, p\<lparr>dev := d\<rparr>) \<and> view d = quiet h'"
  using assms by (auto simp: dtp_read_error_def run_defs simp flip: join64_def)

lemma read_state_call:
  assumes "attached E bar2io p" "view (dev p) = quiet h"
    and "serve Req_read_state [port] h = ([(Ind_read_state, [q, v])], h')"
  shows "\<exists>d. run_state (dtp_read_state E port) p = (v, p\<lparr>dev := d\<rparr>) \<and> view d = quiet h'"
  using assms by (auto simp: dtp_read_state_def run_defs)

lemma read_beacon_interval_call:
  assumes "attached E bar2io p" "view (dev p) = quiet h"
    and "serve Req_read_beacon_interval [port] h = ([(Ind_read_beacon_interval, [q, v])], h')"
  shows "\<exists>d. run_state (dtp_read_beacon_interval E port) p = (v, p\<lparr>dev := d\<rparr>) \<and> view d = quiet h'"
  using assms by (auto simp: dtp_read_beacon_interval_def run_defs)

lemma read_cnt_call:
  assumes "attached E bar2io p" "view (dev p) = quiet h"
    and "serve Req_read_cnt [port] h = ([(Ind_read_cnt, [hi32 v, lo32 v])], h')"
  shows "\<exists>d. run_state (dtp_read_cnt E port) p = (v, p\<lparr>dev := d\<rparr>) \<and> view d = quiet h'"
  using assms by (auto simp: dtp_read_cnt_def run_defs simp flip: join64_def)

lemma read_local_cnt_call:
  assumes "attached E bar2io p" "view (dev p) = quiet h"
    and "serve Req_read_local_cnt [port] h = ([(Ind_read_local_cnt, [q, hi32 v, lo32 v])], h')"
  shows "\<exists>d. run_state (dtp_read_local_cnt E port) p = (v, p\<lparr>dev := d\<rparr>) \<and> view d = quiet h'"
  using assms by (auto simp: dtp_read_local_cnt_def run_defs simp flip: join64_def)

lemma read_global_cnt_call:
  assumes "attached E bar2io p" "view (dev p) = quiet h"
    and "serve Req_read_global_cnt [0] h = ([(Ind_read_global_cnt, [hi32 v, lo32 v])], h')"
  shows "\<exists>d. run_state (dtp_read_global_cnt E) p = (v, p\<lparr>dev := d\<rparr>) \<and> view d = quiet h'"
  using assms by (auto simp: dtp_read_global_cnt_def run_defs simp flip: join64_def)

text \<open>The log is read only when the request produced a message.\<close>

lemma read_message_call:
  assumes "attached E bar2io p" "view (dev p) = quiet h"
    and "serve Req_logger_read_cnt [port] h =
      ([(Ind_logger_read_cnt, [q, hi32 t, lo32 t, hi32 m1, lo32 m1, hi32 m2, lo32 m2])], h')"
  shows "\<exists>d. run_state (dtp_read_message E port) p = (Some (t, m1, m2), p\<lparr>dev := d\<rparr>) \<and>
    view d = quiet h'"
  using assms by (auto simp: dtp_read_message_def run_defs simp flip: join64_def)

lemma read_message_empty_call:
  assumes "attached E bar2io p" "view (dev p) = quiet h"
    and "serve Req_logger_read_cnt [port] h = ([], h')"
  shows "\<exists>d. run_state (dtp_read_message E port) p = (None, p\<lparr>dev := d\<rparr>) \<and> view d = quiet h'"
  using assms by (auto simp: dtp_read_message_def run_defs)

text \<open>Commands without an answer leave the portal quiet.\<close>

lemma reset_call:
  assumes "attached E bar2io p" "view (dev p) = quiet h"
    and "serve Req_reset [port] h = ([], h')"
  shows "\<exists>d. run_state (dtp_reset E port) p = ((), p\<lparr>dev := d\<rparr>) \<and> view d = quiet h'"
  using assms by (auto simp: dtp_reset_def run_defs)

lemma set_cnt_call:
  assumes "attached E bar2io p" "view (dev p) = quiet h"
    and "serve Req_set_cnt [port, hi32 c, lo32 c] h = ([], h')"
  shows "\<exists>d. run_state (dtp_set_cnt E port c) p = ((), p\<lparr>dev := d\<rparr>) \<and> view d = quiet h'"
  using assms by (auto simp: dtp_set_cnt_def run_defs hi32_def lo32_def)

lemma set_beacon_interval_call:
  assumes "attached E bar2io p" "view (dev p) = quiet h"
    and "serve Req_set_beacon_interval [port, n] h = ([], h')"
  shows "\<exists>d. run_state (dtp_set_beacon_interval E port n) p = ((), p\<lparr>dev := d\<rparr>) \<and> view d = quiet h'"
  using assms by (auto simp: dtp_set_beacon_interval_def run_defs)

lemma send_message_call:
  assumes "attached E bar2io p" "view (dev p) = quiet h"
    and "serve Req_logger_write_cnt [port, hi32 m, lo32 m] h = ([], h')"
  shows "\<exists>d. run_state (dtp_send_message E port m) p = ((), p\<lparr>dev := d\<rparr>) \<and> view d = quiet h'"
  using assms by (auto simp: dtp_send_message_def run_defs hi32_def lo32_def)

lemma looks_return: "Q a \<Longrightarrow> looks E bar2io view h (State_Monad.return a) Q"
  by (auto simp: looks_def monad_run intro!: exI [of _ "dev _"])

lemma looks_bind:
  assumes "looks E bar2io view h m Q" and "\<And>a. Q a \<Longrightarrow> looks E bar2io view h (f a) R"
  shows "looks E bar2io view h (State_Monad.bind m f) R"
  unfolding looks_def
proof (intro allI impI)
  fix p assume p: "attached E bar2io p" "view (dev p) = quiet h"
  with assms(1) obtain a d where m: "run_state m p = (a, p\<lparr>dev := d\<rparr>)" "view d = quiet h" "Q a"
    unfolding looks_def by blast
  then obtain b d' where "run_state (f a) (p\<lparr>dev := d\<rparr>) = (b, p\<lparr>dev := d'\<rparr>)" "view d' = quiet h" "R b"
    using assms(2) [OF m(3), unfolded looks_def, rule_format, of "p\<lparr>dev := d\<rparr>"] p(1) by auto
  with m show "\<exists>b d. run_state (m \<bind> f) p = (b, p\<lparr>dev := d\<rparr>) \<and> view d = quiet h \<and> R b"
    by (auto simp: monad_run)
qed

lemma looks_check_queue: "looks E bar2io view h (dtp_check_indication_queue E i) (\<lambda>s. s = 0)"
  by (auto simp: looks_def run_defs)

lemma looks_status:
  "looks E bar2io view h (do { addr \<leftarrow> State (\<lambda>p. (portal_indication_status p, p));
                 dtp_read_portal_32bit E addr }) (\<lambda>s. True)"
  by (auto simp: looks_def attached_def run_defs)

text \<open>The status dump reads registers only; a quiet portal shows every FIFO empty.\<close>

lemma looks_check_portal:
  "looks E bar2io view h (dtp_check_portal E vb)
     (\<lambda>st. st = [] \<and> vb < 2 \<or> (\<exists>s. st = s # replicate 9 0) \<and> 2 \<le> vb)"
proof (cases "vb < 2")
  case True
  then show ?thesis by (simp add: dtp_check_portal_def looks_return)
next
  case False
  then have eq: "dtp_check_portal E vb =
      do { s0 \<leftarrow> do { addr \<leftarrow> State (\<lambda>p. (portal_indication_status p, p));
                      dtp_read_portal_32bit E addr };
           s1 \<leftarrow> dtp_check_indication_queue E Ind_read_version;
           s2 \<leftarrow> dtp_check_indication_queue E Ind_read_delay;
           s3 \<leftarrow> dtp_check_indication_queue E Ind_read_state;
           s4 \<leftarrow> dtp_check_indication_queue E Ind_read_error;
           s5 \<leftarrow> dtp_check_indication_queue E Ind_read_cnt;
           s6 \<leftarrow> dtp_check_indication_queue E Ind_logger_read_cnt;
           s7 \<leftarrow> dtp_check_indication_queue E Ind_read_local_cnt;
           s8 \<leftarrow> dtp_check_indication_queue E Ind_read_global_cnt;
           s9 \<leftarrow> dtp_check_indication_queue E Ind_read_beacon_interval;
           State_Monad.return [s0, s1, s2, s3, s4, s5, s6, s7, s8, s9] }"
    by (simp add: dtp_check_portal_def)
  from False show ?thesis
    unfolding eq
    by (intro looks_bind [OF looks_status] looks_bind [OF looks_check_queue] looks_return)
      (simp add: numeral_eq_Suc)
qed

end

section \<open>The driver on the DTP controller\<close>

text \<open>
  The hardware behind the portal is the controller's request methods.  Every query answers
  the register it names, for the ports the controller has.
\<close>

locale dtp_nic = dtp_portal_hw E bar2io view ctrl_serve
  for E :: "'d portal_env" and bar2io :: nat and view :: "'d \<Rightarrow> dtp_ctrl portal_view"
begin

lemma arg_Cons [simp]: "arg 0 (w # ws) = w" "arg (Suc n) (w # ws) = arg n ws"
  by (simp_all add: arg_def)

lemmas nic_defs = ctrl_method_defs Let_def

lemma looks_callI:
  assumes "\<And>p. attached E bar2io p \<Longrightarrow> view (dev p) = quiet h \<Longrightarrow>
    \<exists>d. run_state m p = (v, p\<lparr>dev := d\<rparr>) \<and> view d = quiet h"
  shows "looks E bar2io view h m (\<lambda>a. a = v)"
  using assms by (fastforce simp: looks_def)

lemma nic_read_version: "looks E bar2io view h (dtp_read_version E) (\<lambda>v. v = version h)"
  by (rule looks_callI, rule read_version_call) (simp_all add: nic_defs)

lemma nic_read_delay:
  assumes "(ucast port :: u8) < 4"
  shows "looks E bar2io view h (dtp_read_delay E port) (\<lambda>v. v = delay_reg h (ucast port))"
  using assms by (intro looks_callI read_delay_call) (simp_all add: nic_defs)

lemma nic_read_state:
  assumes "(ucast port :: u8) < 4"
  shows "looks E bar2io view h (dtp_read_state E port) (\<lambda>v. v = state_reg h (ucast port))"
  using assms by (intro looks_callI read_state_call) (simp_all add: nic_defs)

lemma nic_read_error:
  assumes "(ucast port :: u8) < 4"
  shows "looks E bar2io view h (dtp_read_error E port) (\<lambda>v. v = jumpc_reg h (ucast port))"
  using assms by (intro looks_callI read_error_call) (simp_all add: nic_defs)

lemma nic_read_beacon_interval:
  assumes "(ucast port :: u8) < 4"
  shows "looks E bar2io view h (dtp_read_beacon_interval E port) (\<lambda>v. v = beacon_interval_reg h (ucast port))"
  using assms by (intro looks_callI read_beacon_interval_call) (simp_all add: nic_defs)

lemma nic_read_local_cnt:
  assumes "(ucast port :: u8) < 4"
  shows "looks E bar2io view h (dtp_read_local_cnt E port) (\<lambda>v. v = ucast (clocal_reg h (ucast port)) + 3)"
  using assms by (intro looks_callI read_local_cnt_call) (simp_all add: nic_defs)

lemma nic_read_global_cnt: "looks E bar2io view h (dtp_read_global_cnt E) (\<lambda>v. v = ucast (cglobal_reg h) + 3)"
  by (intro looks_callI read_global_cnt_call) (simp_all add: nic_defs)

lemma nic_read_cnt: "looks E bar2io view h (dtp_read_cnt E port) (\<lambda>v. v = ucast (cycle_reg h))"
  by (intro looks_callI read_cnt_call) (simp_all add: nic_defs)

text \<open>Reading the log takes the oldest message of the port's queue, in order, or reports none.\<close>

lemma nic_read_message:
  assumes "attached E bar2io p" "view (dev p) = quiet h" "(ucast port :: u8) < 4"
  shows "case log_queue h (ucast port) of
      [] \<Rightarrow> \<exists>d. run_state (dtp_read_message E port) p = (None, p\<lparr>dev := d\<rparr>) \<and> view d = quiet h
    | m # q \<Rightarrow> \<exists>d h'. run_state (dtp_read_message E port) p = (Some m, p\<lparr>dev := d\<rparr>) \<and>
        view d = quiet h' \<and> log_queue h' = (log_queue h)(ucast port := q) \<and> same_regs h h' \<and>
        lwrite_data_cycle2 h' = lwrite_data_cycle2 h"
proof (cases "log_queue h (ucast port)")
  case Nil
  then have "ctrl_serve Req_logger_read_cnt [port] h = ([], h)"
    using ctrl_logger_read_cnt_queue [OF assms(3), of h] by simp
  from read_message_empty_call [OF assms(1,2) this] Nil show ?thesis by simp
next
  case (Cons m q)
  obtain t m1 m2 where m: "m = (t, m1, m2)" by (cases m)
  with Cons ctrl_logger_read_cnt_queue [OF assms(3), of h] obtain h' where
    h': "ctrl_serve Req_logger_read_cnt [port] h =
      ([(Ind_logger_read_cnt, [ucast (ucast port :: u8), hi32 t, lo32 t, hi32 m1, lo32 m1,
         hi32 m2, lo32 m2])], h')" "log_queue h' = (log_queue h)(ucast port := q)"
      "same_regs h h'" "lwrite_data_cycle2 h' = lwrite_data_cycle2 h"
    by auto
  from read_message_call [OF assms(1,2) h'(1)] h'(2-4) Cons m show ?thesis by auto
qed

lemma nic_send_message:
  assumes "attached E bar2io p" "view (dev p) = quiet h"
  shows "\<exists>d. run_state (dtp_send_message E port m) p = ((), p\<lparr>dev := d\<rparr>) \<and>
    view d = quiet (snd (ctrl_logger_write_cnt (ucast port) m h))"
  by (rule send_message_call [OF assms]) (simp add: ctrl_logger_write_cnt_def numeral_2_eq_2)

lemma nic_reset:
  assumes "attached E bar2io p" "view (dev p) = quiet h"
  shows "\<exists>d. run_state (dtp_reset E len) p = ((), p\<lparr>dev := d\<rparr>) \<and>
    view d = quiet (snd (ctrl_reset len h))"
  by (rule reset_call [OF assms]) (simp add: ctrl_reset_def Let_def)

lemma nic_set_beacon_interval:
  assumes "attached E bar2io p" "view (dev p) = quiet h"
  shows "\<exists>d. run_state (dtp_set_beacon_interval E port n) p = ((), p\<lparr>dev := d\<rparr>) \<and>
    view d = quiet (snd (ctrl_set_beacon_interval (ucast port) n h))"
  by (rule set_beacon_interval_call [OF assms]) (simp add: ctrl_set_beacon_interval_def)

end

section \<open>A bus on which the contract holds\<close>

text \<open>
  The portal as the driver's header files lay it out: each channel's FIFO at its address,
  the not-empty flag of an indication FIFO in the word after it.  Any layout whose addresses
  do not overlap gives the driver the contract it relies on.
\<close>

record ctrl_dev =
  clk :: u64
  vw :: "dtp_ctrl portal_view"

definition all_reqs :: "dtp_req list" where
  "all_reqs = [Req_read_version, Req_reset, Req_set_cnt, Req_read_delay, Req_read_state,
     Req_read_error, Req_read_cnt, Req_logger_write_cnt, Req_logger_read_cnt,
     Req_read_local_cnt, Req_read_global_cnt, Req_set_beacon_interval,
     Req_read_beacon_interval]"

definition all_inds :: "dtp_ind list" where
  "all_inds = [Ind_read_version, Ind_read_delay, Ind_read_state, Ind_read_error, Ind_read_cnt,
     Ind_logger_read_cnt, Ind_read_local_cnt, Ind_read_global_cnt, Ind_read_beacon_interval]"

definition ctrl_bus_read :: "portal_hdr \<Rightarrow> nat \<Rightarrow> nat \<Rightarrow> ctrl_dev \<Rightarrow> u32 \<times> ctrl_dev" where
  "ctrl_bus_read hdr bar2io a d =
     (case find (\<lambda>i. ind_addr hdr bar2io i = a) all_inds of
        Some i \<Rightarrow> (case pend (vw d) i of [] \<Rightarrow> (0, d)
                    | w # _ \<Rightarrow> (w, d\<lparr>vw := pop_word i (vw d)\<rparr>))
      | None \<Rightarrow> (case find (\<lambda>i. ind_addr hdr bar2io i + 4 = a) all_inds of
                    Some i \<Rightarrow> (if pend (vw d) i = [] then 0 else 1, d)
                  | None \<Rightarrow> (0, d)))"

definition ctrl_bus_write :: "portal_hdr \<Rightarrow> nat \<Rightarrow> nat \<Rightarrow> u32 \<Rightarrow> ctrl_dev \<Rightarrow> ctrl_dev" where
  "ctrl_bus_write hdr bar2io a w d =
     (case find (\<lambda>m. req_addr hdr bar2io m = a) all_reqs of
        Some m \<Rightarrow> d\<lparr>vw := push_word ctrl_serve m w (vw d)\<rparr>
      | None \<Rightarrow> d)"

definition ctrl_bus :: "portal_hdr \<Rightarrow> nat \<Rightarrow> ctrl_dev portal_env" where
  "ctrl_bus hdr bar2io =
     \<lparr>PORTAL_BASE_OFFSET = PORTAL_BASE_OFFSET hdr, PORTAL_FIFO = PORTAL_FIFO hdr,
      PORTAL_CTRL_IND_QUEUE_STATUS = PORTAL_CTRL_IND_QUEUE_STATUS hdr,
      CHAN_NUM_req = CHAN_NUM_req hdr, CHAN_NUM_ind = CHAN_NUM_ind hdr,
      mmio_read = ctrl_bus_read hdr bar2io, mmio_write = ctrl_bus_write hdr bar2io,
      native_read_tsc = (\<lambda>d. (clk d, d\<lparr>clk := clk d + 1\<rparr>))\<rparr>"

lemma ctrl_bus_addr [simp]:
  "req_addr (ctrl_bus hdr bar2io) = req_addr hdr"
  "ind_addr (ctrl_bus hdr bar2io) = ind_addr hdr"
  "status_addr (ctrl_bus hdr bar2io) = status_addr hdr"
  by (simp_all add: fun_eq_iff ctrl_bus_def req_addr_def ind_addr_def status_addr_def
      dtp_mapchannel_def dtp_map_base_def)

lemma ctrl_bus_ops [simp]:
  "mmio_read (ctrl_bus hdr bar2io) = ctrl_bus_read hdr bar2io"
  "mmio_write (ctrl_bus hdr bar2io) = ctrl_bus_write hdr bar2io"
  "native_read_tsc (ctrl_bus hdr bar2io) = (\<lambda>d. (clk d, d\<lparr>clk := clk d + 1\<rparr>))"
  by (simp_all add: ctrl_bus_def)

locale portal_layout =
  fixes hdr :: portal_hdr and bar2io :: nat
  assumes req_inj: "req_addr hdr bar2io m = req_addr hdr bar2io m' \<Longrightarrow> m = m'"
    and ind_inj: "ind_addr hdr bar2io i = ind_addr hdr bar2io i' \<Longrightarrow> i = i'"
    and flag_disj: "ind_addr hdr bar2io i \<noteq> ind_addr hdr bar2io i' + 4"
    and status_disj: "ind_addr hdr bar2io i \<noteq> status_addr hdr bar2io"
begin

lemma req_addr_eq: "req_addr hdr bar2io m = req_addr hdr bar2io m' \<longleftrightarrow> m = m'"
  using req_inj by blast

lemma ind_addr_eq: "ind_addr hdr bar2io i = ind_addr hdr bar2io i' \<longleftrightarrow> i = i'"
  using ind_inj by blast

lemma find_req: "find (\<lambda>m. req_addr hdr bar2io m = req_addr hdr bar2io m') all_reqs = Some m'"
  by (cases m') (simp_all add: all_reqs_def req_addr_eq)

lemma find_ind: "find (\<lambda>i. ind_addr hdr bar2io i = ind_addr hdr bar2io i') all_inds = Some i'"
  by (cases i') (simp_all add: all_inds_def ind_addr_eq)

lemma find_ind_flag:
  "find (\<lambda>i. ind_addr hdr bar2io i = ind_addr hdr bar2io i' + 4) all_inds = None"
  "find (\<lambda>i. ind_addr hdr bar2io i = status_addr hdr bar2io) all_inds = None"
  by (simp_all add: all_inds_def flag_disj status_disj)

lemma find_flag: "find (\<lambda>i. ind_addr hdr bar2io i + 4 = ind_addr hdr bar2io i' + 4) all_inds = Some i'"
  by (simp add: find_ind)

end

sublocale portal_layout \<subseteq> dtp_nic "ctrl_bus hdr bar2io" bar2io vw
  by unfold_locales
    (auto simp: ctrl_bus_read_def ctrl_bus_write_def
      find_req find_ind find_ind_flag find_flag split: list.splits option.splits)

text \<open>
  One layout without overlaps: portals 64 kB apart, a FIFO of eight words per channel, the
  channels numbered in the order of the constructors.
\<close>

definition example_hdr :: portal_hdr where
  "example_hdr =
     \<lparr>PORTAL_BASE_OFFSET = 65536, PORTAL_FIFO = (\<lambda>n. 8 * (n + 1)),
      PORTAL_CTRL_IND_QUEUE_STATUS = 6,
      CHAN_NUM_req = (\<lambda>m. case m of
          Req_read_version \<Rightarrow> 0 | Req_reset \<Rightarrow> 1 | Req_set_cnt \<Rightarrow> 2 | Req_read_delay \<Rightarrow> 3
        | Req_read_state \<Rightarrow> 4 | Req_read_error \<Rightarrow> 5 | Req_read_cnt \<Rightarrow> 6 | Req_logger_write_cnt \<Rightarrow> 7
        | Req_logger_read_cnt \<Rightarrow> 8 | Req_read_local_cnt \<Rightarrow> 9 | Req_read_global_cnt \<Rightarrow> 10
        | Req_set_beacon_interval \<Rightarrow> 11 | Req_read_beacon_interval \<Rightarrow> 12),
      CHAN_NUM_ind = (\<lambda>i. case i of
          Ind_read_version \<Rightarrow> 0 | Ind_read_delay \<Rightarrow> 1 | Ind_read_state \<Rightarrow> 2 | Ind_read_error \<Rightarrow> 3
        | Ind_read_cnt \<Rightarrow> 4 | Ind_logger_read_cnt \<Rightarrow> 5 | Ind_read_local_cnt \<Rightarrow> 6
        | Ind_read_global_cnt \<Rightarrow> 7 | Ind_read_beacon_interval \<Rightarrow> 8)\<rparr>"

lemmas layout_defs =
  req_addr_def ind_addr_def status_addr_def dtp_mapchannel_def dtp_map_base_def
  portal_request_index_def portal_indication_index_def example_hdr_def

interpretation example: portal_layout example_hdr bar2io for bar2io
proof (unfold_locales, goal_cases)
  case (1 m m')
  then show ?case by (auto simp: layout_defs split: dtp_req.splits)
next
  case (2 i i')
  then show ?case by (auto simp: layout_defs split: dtp_ind.splits)
qed (auto simp: layout_defs split: dtp_ind.splits)

lemma example_nic: "dtp_nic (ctrl_bus example_hdr bar2io) bar2io vw"
  by unfold_locales

text \<open>A controller with two messages waiting at port 1, and the driver attached to it.\<close>

definition example_ctrl :: dtp_ctrl where
  "example_ctrl =
     \<lparr>version = 0x20150814, delay_reg = (\<lambda>p. if p = 1 then 25 else 0), state_reg = (\<lambda>p. if p < 2 then 2 else 0),
      jumpc_reg = (\<lambda>p. if p = 1 then 0x100000003 else 0), clocal_reg = (\<lambda>p. 1000 + ucast p),
      cglobal_reg = 0x1FFFFFFFFFFFFF, cycle_reg = 500, beacon_interval_reg = (\<lambda>p. 200),
      lread_data_cycle1 = (\<lambda>p. if p = 1 then [11, 12] else []),
      lread_data_cycle2 = (\<lambda>p. if p = 1 then [21, 22] else []),
      lread_data_timestamp = (\<lambda>p. if p = 1 then [101, 102] else []),
      lwrite_data_cycle1 = [], lwrite_data_cycle2 = [], lwrite_cnt_enq = (\<lambda>p. 0),
      lread_cnt_deq = (\<lambda>p. 0), dtp_rst_cntr = 0\<rparr>"

definition example_env :: "ctrl_dev portal_env" where
  "example_env = ctrl_bus example_hdr 4096"

definition example_portal :: "ctrl_dev portal" where
  "example_portal = dtp_portal_init example_env 4096
     \<lparr>portal_request_base = 0, portal_indication_base = 0, portal_indication_status = 0,
      dev = \<lparr>clk = 7, vw = quiet example_ctrl\<rparr>\<rparr>"

lemma example_env_nic: "dtp_nic example_env 4096 vw"
  unfolding example_env_def by (rule example_nic)

lemma example_attached:
  "attached example_env 4096 example_portal" "vw (dev example_portal) = quiet example_ctrl"
  by (simp_all add: example_portal_def attached_init) (simp add: dtp_portal_init_def Let_def)

section \<open>What the driver's calls do\<close>

text \<open>
  C3. On a portal with no message half written and no indication left, every query of the
  driver returns the controller register it names (for the four ports the controller has),
  64-bit registers reassembled from their two halves, and leaves the portal as it found it.
\<close>

theorem portal_queries_read_registers:
  assumes "dtp_nic E bar2io view" "(ucast port :: u8) < 4"
  shows "looks E bar2io view h (dtp_read_version E) (\<lambda>v. v = version h) \<and>
    looks E bar2io view h (dtp_read_delay E port) (\<lambda>v. v = delay_reg h (ucast port)) \<and>
    looks E bar2io view h (dtp_read_state E port) (\<lambda>v. v = state_reg h (ucast port)) \<and>
    looks E bar2io view h (dtp_read_error E port) (\<lambda>v. v = jumpc_reg h (ucast port)) \<and>
    looks E bar2io view h (dtp_read_cnt E port) (\<lambda>v. v = ucast (cycle_reg h)) \<and>
    looks E bar2io view h (dtp_read_local_cnt E port) (\<lambda>v. v = ucast (clocal_reg h (ucast port)) + 3) \<and>
    looks E bar2io view h (dtp_read_global_cnt E) (\<lambda>v. v = ucast (cglobal_reg h) + 3) \<and>
    looks E bar2io view h (dtp_read_beacon_interval E port) (\<lambda>v. v = beacon_interval_reg h (ucast port))"
  using dtp_nic.nic_read_version [OF assms(1)] dtp_nic.nic_read_delay [OF assms]
    dtp_nic.nic_read_state [OF assms] dtp_nic.nic_read_error [OF assms]
    dtp_nic.nic_read_cnt [OF assms(1)] dtp_nic.nic_read_local_cnt [OF assms]
    dtp_nic.nic_read_global_cnt [OF assms(1)] dtp_nic.nic_read_beacon_interval [OF assms]
  by blast

theorem portal_queries_read_registers_witness:
  "fst (run_state (dtp_read_error example_env 1) example_portal) = 0x100000003 \<and>
   fst (run_state (dtp_read_global_cnt example_env) example_portal) = 0x20000000000002 \<and>
   looks example_env 4096 vw example_ctrl (dtp_read_delay example_env 1) (\<lambda>v. v = 25)"
proof -
  have "(ucast (1 :: u32) :: u8) < 4" by simp
  from portal_queries_read_registers [OF example_env_nic this, of example_ctrl]
  have q: "looks example_env 4096 vw example_ctrl (dtp_read_error example_env 1) (\<lambda>v. v = 0x100000003)"
    "looks example_env 4096 vw example_ctrl (dtp_read_global_cnt example_env) (\<lambda>v. v = 0x20000000000002)"
    "looks example_env 4096 vw example_ctrl (dtp_read_delay example_env 1) (\<lambda>v. v = 25)"
    by (simp_all add: example_ctrl_def)
  with example_attached show ?thesis by (auto elim!: looksE)
qed

text \<open>
  C4. Reading the log of a port is a queue read: an empty queue gives the error result and
  changes nothing, otherwise the oldest message is returned with its timestamp and both
  words and is the one removed; other ports' queues and all registers stay.
\<close>

theorem read_message_takes_oldest:
  assumes "dtp_nic E bar2io view" "attached E bar2io p" "view (dev p) = quiet h"
    and "(ucast port :: u8) < 4"
  shows "case log_queue h (ucast port) of
      [] \<Rightarrow> \<exists>d. run_state (dtp_read_message E port) p = (None, p\<lparr>dev := d\<rparr>) \<and> view d = quiet h
    | m # q \<Rightarrow> \<exists>d h'. run_state (dtp_read_message E port) p = (Some m, p\<lparr>dev := d\<rparr>) \<and>
        view d = quiet h' \<and> log_queue h' = (log_queue h)(ucast port := q) \<and> same_regs h h' \<and>
        lwrite_data_cycle2 h' = lwrite_data_cycle2 h"
  using dtp_nic.nic_read_message [OF assms] .

theorem read_message_takes_oldest_witness:
  "\<exists>d h'. run_state (dtp_read_message example_env 1) example_portal =
      (Some (101, 11, 21), example_portal\<lparr>dev := d\<rparr>) \<and>
    vw d = quiet h' \<and> log_queue h' 1 = [(102, 12, 22)]"
proof -
  have "(ucast (1 :: u32) :: u8) < 4" by simp
  moreover have "log_queue example_ctrl 1 = [(101, 11, 21), (102, 12, 22)]"
    by (simp add: example_ctrl_def log_queue_def)
  ultimately show ?thesis
    using read_message_takes_oldest [OF example_env_nic example_attached, of 1] by fastforce
qed

text \<open>
  C5. A beacon interval that is set is the one read back, for the port it was set for;
  every other port keeps its interval, and sending a log message appends it to the
  controller's write queue behind the messages already there.
\<close>

theorem beacon_interval_and_messages_reach_controller:
  assumes "dtp_nic E bar2io view" "attached E bar2io p" "view (dev p) = quiet h"
    and "(ucast port :: u8) < 4"
  shows "fst (run_state (do { dtp_set_beacon_interval E port n; dtp_read_beacon_interval E port }) p) = n \<and>
    (\<forall>port'. (ucast port' :: u8) < 4 \<longrightarrow> (ucast port' :: u8) \<noteq> ucast port \<longrightarrow>
      fst (run_state (do { dtp_set_beacon_interval E port n; dtp_read_beacon_interval E port' }) p) =
        beacon_interval_reg h (ucast port')) \<and>
    (\<exists>d h'. run_state (dtp_send_message E port m) p = ((), p\<lparr>dev := d\<rparr>) \<and> view d = quiet h' \<and>
      lwrite_data_cycle2 h' = lwrite_data_cycle2 h @ [(ucast port, m)] \<and> same_regs h h')"
proof -
  let ?h = "snd (ctrl_set_beacon_interval (ucast port) n h)"
  from dtp_nic.nic_set_beacon_interval [OF assms(1-3), of port n] obtain d where
    set: "run_state (dtp_set_beacon_interval E port n) p = ((), p\<lparr>dev := d\<rparr>)" "view d = quiet ?h"
    by blast
  have at: "attached E bar2io (p\<lparr>dev := d\<rparr>)" "view (dev (p\<lparr>dev := d\<rparr>)) = quiet ?h"
    using assms(2) set(2) by simp_all
  have rd: "fst (run_state (dtp_read_beacon_interval E q) (p\<lparr>dev := d\<rparr>)) = beacon_interval_reg ?h (ucast q)"
    if "(ucast q :: u8) < 4" for q
    using looksE [OF dtp_nic.nic_read_beacon_interval [OF assms(1) that] at] by (metis fst_conv)
  have "beacon_interval_reg ?h = (beacon_interval_reg h)(ucast port := n)"
    using assms(4) by (simp add: ctrl_set_beacon_interval_def)
  moreover from dtp_nic.nic_send_message [OF assms(1-3)] assms(4)
  have "\<exists>d h'. run_state (dtp_send_message E port m) p = ((), p\<lparr>dev := d\<rparr>) \<and> view d = quiet h' \<and>
      lwrite_data_cycle2 h' = lwrite_data_cycle2 h @ [(ucast port, m)] \<and> same_regs h h'"
    by (metis ctrl_logger_write_cnt_queue(2) ctrl_logger_write_cnt_sent)
  ultimately show ?thesis using rd assms(4) by (simp add: monad_run set(1))
qed

theorem beacon_interval_and_messages_reach_controller_witness:
  "fst (run_state (do { dtp_set_beacon_interval example_env 1 77; dtp_read_beacon_interval example_env 1 })
     example_portal) = 77 \<and>
   fst (run_state (do { dtp_set_beacon_interval example_env 1 77; dtp_read_beacon_interval example_env 3 })
     example_portal) = 200 \<and>
   (\<exists>d h'. run_state (dtp_send_message example_env 1 9) example_portal =
      ((), example_portal\<lparr>dev := d\<rparr>) \<and> vw d = quiet h' \<and> lwrite_data_cycle2 h' = [(1, 9)])"
proof -
  have "(ucast (1 :: u32) :: u8) < 4" by simp
  note reach = beacon_interval_and_messages_reach_controller [OF example_env_nic example_attached this]
  have "fst (run_state (do { dtp_set_beacon_interval example_env 1 77; dtp_read_beacon_interval example_env 3 })
     example_portal) = beacon_interval_reg example_ctrl (ucast (3 :: u32))"
    using reach [of 77] by simp
  moreover have "lwrite_data_cycle2 example_ctrl = []" by (simp add: example_ctrl_def)
  ultimately show ?thesis using reach [of 77 9] by (auto simp: example_ctrl_def)
qed

end
