(* ===== verification/C_Text.thy ===== *)
theory C_Text
  imports Sonic_Prelude
begin

text \<open>
  The C library's number formats as the sources use them: decimal printing (\<^verbatim>\<open>%d\<close>,
  \<^verbatim>\<open>%u\<close>), hexadecimal printing (\<^verbatim>\<open>%x\<close>, \<^verbatim>\<open>%lx\<close>), sixteen-digit hexadecimal printing (\<^verbatim>\<open>%.16llx\<close>, \<^verbatim>\<open>%016llx\<close>), and the
  scanners behind \<^verbatim>\<open>sscanf("%u")\<close>, \<^verbatim>\<open>atoi\<close>, \<^verbatim>\<open>strtol\<close> and \<^verbatim>\<open>strtoul\<close> with base zero.
  Strings are lists of characters without the terminating zero.
\<close>

section \<open>Printing\<close>

definition digit_char :: "nat \<Rightarrow> char" where
  "digit_char n = (if n < 10 then char_of (48 + n) else char_of (87 + n))"

fun show_nat :: "nat \<Rightarrow> string" where
  "show_nat n = (if n < 10 then [digit_char n] else show_nat (n div 10) @ [digit_char (n mod 10)])"

declare show_nat.simps [simp del]

definition show_int :: "int \<Rightarrow> string" where
  "show_int i = (if i < 0 then CHR ''-'' # show_nat (nat (- i)) else show_nat (nat i))"

definition hex16 :: "u64 \<Rightarrow> string" where
  "hex16 v = map (\<lambda>i. digit_char (unat (drop_bit (4 * i) v AND 15))) (rev [0..<16])"

fun show_hex :: "nat \<Rightarrow> string" where
  "show_hex n = (if n < 16 then [digit_char n] else show_hex (n div 16) @ [digit_char (n mod 16)])"

declare show_hex.simps [simp del]

section \<open>Scanning\<close>

definition is_space :: "char \<Rightarrow> bool" where
  "is_space c \<longleftrightarrow> (of_char c :: nat) = 32 \<or> 9 \<le> (of_char c :: nat) \<and> (of_char c :: nat) \<le> 13"

text \<open>The value of a character as a digit, sixteen when it is none.\<close>

definition digit_val :: "char \<Rightarrow> nat" where
  "digit_val c =
     (let n = (of_char c :: nat)
      in if 48 \<le> n \<and> n \<le> 57 then n - 48
         else if 97 \<le> n \<and> n \<le> 102 then n - 87
         else if 65 \<le> n \<and> n \<le> 70 then n - 55 else 16)"

definition scan_base :: "nat \<Rightarrow> string \<Rightarrow> nat" where
  "scan_base b s = foldl (\<lambda>n c. n * b + digit_val c) 0 (takeWhile (\<lambda>c. digit_val c < b) s)"

text \<open>\<^verbatim>\<open>atoi\<close>: leading spaces, an optional sign, decimal digits, zero without digits.\<close>

definition atoi :: "string \<Rightarrow> int" where
  "atoi s = (case dropWhile is_space s of
       [] \<Rightarrow> 0
     | c # cs \<Rightarrow> if c = CHR ''-'' then - int (scan_base 10 cs)
                else if c = CHR ''+'' then int (scan_base 10 cs) else int (scan_base 10 (c # cs)))"

text \<open>
  \<^verbatim>\<open>sscanf(p, "%u", &tmp)\<close> of the Linux kernel: leading spaces are skipped, no sign is
  accepted, and the value is stored modulo $2^{32}$; \<open>None\<close> when no digit follows.
\<close>

definition sscanf_u :: "string \<Rightarrow> u32 option" where
  "sscanf_u p =
     (let s = dropWhile is_space p
      in case s of [] \<Rightarrow> None
         | c # _ \<Rightarrow> if digit_val c < 10 then Some (of_nat (scan_base 10 s)) else None)"

text \<open>
  \<^verbatim>\<open>strtoul(s, &end, 0)\<close>: leading spaces, an optional sign, then hexadecimal digits after
  \<^verbatim>\<open>0x\<close>, octal digits after \<^verbatim>\<open>0\<close>, decimal digits otherwise.  A value that does not fit gives
  the largest one; a minus sign negates modulo $2^{64}$.  The second component is the text
  after the number, all of it when there is no number.
\<close>

definition scan_digits :: "nat \<Rightarrow> string \<Rightarrow> (nat \<times> string) option" where
  "scan_digits b s =
     (let ds = takeWhile (\<lambda>c. digit_val c < b) s
      in if ds = [] then None else Some (scan_base b s, drop (length ds) s))"

definition scan_unsigned :: "string \<Rightarrow> (nat \<times> string) option" where
  "scan_unsigned s =
     (if take 2 s \<in> {''0x'', ''0X''} \<and> scan_digits 16 (drop 2 s) \<noteq> None then scan_digits 16 (drop 2 s)
      else if take 1 s = ''0'' then scan_digits 8 s
      else scan_digits 10 s)"

definition strtoul :: "string \<Rightarrow> u64 \<times> string" where
  "strtoul p =
     (let s = dropWhile is_space p;
          neg = (take 1 s = ''-'');
          s = (if take 1 s \<in> {''-'', ''+''} then drop 1 s else s)
      in case scan_unsigned s of
           None \<Rightarrow> (0, p)
         | Some (n, rest) \<Rightarrow>
             (if n \<ge> 2 ^ 64 then - 1 else if neg then - of_nat n else of_nat n, rest))"

section \<open>Facts\<close>

lemma digit_val_char: "n < 16 \<Longrightarrow> digit_val (digit_char n) = n"
  by (auto simp: digit_val_def digit_char_def Let_def)

lemma digit_val_dec: "n < 10 \<Longrightarrow> digit_val (digit_char n) = n"
  by (rule digit_val_char) simp

lemma show_nat_ne [simp]: "show_nat n \<noteq> []"
  by (subst show_nat.simps) simp

lemma show_nat_digits: "c \<in> set (show_nat n) \<Longrightarrow> digit_val c < 10"
proof (induction n rule: show_nat.induct)
  case (1 n)
  show ?case
  proof (cases "n < 10")
    case True
    with 1 show ?thesis by (subst (asm) show_nat.simps) (simp add: digit_val_dec)
  next
    case False
    with "1.prems" have "c \<in> set (show_nat (n div 10)) \<or> c = digit_char (n mod 10)"
      by (subst (asm) show_nat.simps) auto
    with "1.IH" [OF False] show ?thesis by (auto simp: digit_val_dec)
  qed
qed

lemma foldl_show_nat: "foldl (\<lambda>n c. n * 10 + digit_val c) 0 (show_nat n) = n"
proof (induction n rule: show_nat.induct)
  case (1 n)
  show ?case
  proof (cases "n < 10")
    case True
    then show ?thesis by (subst show_nat.simps) (simp add: digit_val_dec)
  next
    case False
    with "1.IH" show ?thesis by (subst show_nat.simps) (simp add: digit_val_dec)
  qed
qed

lemma scan_show_nat:
  assumes "\<And>c cs. rest = c # cs \<Longrightarrow> \<not> digit_val c < 10"
  shows "scan_base 10 (show_nat n @ rest) = n"
proof -
  have "takeWhile (\<lambda>c. digit_val c < 10) (show_nat n @ rest) = show_nat n"
    using assms by (cases rest) (auto simp: takeWhile_append2 show_nat_digits)
  then show ?thesis by (simp add: scan_base_def foldl_show_nat)
qed

lemma digit_not_space: "digit_val c < 10 \<Longrightarrow> \<not> is_space c"
  by (auto simp: digit_val_def is_space_def Let_def split: if_splits)

lemma dropWhile_show_nat: "dropWhile is_space (show_nat n @ rest) = show_nat n @ rest"
proof (cases "show_nat n")
  case (Cons c cs)
  then have "\<not> is_space c" using show_nat_digits [of c n] digit_not_space by simp
  with Cons show ?thesis by simp
qed simp

lemma sscanf_u_show_nat:
  assumes "\<And>c cs. rest = c # cs \<Longrightarrow> \<not> digit_val c < 10"
  shows "sscanf_u (show_nat n @ rest) = Some (of_nat n)"
proof -
  obtain c cs where c: "show_nat n = c # cs" by (cases "show_nat n") auto
  have "scan_base 10 (show_nat n @ rest) = n"
    by (rule scan_show_nat) (use assms in blast)
  moreover have "digit_val c < 10" using show_nat_digits [of c n] c by simp
  ultimately show ?thesis
    using dropWhile_show_nat [of n rest] c by (simp add: sscanf_u_def)
qed

lemma sscanf_u_None: "sscanf_u [] = None"
  by (simp add: sscanf_u_def)

text \<open>Sixteen hexadecimal digits name a 64-bit value uniquely.\<close>

lemma length_hex16 [simp]: "length (hex16 v) = 16"
  by (simp add: hex16_def)

lemma hex16_inject: "hex16 v = hex16 w \<longleftrightarrow> v = w"
proof
  assume eq: "hex16 v = hex16 w"
  have nib: "drop_bit (4 * i) v AND 15 = drop_bit (4 * i) w AND 15" if "i < 16" for i
  proof -
    have lt: "unat (x AND 15) < 16" for x :: u64
      using word_and_le1 [of x 15] by (simp add: word_le_nat_alt)
    from eq that have "digit_char (unat (drop_bit (4 * i) v AND 15)) =
        digit_char (unat (drop_bit (4 * i) w AND 15))"
      by (auto simp: hex16_def)
    then have "unat (drop_bit (4 * i) v AND 15) = unat (drop_bit (4 * i) w AND 15)"
      using digit_val_char [OF lt] by metis
    then show ?thesis by (simp only: word_unat_eq_iff)
  qed
  show "v = w"
  proof (rule bit_word_eqI)
    fix n assume "n < LENGTH(64)"
    then have "n div 4 < 16" by simp
    from nib [OF this] have "bit (drop_bit (4 * (n div 4)) v AND 15) (n mod 4) =
        bit (drop_bit (4 * (n div 4)) w AND 15) (n mod 4)" by simp
    moreover have "4 * (n div 4) + n mod 4 = n" by simp
    moreover have "bit (15 :: u64) (n mod 4)"
    proof -
      have "n mod 4 \<in> {0, 1, 2, 3}" by auto
      then show ?thesis by (auto simp: bit_numeral_simps)
    qed
    ultimately show "bit v n = bit w n" by (simp add: bit_and_iff bit_drop_bit_eq)
  qed
qed simp

end
