(* ===== verification/Dtp_Daemon.thy ===== *)
theory Dtp_Daemon
  imports Dtp_Portal C_Text
begin

text \<open>
  The DTP daemon of the kernel module (\<^verbatim>\<open>src/sw/daemon/kernel.c\<close> with the structures of
  \<^verbatim>\<open>src/sw/daemon/dtp.h\<close>): the once-a-second polling loop, the page it shares with user
  space, the module parameters, and the \<^verbatim>\<open>/proc\<close> and character-device handlers.  C arrays are
  lists of the array's length; \<open>wf_kernel\<close> fixes the lengths.  Scheduling, interrupt masking
  and messages printed to the kernel log change none of this state and are not modelled.
\<close>

section \<open>Data\<close>

definition DTP_PORT_NUM :: nat where "DTP_PORT_NUM = 4"

record dtp_log =
  log_port :: int
  log_timestamp :: u64
  log_msg1 :: u64
  log_msg2 :: u64

record dtp_cnt =
  tsc1 :: u64
  tsc2 :: u64
  low :: u64
  high :: u64

text \<open>
  A store to the shared page, by the field it writes.  User space sees the page after every single
  store, so the page carries the stores made to it, oldest first; \<open>stores\<close> is no field of the C structure.
\<close>

datatype page_store =
    St_flag u32 | St_log_cnt int | St_tsc1 nat u64 | St_tsc2 nat u64 | St_low nat u64
  | St_port nat int | St_timestamp nat u64 | St_msg1 nat u64 | St_msg2 nat u64

record dtp_time =
  flag :: u32
  reserved :: u32
  rate :: u32
  dtp_cnts :: "dtp_cnt list"
  log_cnt :: int
  log_max :: int
  log_entries :: "dtp_log list"
  stores :: "page_store list"

record dtp_state =
  st_msg_cnt :: u32
  st_state :: u32
  st_delay :: u32
  st_beacon_interval :: u32
  st_error :: u64
  st_local_cnt :: u64
  st_free_cnt :: u64

record dtp_priv =
  pv_mode :: int
  pv_polling_interval :: int
  pv_logging :: "int list"
  pv_sending :: "int list"
  pv_counter :: "int list"
  pv_global_cnt :: u64
  pv_states :: "dtp_state list"

text \<open>\<^verbatim>\<open>enum {INIT, SENT, SYNC}\<close>\<close>

definition INIT :: u32 where "INIT = 0"
definition SENT :: u32 where "SENT = 1"
definition SYNC :: u32 where "SYNC = 2"

text \<open>The module's globals: parameters, the private structure, the shared page, the portal.\<close>

record 'd kernel =
  mode :: int
  logging :: "int list"
  sending :: "int list"
  counter :: "int list"
  dtp_verbose :: int
  ref_count :: int
  dtp :: dtp_priv
  dtp_time :: dtp_time
  portal :: "'d portal"

definition wf_kernel :: "'d kernel \<Rightarrow> bool" where
  "wf_kernel k \<longleftrightarrow>
     length (logging k) = DTP_PORT_NUM \<and> length (sending k) = DTP_PORT_NUM \<and>
     length (counter k) = DTP_PORT_NUM + 1 \<and>
     length (pv_logging (dtp k)) = DTP_PORT_NUM \<and> length (pv_sending (dtp k)) = DTP_PORT_NUM \<and>
     length (pv_counter (dtp k)) = DTP_PORT_NUM + 1 \<and>
     length (pv_states (dtp k)) = DTP_PORT_NUM \<and>
     length (dtp_cnts (dtp_time k)) = DTP_PORT_NUM + 1 \<and>
     0 \<le> log_cnt (dtp_time k) \<and> log_cnt (dtp_time k) \<le> log_max (dtp_time k) \<and>
     log_max (dtp_time k) = int (length (log_entries (dtp_time k)))"

section \<open>The shared page\<close>

definition on_cnt :: "nat \<Rightarrow> (dtp_cnt \<Rightarrow> dtp_cnt) \<Rightarrow> dtp_time \<Rightarrow> dtp_time" where
  "on_cnt i f t = t\<lparr>dtp_cnts := (dtp_cnts t)[i := f (dtp_cnts t ! i)]\<rparr>"

definition on_log :: "nat \<Rightarrow> (dtp_log \<Rightarrow> dtp_log) \<Rightarrow> dtp_time \<Rightarrow> dtp_time" where
  "on_log i f t = t\<lparr>log_entries := (log_entries t)[i := f (log_entries t ! i)]\<rparr>"

fun store_effect :: "page_store \<Rightarrow> dtp_time \<Rightarrow> dtp_time" where
  "store_effect (St_flag v) t = t\<lparr>flag := v\<rparr>"
| "store_effect (St_log_cnt n) t = t\<lparr>log_cnt := n\<rparr>"
| "store_effect (St_tsc1 i v) t = on_cnt i (tsc1_update (\<lambda>_. v)) t"
| "store_effect (St_tsc2 i v) t = on_cnt i (tsc2_update (\<lambda>_. v)) t"
| "store_effect (St_low i v) t = on_cnt i (low_update (\<lambda>_. v)) t"
| "store_effect (St_port i v) t = on_log i (log_port_update (\<lambda>_. v)) t"
| "store_effect (St_timestamp i v) t = on_log i (log_timestamp_update (\<lambda>_. v)) t"
| "store_effect (St_msg1 i v) t = on_log i (log_msg1_update (\<lambda>_. v)) t"
| "store_effect (St_msg2 i v) t = on_log i (log_msg2_update (\<lambda>_. v)) t"

definition store :: "page_store \<Rightarrow> dtp_time \<Rightarrow> dtp_time" where
  "store st t = (store_effect st t)\<lparr>stores := stores t @ [st]\<rparr>"

text \<open>The stores of one inserted entry: the four fields of the target, then the count.\<close>

definition insert_stores :: "dtp_log \<Rightarrow> dtp_time \<Rightarrow> page_store list" where
  "insert_stores log t =
     (if log_cnt t \<ge> log_max t then []
      else let i = nat (log_cnt t)
           in [St_port i (log_port log), St_timestamp i (log_timestamp log), St_msg1 i (log_msg1 log),
               St_msg2 i (log_msg2 log), St_log_cnt (log_cnt t + 1)])"

definition dtp_insert_log :: "dtp_log \<Rightarrow> dtp_time \<Rightarrow> dtp_time" where
  "dtp_insert_log log t = fold store (insert_stores log t) t"

definition read_tsc :: "'d portal_env \<Rightarrow> ('d portal, u64) state" where
  "read_tsc E = State (\<lambda>p. let (v, d) = native_read_tsc E (dev p) in (v, p\<lparr>dev := d\<rparr>))"

definition dtp_read_cnt_tsc :: "'d portal_env \<Rightarrow> int \<Rightarrow> 'd kernel \<Rightarrow> 'd kernel" where
  "dtp_read_cnt_tsc E port k =
     (let ((ret, dtp, ret2), p) = run_state
            (do { ret \<leftarrow> read_tsc E;
                  dtp \<leftarrow> (if port = int DTP_PORT_NUM then dtp_read_global_cnt E
                          else if port \<ge> 0 then dtp_read_local_cnt E (of_int port)
                          else State_Monad.return 0);
                  ret2 \<leftarrow> read_tsc E;
                  State_Monad.return (ret, dtp, ret2) }) (portal k);
          i = nat port
      in k\<lparr>portal := p,
           dtp_time := fold store [St_tsc1 i ret, St_tsc2 i ret2, St_low i dtp] (dtp_time k)\<rparr>)"

section \<open>Log messages\<close>

definition send_log_port :: "'d portal_env \<Rightarrow> nat \<Rightarrow> 'd kernel \<Rightarrow> 'd kernel" where
  "send_log_port E i k =
     (let st = pv_states (dtp k) ! i
      in if pv_sending (dtp k) ! i \<noteq> 0 \<and> st_state st = SYNC
         then let (_, p) = run_state (dtp_send_message E (of_nat i) (ucast (st_msg_cnt st))) (portal k)
              in k\<lparr>portal := p,
                   dtp := (dtp k)\<lparr>pv_states := (pv_states (dtp k))[i := st\<lparr>st_msg_cnt := st_msg_cnt st + 1\<rparr>]\<rparr>\<rparr>
         else k)"

definition dtp_send_log :: "'d portal_env \<Rightarrow> 'd kernel \<Rightarrow> 'd kernel" where
  "dtp_send_log E k = fold (send_log_port E) [0..<DTP_PORT_NUM] k"

text \<open>
  The inner loop of \<^verbatim>\<open>dtp_recv_log\<close> ends when the portal reports an empty queue: a loop that
  need not end on a device that always has a message, so its value is an option.
\<close>

partial_function (option) recv_log_loop ::
  "'d portal_env \<Rightarrow> nat \<Rightarrow> 'd portal \<Rightarrow> dtp_time \<Rightarrow> ('d portal \<times> dtp_time) option" where
  "recv_log_loop E i p t =
     (case run_state (dtp_read_message E (of_nat i)) p of
        (None, p') \<Rightarrow> Some (p', t)
      | (Some (ts, msg1, msg2), p') \<Rightarrow>
          recv_log_loop E i p'
            (dtp_insert_log \<lparr>log_port = int i, log_timestamp = ts, log_msg1 = msg1, log_msg2 = msg2\<rparr> t))"

definition recv_log_port :: "'d portal_env \<Rightarrow> nat \<Rightarrow> 'd kernel \<Rightarrow> 'd kernel option" where
  "recv_log_port E i k =
     (if pv_logging (dtp k) ! i \<noteq> 0 \<and> st_state (pv_states (dtp k) ! i) = SYNC
      then map_option (\<lambda>(p, t). k\<lparr>portal := p, dtp_time := t\<rparr>)
             (recv_log_loop E i (portal k) (dtp_time k))
      else Some k)"

fun recv_log_ports :: "'d portal_env \<Rightarrow> nat list \<Rightarrow> 'd kernel \<Rightarrow> 'd kernel option" where
  "recv_log_ports E [] k = Some k"
| "recv_log_ports E (i # is) k = Option.bind (recv_log_port E i k) (recv_log_ports E is)"

definition dtp_recv_log :: "'d portal_env \<Rightarrow> 'd kernel \<Rightarrow> 'd kernel option" where
  "dtp_recv_log E k = recv_log_ports E [0..<DTP_PORT_NUM] k"

section \<open>Parameters and states\<close>

definition dtp_update_configs :: "'d kernel \<Rightarrow> 'd kernel" where
  "dtp_update_configs k =
     (let k = (if mode k \<noteq> pv_mode (dtp k) then k\<lparr>dtp := (dtp k)\<lparr>pv_mode := mode k\<rparr>\<rparr> else k)
      in fold (\<lambda>i k. k\<lparr>dtp := (dtp k)\<lparr>
             pv_logging := (pv_logging (dtp k))[i := logging k ! i],
             pv_sending := (pv_sending (dtp k))[i := sending k ! i],
             pv_counter := (pv_counter (dtp k))[i := counter k ! i]\<rparr>\<rparr>) [0..<DTP_PORT_NUM] k)"

definition update_state_port :: "'d portal_env \<Rightarrow> nat \<Rightarrow> 'd kernel \<Rightarrow> 'd kernel" where
  "update_state_port E i k =
     (let ((s, dl, er, bi, lc, fc), p) = run_state
            (do { s \<leftarrow> dtp_read_state E (of_nat i);
                  dl \<leftarrow> dtp_read_delay E (of_nat i);
                  er \<leftarrow> dtp_read_error E (of_nat i);
                  bi \<leftarrow> dtp_read_beacon_interval E (of_nat i);
                  lc \<leftarrow> dtp_read_local_cnt E (of_nat i);
                  fc \<leftarrow> dtp_read_cnt E (of_nat i);
                  State_Monad.return (s, dl, er, bi, lc, fc) }) (portal k)
      in k\<lparr>portal := p,
           dtp := (dtp k)\<lparr>pv_states := (pv_states (dtp k))[i := (pv_states (dtp k) ! i)
             \<lparr>st_state := s, st_delay := dl, st_error := er, st_beacon_interval := bi,
              st_local_cnt := lc, st_free_cnt := fc\<rparr>]\<rparr>\<rparr>)"

definition dtp_update_states :: "'d portal_env \<Rightarrow> 'd kernel \<Rightarrow> 'd kernel" where
  "dtp_update_states E k =
     (let k = fold (update_state_port E) [0..<DTP_PORT_NUM] k;
          (tmp, p) = run_state (dtp_read_global_cnt E) (portal k)
      in k\<lparr>portal := p, dtp := (dtp k)\<lparr>pv_global_cnt := tmp\<rparr>\<rparr>)"

section \<open>The polling loop\<close>

text \<open>One turn of the loop up to the sleep; \<open>None\<close> when the receive loop does not end.\<close>

definition daemon_turn :: "'d portal_env \<Rightarrow> 'd kernel \<Rightarrow> 'd kernel option" where
  "daemon_turn E k =
     (if pv_mode (dtp k) = 0 then Some k
      else
        let k = k\<lparr>dtp_time := store (St_flag 1) (dtp_time k)\<rparr>;
            k = k\<lparr>dtp_time := store (St_log_cnt 0) (dtp_time k)\<rparr>;
            k = fold (\<lambda>i k. if pv_counter (dtp k) ! i \<noteq> 0 then dtp_read_cnt_tsc E (int i) k else k)
                  [0..<DTP_PORT_NUM + 1] k;
            k = dtp_send_log E k
        in case dtp_recv_log E k of
             None \<Rightarrow> None
           | Some k \<Rightarrow>
               let k = k\<lparr>dtp_time := store (St_flag 0) (dtp_time k)\<rparr>;
                   k = dtp_update_configs k;
                   k = dtp_update_states E k;
                   (_, p) = run_state (dtp_check_portal E (dtp_verbose k)) (portal k)
               in Some (k\<lparr>portal := p\<rparr>))"

text \<open>
  The thread: what happens while it sleeps (other threads' handlers, the hardware) is given
  for each turn, with the answer of \<^verbatim>\<open>kthread_should_stop\<close>; \<open>None\<close> when it never stopped.
\<close>

fun run_dtp_daemon ::
  "'d portal_env \<Rightarrow> (('d kernel \<Rightarrow> 'd kernel) \<times> bool) list \<Rightarrow> 'd kernel \<Rightarrow> 'd kernel option" where
  "run_dtp_daemon E [] k = None"
| "run_dtp_daemon E ((sleep, should_stop) # rest) k =
     (case daemon_turn E k of
        None \<Rightarrow> None
      | Some k \<Rightarrow> let k = sleep k in if should_stop then Some k else run_dtp_daemon E rest k)"

section \<open>The page's log as a bounded buffer\<close>

text \<open>
  The contract user space relies on: the log holds what was inserted, in order, and drops
  what does not fit.
\<close>

locale bounded_log =
  fixes insert :: "'e \<Rightarrow> 't \<Rightarrow> 't"
    and content :: "'t \<Rightarrow> 'e list"
    and cap :: "'t \<Rightarrow> nat"
    and inv :: "'t \<Rightarrow> bool"
  assumes insert_content: "inv t \<Longrightarrow> content (insert x t) = take (cap t) (content t @ [x])"
    and insert_cap: "cap (insert x t) = cap t"
    and insert_inv: "inv t \<Longrightarrow> inv (insert x t)"
    and content_bound: "inv t \<Longrightarrow> length (content t) \<le> cap t"
begin

lemma fold_insert:
  assumes "inv t"
  shows "content (fold insert xs t) = take (cap t) (content t @ xs) \<and>
    cap (fold insert xs t) = cap t \<and> inv (fold insert xs t)"
  using assms
proof (induction xs arbitrary: t)
  case Nil
  then show ?case using content_bound by simp
next
  case (Cons x xs)
  from Cons.IH [OF insert_inv [OF Cons.prems, of x]] content_bound [OF Cons.prems]
  show ?case
    by (cases "length (content t) < cap t")
      (simp_all add: insert_content [OF Cons.prems] insert_cap)
qed

end

definition page_log :: "dtp_time \<Rightarrow> dtp_log list" where
  "page_log t = take (nat (log_cnt t)) (log_entries t)"

definition wf_page :: "dtp_time \<Rightarrow> bool" where
  "wf_page t \<longleftrightarrow> length (dtp_cnts t) = DTP_PORT_NUM + 1 \<and> 0 \<le> log_cnt t \<and>
     log_cnt t \<le> log_max t \<and> log_max t = int (length (log_entries t))"

lemma whole_log:
  "x\<lparr>log_port := log_port l, log_timestamp := log_timestamp l, log_msg1 := log_msg1 l, log_msg2 := log_msg2 l\<rparr> = (l :: dtp_log)"
  by simp

lemma insert_log_eq:
  "dtp_insert_log log t = (if log_cnt t \<ge> log_max t then t
     else t\<lparr>log_cnt := log_cnt t + 1, stores := stores t @ insert_stores log t,
       log_entries := (log_entries t)[nat (log_cnt t) := log]\<rparr>)"
proof (cases "nat (log_cnt t) < length (log_entries t)")
  case True
  then show ?thesis
    by (simp add: dtp_insert_log_def insert_stores_def store_def on_log_def Let_def whole_log del: dtp_log.update_convs)
next
  case False
  then show ?thesis by (simp add: dtp_insert_log_def insert_stores_def store_def on_log_def Let_def list_update_beyond)
qed

lemma take_update_append:
  "n < length xs \<Longrightarrow> take (Suc n) (xs[n := x]) = take n xs @ [x]"
  by (simp add: take_Suc_conv_app_nth)

interpretation pagelog: bounded_log dtp_insert_log page_log "\<lambda>t. length (log_entries t)" wf_page
proof (unfold_locales, goal_cases)
  case (1 t x)
  then show ?case
    by (auto simp: insert_log_eq page_log_def wf_page_def nat_add_distrib
        take_update_append nat_less_iff)
qed (auto simp: insert_log_eq page_log_def wf_page_def)

lemma insert_log_frame [simp]:
  "flag (dtp_insert_log x t) = flag t" "dtp_cnts (dtp_insert_log x t) = dtp_cnts t"
  "log_max (dtp_insert_log x t) = log_max t"
  by (simp_all add: insert_log_eq)

lemma fold_insert_log_frame [simp]:
  "flag (fold dtp_insert_log xs t) = flag t" "dtp_cnts (fold dtp_insert_log xs t) = dtp_cnts t"
  "log_max (fold dtp_insert_log xs t) = log_max t"
  by (induction xs arbitrary: t) simp_all

section \<open>The daemon on the DTP controller\<close>

text \<open>Ports survive the narrowing to the controller's 8-bit port numbers.\<close>

lemma port_u8:
  assumes "i < DTP_PORT_NUM"
  shows "(ucast (of_nat i :: u32) :: u8) = of_nat i" "(of_nat i :: u8) < 4"
proof -
  from assms have "i \<in> {0, 1, 2, 3}" by (auto simp: DTP_PORT_NUM_def)
  then show "(ucast (of_nat i :: u32) :: u8) = of_nat i" "(of_nat i :: u8) < 4" by auto
qed

lemma port_u8_inject:
  assumes "i < DTP_PORT_NUM" "j < DTP_PORT_NUM"
  shows "(of_nat i :: u8) = of_nat j \<longleftrightarrow> i = j"
proof -
  from assms have "i \<in> {0, 1, 2, 3}" "j \<in> {0, 1, 2, 3}" by (auto simp: DTP_PORT_NUM_def)
  then show ?thesis by auto
qed

text \<open>The log entry a message from a port becomes.\<close>

definition as_log :: "nat \<Rightarrow> u64 \<times> u64 \<times> u64 \<Rightarrow> dtp_log" where
  "as_log i m = \<lparr>log_port = int i, log_timestamp = fst m, log_msg1 = fst (snd m),
     log_msg2 = snd (snd m)\<rparr>"

text \<open>The daemon's portal is attached and quiet, with the given controller state behind it.\<close>

definition idle :: "'d portal_env \<Rightarrow> nat \<Rightarrow> ('d \<Rightarrow> dtp_ctrl portal_view) \<Rightarrow> 'd portal \<Rightarrow> dtp_ctrl \<Rightarrow> bool" where
  "idle E bar2io view p h \<longleftrightarrow> attached E bar2io p \<and> view (dev p) = quiet h"

lemma idleD: "idle E bar2io view p h \<Longrightarrow> attached E bar2io p" "idle E bar2io view p h \<Longrightarrow> view (dev p) = quiet h"
  by (simp_all add: idle_def)

lemma looks_idle:
  assumes "looks E bar2io view h m Q" "idle E bar2io view p h"
  shows "Q (fst (run_state m p)) \<and> idle E bar2io view (snd (run_state m p)) h"
  using assms by (auto simp: idle_def elim!: looksE)

text \<open>The ports whose messages a turn records or sends.\<close>

definition receiving :: "'d kernel \<Rightarrow> nat \<Rightarrow> bool" where
  "receiving k i \<longleftrightarrow> pv_logging (dtp k) ! i \<noteq> 0 \<and> st_state (pv_states (dtp k) ! i) = SYNC"

definition transmitting :: "'d kernel \<Rightarrow> nat \<Rightarrow> bool" where
  "transmitting k i \<longleftrightarrow> pv_sending (dtp k) ! i \<noteq> 0 \<and> st_state (pv_states (dtp k) ! i) = SYNC"

lemma receiving_frame [simp]:
  "receiving (k\<lparr>portal := p\<rparr>) = receiving k" "receiving (k\<lparr>portal := p, dtp_time := t\<rparr>) = receiving k"
  by (simp_all add: fun_eq_iff receiving_def)

text \<open>The entries the enabled ports contribute, in port order.\<close>

definition received :: "'d kernel \<Rightarrow> dtp_ctrl \<Rightarrow> nat list \<Rightarrow> dtp_log list" where
  "received k h is =
     concat (map (\<lambda>i. if receiving k i then map (as_log i) (log_queue h (of_nat i)) else []) is)"

context dtp_nic
begin

lemma recv_loop:
  assumes "idle E bar2io view p h" "i < DTP_PORT_NUM"
  shows "\<exists>p' h'. recv_log_loop E i p t =
      Some (p', fold dtp_insert_log (map (as_log i) (log_queue h (of_nat i))) t) \<and>
    idle E bar2io view p' h' \<and> log_queue h' = (log_queue h)(of_nat i := []) \<and>
    same_regs h h' \<and> lwrite_data_cycle2 h' = lwrite_data_cycle2 h"
  using assms(1)
proof (induction "log_queue h (of_nat i)" arbitrary: p h t)
  case Nil
  with nic_read_message [of p h "of_nat i"] obtain d where
    "run_state (dtp_read_message E (of_nat i)) p = (None, p\<lparr>dev := d\<rparr>)" "view d = quiet h"
    by (auto simp: port_u8 [OF assms(2)] idle_def split: list.splits)
  with Nil show ?case
    by (subst recv_log_loop.simps) (auto simp: idle_def intro!: exI [of _ h])
next
  case (Cons m q)
  with nic_read_message [of p h "of_nat i"] obtain d h1 where
    rd: "run_state (dtp_read_message E (of_nat i)) p = (Some m, p\<lparr>dev := d\<rparr>)" and
    h1: "view d = quiet h1" "log_queue h1 = (log_queue h)(of_nat i := q)" "same_regs h h1"
      "lwrite_data_cycle2 h1 = lwrite_data_cycle2 h"
    by (auto simp: port_u8 [OF assms(2)] idle_def split: list.splits)
  from Cons.prems h1(1) have "idle E bar2io view (p\<lparr>dev := d\<rparr>) h1" by (simp add: idle_def)
  moreover have "q = log_queue h1 (of_nat i)" using h1(2) by simp
  ultimately obtain p' h' where IH: "recv_log_loop E i (p\<lparr>dev := d\<rparr>) (dtp_insert_log (as_log i m) t) =
      Some (p', fold dtp_insert_log (map (as_log i) q) (dtp_insert_log (as_log i m) t))"
    "idle E bar2io view p' h'" "log_queue h' = (log_queue h1)(of_nat i := [])"
    "same_regs h1 h'" "lwrite_data_cycle2 h' = lwrite_data_cycle2 h1"
    using Cons.hyps(1) [of h1 "p\<lparr>dev := d\<rparr>" "dtp_insert_log (as_log i m) t"] by auto
  obtain t1 m1 m2 where m: "m = (t1, m1, m2)" by (cases m)
  have "recv_log_loop E i p t = recv_log_loop E i (p\<lparr>dev := d\<rparr>) (dtp_insert_log (as_log i m) t)"
    by (subst recv_log_loop.simps) (simp add: rd m as_log_def)
  with IH h1 Cons.hyps(2) [symmetric] show ?case
    by (auto intro: same_regs_trans intro!: exI [of _ h'])
qed

text \<open>One port, then some ports: every enabled queue is drained into the page's log.\<close>

lemma recv_port:
  assumes "idle E bar2io view (portal k) h" "i < DTP_PORT_NUM"
  shows "\<exists>p' h'. recv_log_port E i k =
      Some (k\<lparr>portal := p', dtp_time := fold dtp_insert_log (received k h [i]) (dtp_time k)\<rparr>) \<and>
    idle E bar2io view p' h' \<and> same_regs h h' \<and> lwrite_data_cycle2 h' = lwrite_data_cycle2 h \<and>
    (\<forall>j < DTP_PORT_NUM. log_queue h' (of_nat j) = (if j = i \<and> receiving k j then [] else log_queue h (of_nat j)))"
proof (cases "receiving k i")
  case False
  then have "recv_log_port E i k = Some k" "received k h [i] = []"
    by (auto simp: recv_log_port_def receiving_def received_def)
  with assms(1) False show ?thesis by (auto intro!: exI [of _ "portal k"] exI [of _ h])
next
  case True
  let ?t = "fold dtp_insert_log (map (as_log i) (log_queue h (of_nat i))) (dtp_time k)"
  from recv_loop [OF assms] obtain p1 h1 where
    one: "recv_log_loop E i (portal k) (dtp_time k) = Some (p1, ?t)" "idle E bar2io view p1 h1"
      "log_queue h1 = (log_queue h)(of_nat i := [])" "same_regs h h1" "lwrite_data_cycle2 h1 = lwrite_data_cycle2 h"
    by blast
  have "log_queue h1 (of_nat j) = (if j = i \<and> receiving k j then [] else log_queue h (of_nat j))"
    if "j < DTP_PORT_NUM" for j
    using one(3) that assms(2) True by (simp add: port_u8_inject)
  with one True show ?thesis
    by (intro exI [of _ p1] exI [of _ h1]) (simp add: recv_log_port_def receiving_def received_def)
qed

lemma recv_ports:
  assumes "idle E bar2io view (portal k) h" "distinct is" "\<forall>i\<in>set is. i < DTP_PORT_NUM"
  shows "\<exists>p' h'. recv_log_ports E is k =
      Some (k\<lparr>portal := p', dtp_time := fold dtp_insert_log (received k h is) (dtp_time k)\<rparr>) \<and>
    idle E bar2io view p' h' \<and> same_regs h h' \<and> lwrite_data_cycle2 h' = lwrite_data_cycle2 h \<and>
    (\<forall>j < DTP_PORT_NUM. log_queue h' (of_nat j) =
       (if j \<in> set is \<and> receiving k j then [] else log_queue h (of_nat j)))"
  using assms
proof (induction "is" arbitrary: k h)
  case Nil
  then show ?case by (auto simp: received_def intro!: exI [of _ "portal k"] exI [of _ h])
next
  case (Cons i "is")
  then have i: "i < DTP_PORT_NUM" "i \<notin> set is" by auto
  from recv_port [OF Cons.prems(1) i(1)] obtain p1 h1 where
    one: "recv_log_port E i k = Some (k\<lparr>portal := p1, dtp_time := fold dtp_insert_log (received k h [i]) (dtp_time k)\<rparr>)"
        (is "_ = Some ?k")
      "idle E bar2io view p1 h1" "same_regs h h1" "lwrite_data_cycle2 h1 = lwrite_data_cycle2 h"
      "\<forall>j < DTP_PORT_NUM. log_queue h1 (of_nat j) = (if j = i \<and> receiving k j then [] else log_queue h (of_nat j))"
    by blast
  have same: "received ?k h1 is = received k h is"
    using i(2) Cons.prems(3) one(5) by (auto simp: received_def intro!: arg_cong [of _ _ concat])
  from Cons.IH [of ?k h1] one(2) Cons.prems obtain p' h' where
    rest: "recv_log_ports E is ?k = Some (?k\<lparr>portal := p', dtp_time := fold dtp_insert_log (received k h is) (dtp_time ?k)\<rparr>)"
      "idle E bar2io view p' h'" "same_regs h1 h'" "lwrite_data_cycle2 h' = lwrite_data_cycle2 h1"
      "\<forall>j < DTP_PORT_NUM. log_queue h' (of_nat j) = (if j \<in> set is \<and> receiving k j then [] else log_queue h1 (of_nat j))"
    unfolding same by auto
  have "recv_log_ports E (i # is) k =
      Some (k\<lparr>portal := p', dtp_time := fold dtp_insert_log (received k h (i # is)) (dtp_time k)\<rparr>)"
    using one(1) rest(1) by (simp add: received_def)
  moreover have "\<forall>j < DTP_PORT_NUM. log_queue h' (of_nat j) =
      (if j \<in> set (i # is) \<and> receiving k j then [] else log_queue h (of_nat j))"
    using rest(5) one(5) by auto
  ultimately show ?case
    using rest(2,4) one(4) same_regs_trans [OF one(3) rest(3)]
    by (intro exI [of _ p'] exI [of _ h'] conjI) simp_all
qed

end

end
