(* ===== verification/Dtp_Turn.thy ===== *)
theory Dtp_Turn
  imports Dtp_Daemon
begin

text \<open>
  What one turn of the daemon's loop (\<^verbatim>\<open>run_dtp_daemon\<close> of \<^verbatim>\<open>src/sw/daemon/kernel.c\<close>) does on
  the DTP controller: the passes of the turn one by one (counters, sending, configuration,
  states), then the turn.
\<close>

lemma kernel_same:
  "k\<lparr>portal := portal k, dtp_time := (dtp_time k)\<lparr>dtp_cnts := dtp_cnts (dtp_time k), stores := stores (dtp_time k)\<rparr>\<rparr> = (k :: 'd kernel)"
  "k\<lparr>portal := portal k, dtp := (dtp k)\<lparr>pv_states := pv_states (dtp k)\<rparr>\<rparr> = (k :: 'd kernel)"
  by simp_all

lemma kernel_order:
  "portal_update f (dtp_time_update g k) = dtp_time_update g (portal_update f (k :: 'd kernel))"
  "portal_update f (dtp_update i k) = dtp_update i (portal_update f (k :: 'd kernel))"
  "dtp_time_update g (dtp_update i k) = dtp_update i (dtp_time_update g (k :: 'd kernel))"
  by simp_all

lemma ports_upt: "[0..<DTP_PORT_NUM] = [0, 1, 2, 3]"
  by (simp add: DTP_PORT_NUM_def upt_conv_Cons)

lemma looks_value:
  assumes "looks E bar2io view h m (\<lambda>a. a = v)" "idle E bar2io view p h"
  shows "\<exists>p'. run_state m p = (v, p') \<and> idle E bar2io view p' h"
  using looks_idle [OF assms] by (metis prod.collapse)

section \<open>The counter pass\<close>

text \<open>The counter a slot of the page reports: a port's local counter, or the global one.\<close>

definition counter_value :: "dtp_ctrl \<Rightarrow> nat \<Rightarrow> u64" where
  "counter_value h i =
     (if i = DTP_PORT_NUM then ucast (cglobal_reg h) + 3 else ucast (clocal_reg h (of_nat i)) + 3)"

text \<open>The read of the counter between the two time stamps.\<close>

definition read_counter :: "'d portal_env \<Rightarrow> nat \<Rightarrow> ('d portal, u64) state" where
  "read_counter E i =
     (if int i = int DTP_PORT_NUM then dtp_read_global_cnt E
      else if int i \<ge> 0 then dtp_read_local_cnt E (of_int (int i)) else State_Monad.return 0)"

text \<open>
  A slot holds a fresh sample: the counter's value, between the time-stamp counter as it was read
  right before the counter and as it was read right after, starting from some quiet portal of the turn;
  the unused high word is untouched.
\<close>

definition sampled :: "'d portal_env \<Rightarrow> nat \<Rightarrow> ('d \<Rightarrow> dtp_ctrl portal_view) \<Rightarrow> dtp_ctrl \<Rightarrow> nat \<Rightarrow> dtp_cnt \<Rightarrow> dtp_cnt \<Rightarrow> bool" where
  "sampled E bar2io view h i c c' \<longleftrightarrow> low c' = counter_value h i \<and> high c' = high c \<and>
     (\<exists>p. idle E bar2io view p h \<and>
       (let (before, p1) = run_state (read_tsc E) p;
            (value, p2) = run_state (read_counter E i) p1;
            (after, p3) = run_state (read_tsc E) p2
        in tsc1 c' = before \<and> tsc2 c' = after))"

definition count_pass :: "'d portal_env \<Rightarrow> nat list \<Rightarrow> 'd kernel \<Rightarrow> 'd kernel" where
  "count_pass E = fold (\<lambda>i k. if pv_counter (dtp k) ! i \<noteq> 0 then dtp_read_cnt_tsc E (int i) k else k)"

context dtp_nic
begin

lemma looks_tsc: "looks E bar2io view h (read_tsc E) (\<lambda>_. True)"
  by (auto simp: looks_def read_tsc_def monad_run case_prod_unfold Let_def tsc_view)

lemma looks_counter:
  assumes "i \<le> DTP_PORT_NUM"
  shows "looks E bar2io view h (read_counter E i) (\<lambda>v. v = counter_value h i)"
proof (cases "i = DTP_PORT_NUM")
  case True
  then show ?thesis using nic_read_global_cnt by (simp add: counter_value_def read_counter_def)
next
  case False
  with assms have "i < DTP_PORT_NUM" by simp
  with nic_read_local_cnt [of "of_nat i" h] show ?thesis
    by (simp add: counter_value_def read_counter_def port_u8)
qed

lemma read_cnt_tsc:
  assumes "idle E bar2io view (portal k) h" "i \<le> DTP_PORT_NUM"
  shows "\<exists>p c S. dtp_read_cnt_tsc E (int i) k = k\<lparr>portal := p,
      dtp_time := (dtp_time k)\<lparr>dtp_cnts := (dtp_cnts (dtp_time k))[i := c], stores := S\<rparr>\<rparr> \<and>
    idle E bar2io view p h \<and> sampled E bar2io view h i (dtp_cnts (dtp_time k) ! i) c"
proof -
  obtain a p1 where a: "run_state (read_tsc E) (portal k) = (a, p1)" "idle E bar2io view p1 h"
    using looks_idle [OF looks_tsc assms(1)] by (metis prod.collapse)
  obtain p2 where v: "run_state (read_counter E i) p1 = (counter_value h i, p2)" "idle E bar2io view p2 h"
    using looks_value [OF looks_counter [OF assms(2)] a(2)] by blast
  obtain b p3 where b: "run_state (read_tsc E) p2 = (b, p3)" "idle E bar2io view p3 h"
    using looks_idle [OF looks_tsc v(2)] by (metis prod.collapse)
  have run: "run_state (do { ret \<leftarrow> read_tsc E; dtp \<leftarrow> read_counter E i; ret2 \<leftarrow> read_tsc E;
      State_Monad.return (ret, dtp, ret2) }) (portal k) = ((a, counter_value h i, b), p3)"
    by (simp add: monad_run a(1) v(1) b(1))
  have "sampled E bar2io view h i (dtp_cnts (dtp_time k) ! i)
      ((dtp_cnts (dtp_time k) ! i)\<lparr>tsc1 := a, tsc2 := b, low := counter_value h i\<rparr>)"
    using assms(1) a(1) v(1) b(1) by (auto simp: sampled_def)
  moreover have "fold store [St_tsc1 i a, St_tsc2 i b, St_low i (counter_value h i)] (dtp_time k) =
      (dtp_time k)\<lparr>dtp_cnts := (dtp_cnts (dtp_time k))[i := (dtp_cnts (dtp_time k) ! i)
        \<lparr>tsc1 := a, tsc2 := b, low := counter_value h i\<rparr>],
      stores := stores (dtp_time k) @ [St_tsc1 i a, St_tsc2 i b, St_low i (counter_value h i)]\<rparr>"
    by (cases "i < length (dtp_cnts (dtp_time k))") (simp_all add: store_def on_cnt_def list_update_beyond)
  moreover have "dtp_read_cnt_tsc E (int i) k = k\<lparr>portal := p3,
      dtp_time := fold store [St_tsc1 i a, St_tsc2 i b, St_low i (counter_value h i)] (dtp_time k)\<rparr>"
    unfolding dtp_read_cnt_tsc_def read_counter_def [symmetric] run by (simp add: Let_def)
  ultimately show ?thesis using b(2) by (intro exI conjI) simp_all
qed

lemma count_pass_reads:
  assumes "idle E bar2io view (portal k) h" "distinct is" "\<forall>i\<in>set is. i \<le> DTP_PORT_NUM"
    "length (dtp_cnts (dtp_time k)) = DTP_PORT_NUM + 1"
  shows "\<exists>p cs S. count_pass E is k = k\<lparr>portal := p, dtp_time := (dtp_time k)\<lparr>dtp_cnts := cs, stores := S\<rparr>\<rparr> \<and>
    idle E bar2io view p h \<and> length cs = DTP_PORT_NUM + 1 \<and>
    (\<forall>j \<le> DTP_PORT_NUM. if j \<in> set is \<and> pv_counter (dtp k) ! j \<noteq> 0
       then sampled E bar2io view h j (dtp_cnts (dtp_time k) ! j) (cs ! j) else cs ! j = dtp_cnts (dtp_time k) ! j)"
  using assms
proof (induction "is" arbitrary: k)
  case Nil
  then show ?case
    by (intro exI [of _ "portal k"] exI [of _ "dtp_cnts (dtp_time k)"] exI [of _ "stores (dtp_time k)"])
      (simp add: count_pass_def kernel_same)
next
  case (Cons i "is")
  then have i: "i \<le> DTP_PORT_NUM" "i \<notin> set is" by auto
  show ?case
  proof (cases "pv_counter (dtp k) ! i = 0")
    case True
    then have "count_pass E (i # is) k = count_pass E is k" by (simp add: count_pass_def)
    with True Cons.IH [OF Cons.prems(1) _ _ Cons.prems(4)] Cons.prems(2,3) show ?thesis by fastforce
  next
    case False
    from read_cnt_tsc [OF Cons.prems(1) i(1)] obtain p c S where
      one: "dtp_read_cnt_tsc E (int i) k = k\<lparr>portal := p,
          dtp_time := (dtp_time k)\<lparr>dtp_cnts := (dtp_cnts (dtp_time k))[i := c], stores := S\<rparr>\<rparr>" (is "_ = ?k")
        "idle E bar2io view p h" "sampled E bar2io view h i (dtp_cnts (dtp_time k) ! i) c"
      by blast
    from False one(1) have step: "count_pass E (i # is) k = count_pass E is ?k"
      by (simp add: count_pass_def)
    have "\<exists>p' cs S. count_pass E is ?k = k\<lparr>portal := p', dtp_time := (dtp_time k)\<lparr>dtp_cnts := cs, stores := S\<rparr>\<rparr> \<and>
      idle E bar2io view p' h \<and> length cs = DTP_PORT_NUM + 1 \<and>
      (\<forall>j \<le> DTP_PORT_NUM. if j \<in> set is \<and> pv_counter (dtp k) ! j \<noteq> 0
        then sampled E bar2io view h j ((dtp_cnts (dtp_time k))[i := c] ! j) (cs ! j)
        else cs ! j = (dtp_cnts (dtp_time k))[i := c] ! j)"
      using Cons.IH [of ?k] one(2) Cons.prems by (simp cong: if_cong)
    then obtain p' cs S' where
      "count_pass E is ?k = k\<lparr>portal := p', dtp_time := (dtp_time k)\<lparr>dtp_cnts := cs, stores := S'\<rparr>\<rparr>"
      "idle E bar2io view p' h" "length cs = DTP_PORT_NUM + 1" and
      rest: "\<forall>j \<le> DTP_PORT_NUM. if j \<in> set is \<and> pv_counter (dtp k) ! j \<noteq> 0
        then sampled E bar2io view h j ((dtp_cnts (dtp_time k))[i := c] ! j) (cs ! j)
        else cs ! j = (dtp_cnts (dtp_time k))[i := c] ! j"
      by blast
    moreover have "if j \<in> set (i # is) \<and> pv_counter (dtp k) ! j \<noteq> 0
        then sampled E bar2io view h j (dtp_cnts (dtp_time k) ! j) (cs ! j)
        else cs ! j = dtp_cnts (dtp_time k) ! j" if "j \<le> DTP_PORT_NUM" for j
      using rest that i Cons.prems(4) one(3) False by (cases "j = i") auto
    ultimately show ?thesis unfolding step by blast
  qed
qed

end

section \<open>The send pass\<close>

text \<open>The messages a pass over some ports sends, and the counters it advances.\<close>

definition sent :: "'d kernel \<Rightarrow> nat list \<Rightarrow> (u8 \<times> u64) list" where
  "sent k is = map (\<lambda>i. (of_nat i, ucast (st_msg_cnt (pv_states (dtp k) ! i)))) (filter (transmitting k) is)"

definition bump :: "'d kernel \<Rightarrow> nat \<Rightarrow> dtp_state \<Rightarrow> dtp_state" where
  "bump k i st = (if transmitting k i then st\<lparr>st_msg_cnt := st_msg_cnt st + 1\<rparr> else st)"

text \<open>The daemon after a send to one port.\<close>

definition sent_to :: "'d portal \<Rightarrow> nat \<Rightarrow> 'd kernel \<Rightarrow> 'd kernel" where
  "sent_to p i k = k\<lparr>portal := p,
     dtp := (dtp k)\<lparr>pv_states := (pv_states (dtp k))[i := bump k i (pv_states (dtp k) ! i)]\<rparr>\<rparr>"

lemma sent_to_frame:
  assumes "i < length (pv_states (dtp k))"
  shows "transmitting (sent_to p i k) = transmitting k" "bump (sent_to p i k) = bump k"
    and "i \<notin> set is \<Longrightarrow> sent (sent_to p i k) is = sent k is"
proof -
  show t: "transmitting (sent_to p i k) = transmitting k"
  proof
    show "transmitting (sent_to p i k) j = transmitting k j" for j
      using assms by (cases "j = i") (simp_all add: transmitting_def sent_to_def bump_def)
  qed
  then show "bump (sent_to p i k) = bump k" by (simp add: bump_def fun_eq_iff)
  show "sent (sent_to p i k) is = sent k is" if "i \<notin> set is"
  proof -
    have "(pv_states (dtp (sent_to p i k))) ! j = pv_states (dtp k) ! j" if "j \<in> set is" for j
      using that \<open>i \<notin> set is\<close> by (cases "j = i") (simp_all add: sent_to_def)
    then show ?thesis unfolding sent_def t by simp
  qed
qed

context dtp_nic
begin

lemma send_port:
  assumes "idle E bar2io view (portal k) h" "i < DTP_PORT_NUM"
  shows "\<exists>p h'. send_log_port E i k = sent_to p i k \<and> idle E bar2io view p h' \<and> same_regs h h' \<and>
    log_queue h' = log_queue h \<and> lwrite_data_cycle2 h' = lwrite_data_cycle2 h @ sent k [i]"
proof (cases "transmitting k i")
  case False
  then have "send_log_port E i k = sent_to (portal k) i k" "sent k [i] = []"
    by (auto simp: send_log_port_def transmitting_def Let_def sent_def sent_to_def bump_def)
  with assms(1) show ?thesis by (intro exI [of _ "portal k"] exI [of _ h]) simp
next
  case True
  let ?m = "ucast (st_msg_cnt (pv_states (dtp k) ! i))"
  let ?h = "snd (ctrl_logger_write_cnt (of_nat i) ?m h)"
  from assms(1) nic_send_message [of "portal k" h "of_nat i" ?m]
  obtain d where d: "run_state (dtp_send_message E (of_nat i) ?m) (portal k) = ((), (portal k)\<lparr>dev := d\<rparr>)" "view d = quiet ?h"
    by (auto simp: idle_def port_u8 [OF assms(2)])
  have "send_log_port E i k = sent_to ((portal k)\<lparr>dev := d\<rparr>) i k"
    using True d(1) by (simp add: send_log_port_def transmitting_def sent_to_def bump_def Let_def)
  moreover have "idle E bar2io view ((portal k)\<lparr>dev := d\<rparr>) ?h" using assms(1) d(2) by (simp add: idle_def)
  moreover have "sent k [i] = [(of_nat i, ?m)]" using True by (simp add: sent_def)
  ultimately show ?thesis
    by (intro exI [of _ "(portal k)\<lparr>dev := d\<rparr>"] exI [of _ ?h])
      (simp add: ctrl_logger_write_cnt_queue ctrl_logger_write_cnt_sent port_u8 [OF assms(2)])
qed

lemma send_ports:
  assumes "idle E bar2io view (portal k) h" "distinct is" "\<forall>i\<in>set is. i < DTP_PORT_NUM"
    "length (pv_states (dtp k)) = DTP_PORT_NUM"
  shows "\<exists>p h' ss. fold (send_log_port E) is k =
      k\<lparr>portal := p, dtp := (dtp k)\<lparr>pv_states := ss\<rparr>\<rparr> \<and>
    idle E bar2io view p h' \<and> same_regs h h' \<and> log_queue h' = log_queue h \<and>
    lwrite_data_cycle2 h' = lwrite_data_cycle2 h @ sent k is \<and>
    length ss = DTP_PORT_NUM \<and>
    (\<forall>j < DTP_PORT_NUM. ss ! j =
       (if j \<in> set is then bump k j (pv_states (dtp k) ! j) else pv_states (dtp k) ! j))"
  using assms
proof (induction "is" arbitrary: k h)
  case Nil
  then show ?case
    by (intro exI [of _ "portal k"] exI [of _ h] exI [of _ "pv_states (dtp k)"])
      (simp add: sent_def kernel_same)
next
  case (Cons i "is")
  then have i: "i < DTP_PORT_NUM" "i \<notin> set is" "i < length (pv_states (dtp k))" by auto
  from send_port [OF Cons.prems(1) i(1)] obtain p1 h1 where
    one: "send_log_port E i k = sent_to p1 i k" "idle E bar2io view p1 h1" "same_regs h h1"
      "log_queue h1 = log_queue h" "lwrite_data_cycle2 h1 = lwrite_data_cycle2 h @ sent k [i]" by blast
  let ?k = "sent_to p1 i k"
  note fr = sent_to_frame [OF i(3)]
  from Cons.IH [of ?k h1] Cons.prems one(2) obtain p h' ss where
    rest: "fold (send_log_port E) is ?k = ?k\<lparr>portal := p, dtp := (dtp ?k)\<lparr>pv_states := ss\<rparr>\<rparr>"
      "idle E bar2io view p h'" "same_regs h1 h'" "log_queue h' = log_queue h1"
      "lwrite_data_cycle2 h' = lwrite_data_cycle2 h1 @ sent k is" "length ss = DTP_PORT_NUM"
      "\<forall>j < DTP_PORT_NUM. ss ! j =
        (if j \<in> set is then bump k j (pv_states (dtp ?k) ! j) else pv_states (dtp ?k) ! j)"
    unfolding fr fr(3) [OF i(2)] by (auto simp: sent_to_def)
  have "\<forall>j < DTP_PORT_NUM. ss ! j =
      (if j \<in> set (i # is) then bump k j (pv_states (dtp k) ! j) else pv_states (dtp k) ! j)"
    using rest(7) i by (auto simp: sent_to_def nth_list_update)
  moreover have "sent k (i # is) = sent k [i] @ sent k is" by (simp add: sent_def)
  ultimately show ?case
    using rest(1,2,4-6) one same_regs_trans [OF one(3) rest(3)]
    by (intro exI [of _ p] exI [of _ h'] exI [of _ ss]) (simp add: sent_to_def)
qed

end

section \<open>The configuration and state passes\<close>

lemma update_configs_copies:
  assumes "wf_kernel k"
  shows "dtp_update_configs k = k\<lparr>dtp := (dtp k)\<lparr>pv_mode := mode k, pv_logging := logging k,
    pv_sending := sending k,
    pv_counter := take DTP_PORT_NUM (counter k) @ [pv_counter (dtp k) ! DTP_PORT_NUM]\<rparr>\<rparr>"
proof -
  have copy: "fold (\<lambda>i k. k\<lparr>dtp := (dtp k)\<lparr>
      pv_logging := (pv_logging (dtp k))[i := logging k ! i],
      pv_sending := (pv_sending (dtp k))[i := sending k ! i],
      pv_counter := (pv_counter (dtp k))[i := counter k ! i]\<rparr>\<rparr>) is (k :: 'a kernel) =
    k\<lparr>dtp := (dtp k)\<lparr>
      pv_logging := fold (\<lambda>i xs. xs[i := logging k ! i]) is (pv_logging (dtp k)),
      pv_sending := fold (\<lambda>i xs. xs[i := sending k ! i]) is (pv_sending (dtp k)),
      pv_counter := fold (\<lambda>i xs. xs[i := counter k ! i]) is (pv_counter (dtp k))\<rparr>\<rparr>" for "is" k
    by (induction "is" arbitrary: k) simp_all
  have all: "fold (\<lambda>i xs. xs[i := ys ! i]) [0..<DTP_PORT_NUM] xs = ys"
    if "length xs = DTP_PORT_NUM" "length ys = DTP_PORT_NUM" for xs ys :: "int list"
    using that by (auto intro!: nth_equalityI simp: fold_assign_nth)
  have low: "fold (\<lambda>i xs. xs[i := ys ! i]) [0..<DTP_PORT_NUM] xs = take DTP_PORT_NUM ys @ [xs ! DTP_PORT_NUM]"
    if "length xs = DTP_PORT_NUM + 1" "length ys = DTP_PORT_NUM + 1" for xs ys :: "int list"
    using that by (auto intro!: nth_equalityI
        simp: fold_assign_nth nth_append less_Suc_eq)
  show ?thesis
    using assms by (simp add: dtp_update_configs_def wf_kernel_def copy all low)
qed

text \<open>A port's status as the controller's registers have it; the message counter is the driver's.\<close>

definition reg_state :: "dtp_ctrl \<Rightarrow> nat \<Rightarrow> dtp_state \<Rightarrow> dtp_state" where
  "reg_state h i st = st\<lparr>st_state := state_reg h (of_nat i), st_delay := delay_reg h (of_nat i),
     st_error := jumpc_reg h (of_nat i), st_beacon_interval := beacon_interval_reg h (of_nat i),
     st_local_cnt := ucast (clocal_reg h (of_nat i)) + 3, st_free_cnt := ucast (cycle_reg h)\<rparr>"

context dtp_nic
begin

lemma update_port:
  assumes "idle E bar2io view (portal k) h" "i < DTP_PORT_NUM"
  shows "\<exists>p. update_state_port E i k = k\<lparr>portal := p,
      dtp := (dtp k)\<lparr>pv_states := (pv_states (dtp k))[i := reg_state h i (pv_states (dtp k) ! i)]\<rparr>\<rparr> \<and>
    idle E bar2io view p h"
proof -
  let ?m = "do { s \<leftarrow> dtp_read_state E (of_nat i);
                  dl \<leftarrow> dtp_read_delay E (of_nat i);
                  er \<leftarrow> dtp_read_error E (of_nat i);
                  bi \<leftarrow> dtp_read_beacon_interval E (of_nat i);
                  lc \<leftarrow> dtp_read_local_cnt E (of_nat i);
                  fc \<leftarrow> dtp_read_cnt E (of_nat i);
                  State_Monad.return (s, dl, er, bi, lc, fc) }"
  let ?v = "(state_reg h (of_nat i), delay_reg h (of_nat i), jumpc_reg h (of_nat i),
    beacon_interval_reg h (of_nat i), ucast (clocal_reg h (of_nat i)) + 3 :: u64, ucast (cycle_reg h) :: u64)"
  have port: "(ucast (of_nat i :: u32) :: u8) < 4" using port_u8 [OF assms(2)] by simp
  have "looks E bar2io view h ?m (\<lambda>v. v = ?v)"
    by (intro looks_bind [OF nic_read_state [OF port]] looks_bind [OF nic_read_delay [OF port]]
        looks_bind [OF nic_read_error [OF port]] looks_bind [OF nic_read_beacon_interval [OF port]]
        looks_bind [OF nic_read_local_cnt [OF port]] looks_bind [OF nic_read_cnt] looks_return)
      (simp add: port_u8 [OF assms(2)])
  from looks_value [OF this assms(1)] obtain p where
    m: "run_state ?m (portal k) = (?v, p)" "idle E bar2io view p h"
    by blast
  show ?thesis
    unfolding update_state_port_def m(1)
    by (intro exI [of _ p]) (simp add: reg_state_def m(2))
qed

lemma update_ports:
  assumes "idle E bar2io view (portal k) h" "\<forall>i\<in>set is. i < DTP_PORT_NUM"
  shows "\<exists>p. fold (update_state_port E) is k = k\<lparr>portal := p, dtp := (dtp k)\<lparr>pv_states :=
      fold (\<lambda>i ss. ss[i := reg_state h i (ss ! i)]) is (pv_states (dtp k))\<rparr>\<rparr> \<and>
    idle E bar2io view p h"
  using assms
proof (induction "is" arbitrary: k)
  case Nil
  then show ?case by (intro exI [of _ "portal k"]) (simp add: kernel_same)
next
  case (Cons i "is")
  then obtain p where "update_state_port E i k = k\<lparr>portal := p,
      dtp := (dtp k)\<lparr>pv_states := (pv_states (dtp k))[i := reg_state h i (pv_states (dtp k) ! i)]\<rparr>\<rparr>"
    (is "_ = ?k") "idle E bar2io view p h"
    using update_port by fastforce
  with Cons.IH [of ?k] Cons.prems(2) show ?case by simp
qed

lemma update_states:
  assumes "idle E bar2io view (portal k) h" "length (pv_states (dtp k)) = DTP_PORT_NUM"
  shows "\<exists>p. dtp_update_states E k = k\<lparr>portal := p, dtp := (dtp k)\<lparr>
      pv_states := map (\<lambda>i. reg_state h i (pv_states (dtp k) ! i)) [0..<DTP_PORT_NUM],
      pv_global_cnt := ucast (cglobal_reg h) + 3\<rparr>\<rparr> \<and> idle E bar2io view p h"
proof -
  have ss: "fold (\<lambda>i ss. ss[i := reg_state h i (ss ! i)]) [0..<DTP_PORT_NUM] (pv_states (dtp k)) =
      map (\<lambda>i. reg_state h i (pv_states (dtp k) ! i)) [0..<DTP_PORT_NUM]"
    using assms(2) by (auto intro!: nth_equalityI simp: fold_update_nth)
  have "\<forall>i\<in>set [0..<DTP_PORT_NUM]. i < DTP_PORT_NUM" by simp
  from update_ports [OF assms(1) this] obtain p where
    f: "fold (update_state_port E) [0..<DTP_PORT_NUM] k = k\<lparr>portal := p, dtp := (dtp k)\<lparr>pv_states :=
      map (\<lambda>i. reg_state h i (pv_states (dtp k) ! i)) [0..<DTP_PORT_NUM]\<rparr>\<rparr>" "idle E bar2io view p h"
    unfolding ss by blast
  from looks_value [OF nic_read_global_cnt f(2)] obtain p' where
    g: "run_state (dtp_read_global_cnt E) p = (ucast (cglobal_reg h) + 3, p')" "idle E bar2io view p' h"
    by blast
  show ?thesis
    unfolding dtp_update_states_def f(1) by (intro exI [of _ p']) (simp add: g Let_def)
qed

end

section \<open>The turn\<close>

text \<open>
  The specification of a turn of a running daemon: what user space finds in the page, what
  the controller's queues hold, what the driver records of the ports, and what stays.
\<close>

definition turn_page :: "'d portal_env \<Rightarrow> nat \<Rightarrow> ('d \<Rightarrow> dtp_ctrl portal_view) \<Rightarrow> 'd kernel \<Rightarrow> dtp_ctrl \<Rightarrow> dtp_time \<Rightarrow> bool" where
  "turn_page E bar2io view k h t \<longleftrightarrow> wf_page t \<and> flag t = 0 \<and> log_max t = log_max (dtp_time k) \<and>
     page_log t = take (nat (log_max (dtp_time k))) (received k h [0..<DTP_PORT_NUM]) \<and>
     (\<forall>j \<le> DTP_PORT_NUM. if pv_counter (dtp k) ! j \<noteq> 0
        then sampled E bar2io view h j (dtp_cnts (dtp_time k) ! j) (dtp_cnts t ! j)
        else dtp_cnts t ! j = dtp_cnts (dtp_time k) ! j)"

definition turn_queues :: "'d kernel \<Rightarrow> dtp_ctrl \<Rightarrow> dtp_ctrl \<Rightarrow> bool" where
  "turn_queues k h h' \<longleftrightarrow> same_regs h h' \<and>
     lwrite_data_cycle2 h' = lwrite_data_cycle2 h @ sent k [0..<DTP_PORT_NUM] \<and>
     (\<forall>j < DTP_PORT_NUM. log_queue h' (of_nat j) =
        (if receiving k j then [] else log_queue h (of_nat j)))"

definition turn_priv :: "'d kernel \<Rightarrow> dtp_ctrl \<Rightarrow> dtp_priv \<Rightarrow> bool" where
  "turn_priv k h d \<longleftrightarrow> d = (dtp k)\<lparr>pv_mode := mode k, pv_logging := logging k, pv_sending := sending k,
     pv_counter := take DTP_PORT_NUM (counter k) @ [pv_counter (dtp k) ! DTP_PORT_NUM],
     pv_states := map (\<lambda>i. reg_state h i (bump k i (pv_states (dtp k) ! i))) [0..<DTP_PORT_NUM],
     pv_global_cnt := ucast (cglobal_reg h) + 3\<rparr>"

lemma wf_kernel_page: "wf_kernel k \<Longrightarrow> wf_page (dtp_time k)"
  by (simp add: wf_kernel_def wf_page_def)

lemma reg_state_cong: "same_regs h h' \<Longrightarrow> reg_state h' = reg_state h"
  by (simp add: fun_eq_iff same_regs_def reg_state_def)

lemma receiving_bump:
  assumes "pv_logging d = pv_logging (dtp k)"
    and "\<forall>j < DTP_PORT_NUM. pv_states d ! j = bump k j (pv_states (dtp k) ! j)" "j < DTP_PORT_NUM"
  shows "receiving (k'\<lparr>dtp := d\<rparr>) j = receiving k j"
  using assms by (simp add: receiving_def bump_def)

lemma received_cong:
  assumes "\<And>j. j < DTP_PORT_NUM \<Longrightarrow> receiving k' j = receiving k j" "log_queue h' = log_queue h"
  shows "received k' h' [0..<DTP_PORT_NUM] = received k h [0..<DTP_PORT_NUM]"
  using assms by (auto simp: received_def intro!: arg_cong [of _ _ concat])

lemma locked_page:
  assumes "log_max (dtp_time k) = int (length (log_entries (dtp_time k)))"
    and "length cs = DTP_PORT_NUM + 1"
    and "\<forall>j \<le> DTP_PORT_NUM. if pv_counter (dtp k) ! j \<noteq> 0
      then sampled E bar2io view h j (dtp_cnts (dtp_time k) ! j) (cs ! j) else cs ! j = dtp_cnts (dtp_time k) ! j"
  shows "turn_page E bar2io view k h ((fold dtp_insert_log (received k h [0..<DTP_PORT_NUM])
    ((dtp_time k)\<lparr>flag := 1, log_cnt := 0, dtp_cnts := cs, stores := S\<rparr>))\<lparr>flag := 0, stores := S'\<rparr>)"
proof -
  let ?t = "(dtp_time k)\<lparr>flag := 1, log_cnt := 0, dtp_cnts := cs, stores := S\<rparr>"
  let ?u = "fold dtp_insert_log (received k h [0..<DTP_PORT_NUM]) ?t"
  have "wf_page ?t" using assms(1,2) by (simp add: wf_page_def)
  from pagelog.fold_insert [OF this, of "received k h [0..<DTP_PORT_NUM]"]
  have u: "page_log ?u = take (length (log_entries (dtp_time k))) (received k h [0..<DTP_PORT_NUM])"
    "wf_page ?u"
    by (simp_all add: page_log_def)
  have fl: "page_log (?u\<lparr>flag := 0, stores := S'\<rparr>) = page_log ?u" "wf_page (?u\<lparr>flag := 0, stores := S'\<rparr>) = wf_page ?u"
    by (simp_all add: page_log_def wf_page_def)
  show ?thesis
    unfolding turn_page_def fl using u assms(1,3) by simp
qed

lemma count_pass_fold:
  "fold (\<lambda>i k. if pv_counter (dtp k) ! i \<noteq> 0 then dtp_read_cnt_tsc E (int i) k else k) = count_pass E"
  by (simp add: fun_eq_iff count_pass_def)

text \<open>The part of a turn under the page's lock.\<close>

definition locked_turn :: "'d portal_env \<Rightarrow> 'd kernel \<Rightarrow> 'd kernel option" where
  "locked_turn E k =
     dtp_recv_log E (dtp_send_log E (count_pass E [0..<DTP_PORT_NUM + 1]
       (k\<lparr>dtp_time := store (St_log_cnt 0) (store (St_flag 1) (dtp_time k))\<rparr>)))"

lemma daemon_turn_locked:
  assumes "pv_mode (dtp k) \<noteq> 0" "locked_turn E k = Some k'"
  shows "daemon_turn E k =
    (let k = dtp_update_states E (dtp_update_configs (k'\<lparr>dtp_time := store (St_flag 0) (dtp_time k')\<rparr>))
     in Some (k\<lparr>portal := snd (run_state (dtp_check_portal E (dtp_verbose k)) (portal k))\<rparr>))"
  using assms(1) assms(2) [unfolded locked_turn_def]
  unfolding daemon_turn_def count_pass_fold Let_def case_prod_unfold by (simp del: upt_Suc)

context dtp_nic
begin

lemma count_all:
  assumes "idle E bar2io view (portal k) h" "length (dtp_cnts (dtp_time k)) = DTP_PORT_NUM + 1"
  shows "\<exists>p cs S. count_pass E [0..<DTP_PORT_NUM + 1] (k\<lparr>dtp_time := store (St_log_cnt 0) (store (St_flag 1) (dtp_time k))\<rparr>) =
      k\<lparr>portal := p, dtp_time := (dtp_time k)\<lparr>flag := 1, log_cnt := 0, dtp_cnts := cs, stores := S\<rparr>\<rparr> \<and>
    idle E bar2io view p h \<and> length cs = DTP_PORT_NUM + 1 \<and>
    (\<forall>j \<le> DTP_PORT_NUM. if pv_counter (dtp k) ! j \<noteq> 0
      then sampled E bar2io view h j (dtp_cnts (dtp_time k) ! j) (cs ! j) else cs ! j = dtp_cnts (dtp_time k) ! j)"
proof -
  obtain "is" where "is": "is = [0..<DTP_PORT_NUM + 1]" "distinct is" by simp
  have mem: "j \<in> set is \<longleftrightarrow> j \<le> DTP_PORT_NUM" for j by (auto simp: "is"(1))
  let ?t = "store (St_log_cnt 0) (store (St_flag 1) (dtp_time k))"
  have t: "dtp_cnts ?t = dtp_cnts (dtp_time k)" by (simp add: store_def)
  from count_pass_reads [of "k\<lparr>dtp_time := ?t\<rparr>" h "is"] assms "is"(2) obtain p cs S where
    pass: "count_pass E is (k\<lparr>dtp_time := ?t\<rparr>) = k\<lparr>portal := p, dtp_time := ?t\<lparr>dtp_cnts := cs, stores := S\<rparr>\<rparr>"
      "idle E bar2io view p h" "length cs = DTP_PORT_NUM + 1"
      "\<forall>j \<le> DTP_PORT_NUM. if j \<in> set is \<and> pv_counter (dtp k) ! j \<noteq> 0
        then sampled E bar2io view h j (dtp_cnts (dtp_time k) ! j) (cs ! j) else cs ! j = dtp_cnts (dtp_time k) ! j"
    unfolding "is"(1) [symmetric] by (auto simp: t mem cong: if_cong split del: if_split)
  moreover have "?t\<lparr>dtp_cnts := cs, stores := S\<rparr> = (dtp_time k)\<lparr>flag := 1, log_cnt := 0, dtp_cnts := cs, stores := S\<rparr>"
    by (simp add: store_def)
  ultimately show ?thesis
    unfolding "is"(1) [symmetric] by (intro exI [of _ p] exI [of _ cs] exI [of _ S]) (simp add: mem cong: if_cong split del: if_split)
qed

lemma send_all:
  assumes "idle E bar2io view p h" "length (pv_states (dtp k)) = DTP_PORT_NUM"
  shows "\<exists>p' h' ss. dtp_send_log E (k\<lparr>portal := p, dtp_time := t\<rparr>) =
      k\<lparr>portal := p', dtp_time := t, dtp := (dtp k)\<lparr>pv_states := ss\<rparr>\<rparr> \<and>
    idle E bar2io view p' h' \<and> same_regs h h' \<and> log_queue h' = log_queue h \<and>
    lwrite_data_cycle2 h' = lwrite_data_cycle2 h @ sent k [0..<DTP_PORT_NUM] \<and>
    length ss = DTP_PORT_NUM \<and> (\<forall>j < DTP_PORT_NUM. ss ! j = bump k j (pv_states (dtp k) ! j))"
proof -
  let ?k = "k\<lparr>portal := p, dtp_time := t\<rparr>"
  have tr: "transmitting ?k = transmitting k" by (simp add: fun_eq_iff transmitting_def)
  have k: "sent ?k = sent k" "bump ?k = bump k"
    by (simp_all add: fun_eq_iff sent_def bump_def tr)
  show ?thesis
    using send_ports [of ?k h "[0..<DTP_PORT_NUM]"] assms
    unfolding dtp_send_log_def k by (simp add: kernel_order)
qed

lemma recv_all:
  assumes "idle E bar2io view p h2" "log_queue h2 = log_queue h"
    "\<forall>j < DTP_PORT_NUM. ss ! j = bump k j (pv_states (dtp k) ! j)"
  shows "\<exists>p' h'. dtp_recv_log E (k\<lparr>portal := p, dtp_time := t, dtp := (dtp k)\<lparr>pv_states := ss\<rparr>\<rparr>) =
      Some (k\<lparr>portal := p', dtp_time := fold dtp_insert_log (received k h [0..<DTP_PORT_NUM]) t,
        dtp := (dtp k)\<lparr>pv_states := ss\<rparr>\<rparr>) \<and>
    idle E bar2io view p' h' \<and> same_regs h2 h' \<and> lwrite_data_cycle2 h' = lwrite_data_cycle2 h2 \<and>
    (\<forall>j < DTP_PORT_NUM. log_queue h' (of_nat j) = (if receiving k j then [] else log_queue h (of_nat j)))"
proof -
  let ?k = "k\<lparr>portal := p, dtp_time := t, dtp := (dtp k)\<lparr>pv_states := ss\<rparr>\<rparr>"
  have rec: "receiving ?k j = receiving k j" if "j < DTP_PORT_NUM" for j
    using receiving_bump [of "(dtp k)\<lparr>pv_states := ss\<rparr>" k j "k\<lparr>portal := p, dtp_time := t\<rparr>"] assms(3) that
    by simp
  have rec': "received ?k h2 [0..<DTP_PORT_NUM] = received k h [0..<DTP_PORT_NUM]"
    by (intro received_cong rec assms(2))
  show ?thesis
    using recv_ports [of ?k h2 "[0..<DTP_PORT_NUM]"] assms(1)
    unfolding dtp_recv_log_def rec' by (simp add: rec assms(2) kernel_order cong: if_cong split del: if_split)
qed

lemma locked_turn_does:
  assumes "idle E bar2io view (portal k) h" "wf_kernel k"
  shows "\<exists>p h' t ss. locked_turn E k =
      Some (k\<lparr>portal := p, dtp_time := t, dtp := (dtp k)\<lparr>pv_states := ss\<rparr>\<rparr>) \<and>
    idle E bar2io view p h' \<and> turn_queues k h h' \<and> turn_page E bar2io view k h (store (St_flag 0) t) \<and>
    length ss = DTP_PORT_NUM \<and> (\<forall>j < DTP_PORT_NUM. ss ! j = bump k j (pv_states (dtp k) ! j))"
proof -
  have wf: "length (dtp_cnts (dtp_time k)) = DTP_PORT_NUM + 1" "length (pv_states (dtp k)) = DTP_PORT_NUM"
    "log_max (dtp_time k) = int (length (log_entries (dtp_time k)))"
    using assms(2) by (simp_all add: wf_kernel_def)
  from count_all [OF assms(1) wf(1)] obtain p1 cs S where
    one: "count_pass E [0..<DTP_PORT_NUM + 1] (k\<lparr>dtp_time := store (St_log_cnt 0) (store (St_flag 1) (dtp_time k))\<rparr>) =
        k\<lparr>portal := p1, dtp_time := (dtp_time k)\<lparr>flag := 1, log_cnt := 0, dtp_cnts := cs, stores := S\<rparr>\<rparr>"
      "idle E bar2io view p1 h" "length cs = DTP_PORT_NUM + 1"
      "\<forall>j \<le> DTP_PORT_NUM. if pv_counter (dtp k) ! j \<noteq> 0
        then sampled E bar2io view h j (dtp_cnts (dtp_time k) ! j) (cs ! j) else cs ! j = dtp_cnts (dtp_time k) ! j"
    by blast
  define t where "t = (dtp_time k)\<lparr>flag := 1, log_cnt := 0, dtp_cnts := cs, stores := S\<rparr>"
  from send_all [OF one(2) wf(2), of t] obtain p2 h2 ss where
    two: "dtp_send_log E (k\<lparr>portal := p1, dtp_time := t\<rparr>) =
        k\<lparr>portal := p2, dtp_time := t, dtp := (dtp k)\<lparr>pv_states := ss\<rparr>\<rparr>"
      "idle E bar2io view p2 h2" "same_regs h h2" "log_queue h2 = log_queue h"
      "lwrite_data_cycle2 h2 = lwrite_data_cycle2 h @ sent k [0..<DTP_PORT_NUM]"
      "length ss = DTP_PORT_NUM" "\<forall>j < DTP_PORT_NUM. ss ! j = bump k j (pv_states (dtp k) ! j)"
    by blast
  define u where "u = fold dtp_insert_log (received k h [0..<DTP_PORT_NUM]) t"
  from recv_all [OF two(2,4,7), of t] obtain p3 h3 where
    three: "dtp_recv_log E (k\<lparr>portal := p2, dtp_time := t, dtp := (dtp k)\<lparr>pv_states := ss\<rparr>\<rparr>) =
        Some (k\<lparr>portal := p3, dtp_time := u, dtp := (dtp k)\<lparr>pv_states := ss\<rparr>\<rparr>)"
      "idle E bar2io view p3 h3" "same_regs h2 h3" "lwrite_data_cycle2 h3 = lwrite_data_cycle2 h2"
      "\<forall>j < DTP_PORT_NUM. log_queue h3 (of_nat j) = (if receiving k j then [] else log_queue h (of_nat j))"
    unfolding u_def by blast
  have "turn_queues k h h3"
    using same_regs_trans [OF two(3) three(3)] three(4,5) two(5) by (simp add: turn_queues_def)
  moreover have "turn_page E bar2io view k h (store (St_flag 0) u)"
    unfolding u_def t_def store_def store_effect.simps by (rule locked_page [OF wf(3) one(3,4)])
  moreover have "locked_turn E k = Some (k\<lparr>portal := p3, dtp_time := u, dtp := (dtp k)\<lparr>pv_states := ss\<rparr>\<rparr>)"
    unfolding locked_turn_def one(1) t_def [symmetric] two(1) three(1) ..
  ultimately show ?thesis using three(2) two(6,7) by blast
qed

lemma nic_turn:
  assumes "idle E bar2io view (portal k) h" "wf_kernel k" "pv_mode (dtp k) \<noteq> 0"
  shows "\<exists>p h' t d. daemon_turn E k = Some (k\<lparr>portal := p, dtp_time := t, dtp := d\<rparr>) \<and>
    idle E bar2io view p h' \<and> turn_queues k h h' \<and> turn_page E bar2io view k h t \<and> turn_priv k h d"
proof -
  from locked_turn_does [OF assms(1,2)] obtain p h' t ss where
    lt: "locked_turn E k = Some (k\<lparr>portal := p, dtp_time := t, dtp := (dtp k)\<lparr>pv_states := ss\<rparr>\<rparr>)"
      "idle E bar2io view p h'" "turn_queues k h h'" "turn_page E bar2io view k h (store (St_flag 0) t)"
      "length ss = DTP_PORT_NUM" "\<forall>j < DTP_PORT_NUM. ss ! j = bump k j (pv_states (dtp k) ! j)"
    by blast
  have regs: "reg_state h' = reg_state h" "cglobal_reg h' = cglobal_reg h"
    using lt(3) by (auto simp: turn_queues_def reg_state_cong) (simp add: same_regs_def)
  define k1 where "k1 = k\<lparr>portal := p, dtp_time := store (St_flag 0) t, dtp := (dtp k)\<lparr>pv_states := ss\<rparr>\<rparr>"
  let ?k = "k\<lparr>portal := p, dtp_time := t, dtp := (dtp k)\<lparr>pv_states := ss\<rparr>\<rparr>"
  have k1': "?k\<lparr>dtp_time := store (St_flag 0) (dtp_time ?k)\<rparr> = k1"
    by (simp add: k1_def kernel_order)
  have wf1: "wf_kernel k1"
    using assms(2) lt(4,5) by (simp add: wf_kernel_def k1_def turn_page_def wf_page_def)
  define k2 where "k2 = dtp_update_configs k1"
  note k2 = update_configs_copies [OF wf1, folded k2_def]
  have p2: "portal k2 = p" "length (pv_states (dtp k2)) = DTP_PORT_NUM"
    using lt(5) by (simp_all add: k2 k1_def)
  from update_states [of k2 h'] lt(2) p2 obtain p3 where
    st: "dtp_update_states E k2 = k2\<lparr>portal := p3, dtp := (dtp k2)\<lparr>
      pv_states := map (\<lambda>i. reg_state h' i (pv_states (dtp k2) ! i)) [0..<DTP_PORT_NUM],
      pv_global_cnt := ucast (cglobal_reg h') + 3\<rparr>\<rparr>" "idle E bar2io view p3 h'"
    by auto
  define p4 where "p4 = snd (run_state (dtp_check_portal E (dtp_verbose (dtp_update_states E k2))) p3)"
  have "idle E bar2io view p4 h'"
    unfolding p4_def using looks_idle [OF looks_check_portal st(2)] by blast
  moreover have "turn_priv k h (dtp (dtp_update_states E k2))"
    unfolding turn_priv_def st(1) using lt(6) regs
    by (intro dtp_priv.equality) (simp_all add: k2 k1_def)
  moreover have "daemon_turn E k = Some ((dtp_update_states E k2)\<lparr>portal := p4\<rparr>)"
    unfolding daemon_turn_locked [OF assms(3) lt(1)] k1' k2_def [symmetric] Let_def p4_def
    by (simp add: st(1))
  moreover have "(dtp_update_states E k2)\<lparr>portal := p4\<rparr> =
      k\<lparr>portal := p4, dtp_time := store (St_flag 0) t, dtp := dtp (dtp_update_states E k2)\<rparr>"
    unfolding st(1) by (simp add: k2 k1_def kernel_order)
  ultimately show ?thesis using lt(3,4) by metis
qed

end

section \<open>The stores of a turn\<close>

text \<open>
  Stores a daemon that holds the lock may make: they leave the flag alone and keep the log's count
  inside its capacity.  What follows holds for any hardware behind the portal.
\<close>

fun under_lock :: "int \<Rightarrow> page_store \<Rightarrow> bool" where
  "under_lock m (St_flag v) = False"
| "under_lock m (St_log_cnt n) = (0 \<le> n \<and> n \<le> m)"
| "under_lock m _ = True"

definition writes :: "page_store list \<Rightarrow> dtp_time \<Rightarrow> dtp_time \<Rightarrow> bool" where
  "writes ss t u \<longleftrightarrow> u = fold store ss t \<and> list_all (under_lock (log_max t)) ss"

lemma store_keeps:
  assumes "under_lock (log_max t) st"
  shows "flag (store st t) = flag t" "log_max (store st t) = log_max t" "wf_page t \<Longrightarrow> wf_page (store st t)"
  using assms by (cases st; simp add: store_def on_cnt_def on_log_def wf_page_def)+

lemma writes_keeps:
  "writes ss t u \<Longrightarrow> flag u = flag t \<and> log_max u = log_max t \<and> (wf_page t \<longrightarrow> wf_page u)"
proof (induction ss arbitrary: t)
  case (Cons st ss)
  then have "writes ss (store st t) u" using store_keeps(2) [of t st] by (simp add: writes_def)
  from Cons.IH [OF this] Cons.prems store_keeps [of t st] show ?case by (simp add: writes_def)
qed (simp add: writes_def)

lemma writes_Nil [simp]: "writes [] t u \<longleftrightarrow> u = t"
  by (simp add: writes_def)

lemma writes_append: "writes ss t u \<Longrightarrow> writes ss' u v \<Longrightarrow> writes (ss @ ss') t v"
  using writes_keeps [of ss t u] by (simp add: writes_def)

lemma insert_writes:
  assumes "wf_page t"
  shows "writes (insert_stores l t) t (dtp_insert_log l t)"
  using assms by (simp add: writes_def dtp_insert_log_def insert_stores_def wf_page_def Let_def)

lemma read_cnt_writes: "\<exists>ss. writes ss (dtp_time k) (dtp_time (dtp_read_cnt_tsc E i k))"
proof -
  obtain a v b p where "dtp_read_cnt_tsc E i k = k\<lparr>portal := p,
      dtp_time := fold store [St_tsc1 (nat i) a, St_tsc2 (nat i) b, St_low (nat i) v] (dtp_time k)\<rparr>"
    unfolding dtp_read_cnt_tsc_def Let_def case_prod_unfold by blast
  then show ?thesis
    by (intro exI [of _ "[St_tsc1 (nat i) a, St_tsc2 (nat i) b, St_low (nat i) v]"]) (simp add: writes_def)
qed

lemma count_pass_writes: "\<exists>ss. writes ss (dtp_time k) (dtp_time (count_pass E is k))"
proof (induction "is" arbitrary: k)
  case Nil
  show ?case by (auto simp: count_pass_def intro!: exI [of _ "[]"])
next
  case (Cons i "is")
  have step: "count_pass E (i # is) k = count_pass E is (if pv_counter (dtp k) ! i \<noteq> 0 then dtp_read_cnt_tsc E (int i) k else k)"
    by (simp add: count_pass_def)
  show ?case
  proof (cases "pv_counter (dtp k) ! i \<noteq> 0")
    case True
    with read_cnt_writes [of k E "int i"] Cons.IH [of "dtp_read_cnt_tsc E (int i) k"] show ?thesis
      unfolding step by (auto intro: writes_append)
  qed (use Cons.IH [of k] step in simp)
qed

lemma send_log_page: "dtp_time (dtp_send_log E k) = dtp_time k"
proof -
  have "dtp_time (fold (send_log_port E) is k) = dtp_time k" for "is"
    by (induction "is" arbitrary: k) (auto simp: send_log_port_def Let_def case_prod_unfold)
  then show ?thesis by (simp add: dtp_send_log_def)
qed

lemma recv_loop_writes:
  "recv_log_loop E i p t = Some r \<Longrightarrow> wf_page t \<longrightarrow> (\<exists>ss. writes ss t (snd r))"
proof (induction rule: recv_log_loop.raw_induct [rotated 1, consumes 1])
  case (1 recv_log_loop E i p t r)
  show ?case
  proof
    assume wf: "wf_page t"
    obtain m p' where rd: "run_state (dtp_read_message E (of_nat i)) p = (m, p')" by force
    show "\<exists>ss. writes ss t (snd r)"
    proof (cases m)
      case None
      with 1(2) rd show ?thesis by (intro exI [of _ "[]"]) auto
    next
      case (Some x)
      obtain ts a b where x: "x = (ts, a, b)" by (cases x)
      let ?l = "\<lparr>log_port = int i, log_timestamp = ts, log_msg1 = a, log_msg2 = b\<rparr>"
      have ins: "writes (insert_stores ?l t) t (dtp_insert_log ?l t)" using wf by (rule insert_writes)
      moreover have "wf_page (dtp_insert_log ?l t)" using writes_keeps [OF ins] wf by simp
      ultimately show ?thesis
        using 1(1) [of E i p' "dtp_insert_log ?l t" r] 1(2) rd Some x by (auto intro: writes_append)
    qed
  qed
qed

lemma recv_log_writes:
  assumes "recv_log_ports E is k = Some k'" "wf_page (dtp_time k)"
  shows "\<exists>ss. writes ss (dtp_time k) (dtp_time k')"
  using assms
proof (induction "is" arbitrary: k)
  case Nil
  then show ?case by (auto intro!: exI [of _ "[]"])
next
  case (Cons i "is")
  then obtain k1 where k1: "recv_log_port E i k = Some k1" "recv_log_ports E is k1 = Some k'"
    by (auto simp: bind_eq_Some_conv)
  then obtain ss where ss: "writes ss (dtp_time k) (dtp_time k1)"
    using recv_loop_writes [of E i "portal k" "dtp_time k"] Cons.prems(2)
    by (auto simp: recv_log_port_def writes_Nil [of "dtp_time k"] split: if_splits dest: meta_spec [of _ "[]"])
  moreover have "wf_page (dtp_time k1)" using writes_keeps [OF ss] Cons.prems(2) by simp
  ultimately show ?case using Cons.IH [OF k1(2)] by (auto intro: writes_append)
qed

lemma update_page: "dtp_time (dtp_update_configs k) = dtp_time k" "dtp_time (dtp_update_states E k) = dtp_time k"
proof -
  have upd: "dtp_time (fold (\<lambda>i k. k\<lparr>dtp := f i k\<rparr>) is k) = dtp_time k" for f "is" k
    by (induction "is" arbitrary: k) simp_all
  show "dtp_time (dtp_update_configs k) = dtp_time k"
    unfolding dtp_update_configs_def Let_def upd by simp
  have "dtp_time (fold (update_state_port E) is k) = dtp_time k" for "is" and k
    by (induction "is" arbitrary: k) (simp_all add: update_state_port_def Let_def case_prod_unfold)
  then show "dtp_time (dtp_update_states E k) = dtp_time k"
    by (simp add: dtp_update_states_def Let_def case_prod_unfold)
qed

text \<open>A whole turn: lock, writes under the lock, unlock.\<close>

lemma turn_stores:
  assumes "daemon_turn E k = Some k'" "pv_mode (dtp k) \<noteq> 0" "wf_page (dtp_time k)"
  shows "\<exists>body u. writes body (store (St_flag 1) (dtp_time k)) u \<and> dtp_time k' = store (St_flag 0) u"
proof -
  let ?t = "store (St_flag 1) (dtp_time k)"
  have wf: "wf_page ?t" using assms(3) by (simp add: store_def wf_page_def)
  then have cnt0: "writes [St_log_cnt 0] ?t (store (St_log_cnt 0) ?t)" by (simp add: writes_def wf_page_def)
  define k1 where "k1 = count_pass E [0..<DTP_PORT_NUM + 1] (k\<lparr>dtp_time := store (St_log_cnt 0) ?t\<rparr>)"
  obtain ss where "writes ss (store (St_log_cnt 0) ?t) (dtp_time k1)"
    using count_pass_writes [of "k\<lparr>dtp_time := store (St_log_cnt 0) ?t\<rparr>" E] by (auto simp: k1_def)
  with cnt0 have one: "writes ([St_log_cnt 0] @ ss) ?t (dtp_time (dtp_send_log E k1))"
    unfolding send_log_page by (rule writes_append)
  have turn: "daemon_turn E k = (case locked_turn E k of None \<Rightarrow> None
      | Some k \<Rightarrow> let k = dtp_update_states E (dtp_update_configs (k\<lparr>dtp_time := store (St_flag 0) (dtp_time k)\<rparr>))
          in Some (k\<lparr>portal := snd (run_state (dtp_check_portal E (dtp_verbose k)) (portal k))\<rparr>))"
    using assms(2) unfolding daemon_turn_def locked_turn_def count_pass_fold Let_def case_prod_unfold
    by (simp del: upt_Suc)
  with assms(1) obtain k2 where
    k2: "locked_turn E k = Some k2" "dtp_time k' = store (St_flag 0) (dtp_time k2)"
    by (auto simp: Let_def update_page split: option.splits)
  then obtain ss' where "writes ss' (dtp_time (dtp_send_log E k1)) (dtp_time k2)"
    using recv_log_writes [of E "[0..<DTP_PORT_NUM]" "dtp_send_log E k1" k2] writes_keeps [OF one] wf
    by (auto simp: locked_turn_def k1_def dtp_recv_log_def)
  with one k2(2) show ?thesis by (blast intro: writes_append)
qed

section \<open>The thread\<close>

definition daemon_ok :: "'d portal_env \<Rightarrow> nat \<Rightarrow> ('d \<Rightarrow> dtp_ctrl portal_view) \<Rightarrow> 'd kernel \<Rightarrow> bool" where
  "daemon_ok E bar2io view k \<longleftrightarrow> wf_kernel k \<and> (\<exists>h. idle E bar2io view (portal k) h)"

lemma turn_keeps_wf:
  assumes "wf_kernel k" "turn_page E bar2io view k h t" "turn_priv k h d"
  shows "wf_kernel (k\<lparr>portal := p, dtp_time := t, dtp := d\<rparr>)"
  using assms by (simp add: wf_kernel_def turn_page_def turn_priv_def wf_page_def)

lemma turn_keeps_ok:
  assumes "dtp_nic E bar2io view" "daemon_ok E bar2io view k"
  shows "\<exists>k'. daemon_turn E k = Some k' \<and> daemon_ok E bar2io view k'"
proof (cases "pv_mode (dtp k) = 0")
  case True
  with assms(2) show ?thesis by (simp add: daemon_turn_def)
next
  case False
  from assms(2) obtain h where "wf_kernel k" "idle E bar2io view (portal k) h"
    by (auto simp: daemon_ok_def)
  with dtp_nic.nic_turn [OF assms(1) this(2,1) False] obtain p h' t d where
    "daemon_turn E k = Some (k\<lparr>portal := p, dtp_time := t, dtp := d\<rparr>)" "idle E bar2io view p h'"
    "turn_page E bar2io view k h t" "turn_priv k h d" by blast
  with turn_keeps_wf [OF \<open>wf_kernel k\<close>] show ?thesis by (auto simp: daemon_ok_def)
qed

section \<open>An example kernel\<close>

definition example_kernel :: "ctrl_dev kernel" where
  "example_kernel =
     (let st = \<lparr>st_msg_cnt = 0xFFFFFFFF, st_state = SYNC, st_delay = 0, st_beacon_interval = 0,
            st_error = 0, st_local_cnt = 0, st_free_cnt = 0\<rparr>;
          e = \<lparr>log_port = 0, log_timestamp = 0, log_msg1 = 0, log_msg2 = 0\<rparr>;
          c = \<lparr>tsc1 = 0, tsc2 = 0, low = 0, high = 0\<rparr>
      in \<lparr>mode = 1, logging = [1, 1, 0, 0], sending = [0, 0, 0, 1], counter = [1, 1, 1, 1, 1],
          dtp_verbose = 2, ref_count = 1,
          dtp = \<lparr>pv_mode = 1, pv_polling_interval = 1, pv_logging = [0, 1, 0, 0],
                 pv_sending = [1, 0, 0, 0], pv_counter = [0, 1, 0, 0, 0], pv_global_cnt = 0,
                 pv_states = [st, st, st, st]\<rparr>,
          dtp_time = \<lparr>flag = 0, reserved = 0, rate = 0, dtp_cnts = [c, c, c, c, c],
                      log_cnt = 1, log_max = 3, log_entries = [e, e, e], stores = []\<rparr>,
          portal = example_portal\<rparr>)"

lemma example_idle: "idle example_env 4096 vw (portal example_kernel) example_ctrl"
  using example_attached by (simp add: idle_def example_kernel_def Let_def)

lemma example_wf: "wf_kernel example_kernel"
  by (simp add: wf_kernel_def example_kernel_def DTP_PORT_NUM_def Let_def)

lemma example_mode: "pv_mode (dtp example_kernel) \<noteq> 0"
  by (simp add: example_kernel_def Let_def)

lemma turn_time: "dtp_time (k\<lparr>portal := p, dtp_time := t, dtp := d\<rparr>) = t"
  by simp

section \<open>Properties of the daemon\<close>

text \<open>
  C1. Take the controller as it is when a turn starts, and let its registers and queues change during the
  turn by the turn's own requests only (\<open>dtp_nic\<close>; what the hardware refreshes meanwhile is not covered, and
  a log queue that is refilled as fast as it is drained would keep the receive loop going).  Then a turn of the running daemon ends.
  Its stores to the shared page are one lock, stores that leave the flag alone, and one unlock.  Afterwards every enabled
  counter's slot holds the counter's value between the time stamps read right before and right after it;
  the log holds the messages of the enabled, synchronised ports in port order, oldest first, cut at
  the page's capacity; those ports' hardware queues are empty and the others untouched; one
  message numbered by the port's message counter was sent for every sending, synchronised port;
  and the driver's record of the ports shows the controller's registers, with its parameters
  copied from the module's except the global counter's flag, which the copy leaves out.
\<close>

theorem daemon_turn_serves_page:
  assumes "dtp_nic E bar2io view" "idle E bar2io view (portal k) h" "wf_kernel k" "pv_mode (dtp k) \<noteq> 0"
  shows "\<exists>p h' t d. daemon_turn E k = Some (k\<lparr>portal := p, dtp_time := t, dtp := d\<rparr>) \<and>
    idle E bar2io view p h' \<and> turn_queues k h h' \<and> turn_page E bar2io view k h t \<and> turn_priv k h d \<and>
    (\<exists>body u. writes body (store (St_flag 1) (dtp_time k)) u \<and> t = store (St_flag 0) u)"
proof -
  from dtp_nic.nic_turn [OF assms] obtain p h' t d where
    turn: "daemon_turn E k = Some (k\<lparr>portal := p, dtp_time := t, dtp := d\<rparr>)" "idle E bar2io view p h'"
      "turn_queues k h h'" "turn_page E bar2io view k h t" "turn_priv k h d" by blast
  from turn_stores [OF turn(1) assms(4) wf_kernel_page [OF assms(3)]] turn show ?thesis by (metis turn_time)
qed

theorem daemon_turn_serves_page_witness:
  "\<exists>k'. daemon_turn example_env example_kernel = Some k' \<and> flag (dtp_time k') = 0 \<and>
    page_log (dtp_time k') =
      [\<lparr>log_port = 1, log_timestamp = 101, log_msg1 = 11, log_msg2 = 21\<rparr>,
       \<lparr>log_port = 1, log_timestamp = 102, log_msg1 = 12, log_msg2 = 22\<rparr>] \<and>
    low (dtp_cnts (dtp_time k') ! 1) = 1004 \<and> st_msg_cnt (pv_states (dtp k') ! 0) = 0"
proof -
  from daemon_turn_serves_page [OF example_env_nic example_idle example_wf example_mode]
  obtain p h' t d where
    turn: "daemon_turn example_env example_kernel = Some (example_kernel\<lparr>portal := p, dtp_time := t, dtp := d\<rparr>)"
      "turn_page example_env 4096 vw example_kernel example_ctrl t" "turn_priv example_kernel example_ctrl d"
    by blast
  have r: "received example_kernel example_ctrl [0..<DTP_PORT_NUM] =
      [\<lparr>log_port = 1, log_timestamp = 101, log_msg1 = 11, log_msg2 = 21\<rparr>,
       \<lparr>log_port = 1, log_timestamp = 102, log_msg1 = 12, log_msg2 = 22\<rparr>]"
    unfolding ports_upt
    by (simp add: received_def receiving_def example_kernel_def Let_def
        example_ctrl_def log_queue_def as_log_def)
  have cap: "log_max (dtp_time example_kernel) = 3" "pv_counter (dtp example_kernel) ! 1 \<noteq> 0"
    by (simp_all add: example_kernel_def Let_def)
  have c: "counter_value example_ctrl 1 = 1004"
    by (simp add: counter_value_def DTP_PORT_NUM_def example_ctrl_def)
  have "sampled example_env 4096 vw example_ctrl 1 (dtp_cnts (dtp_time example_kernel) ! 1) (dtp_cnts t ! 1)"
    using turn(2) cap(2) unfolding turn_page_def by (force simp: DTP_PORT_NUM_def)
  moreover have "page_log t = received example_kernel example_ctrl [0..<DTP_PORT_NUM]" "flag t = 0"
    using turn(2) cap(1) r unfolding turn_page_def by simp_all
  moreover have "st_msg_cnt (pv_states d ! 0) = 0"
    using turn(3) by (simp add: turn_priv_def DTP_PORT_NUM_def reg_state_def bump_def transmitting_def
        example_kernel_def Let_def)
  ultimately show ?thesis using turn(1) r c by (simp add: sampled_def)
qed

text \<open>
  The thread's course: the state \<open>ks m\<close> before turn \<open>m\<close>, where every turn completes and is followed by its sleep.
\<close>

definition course :: "'d portal_env \<Rightarrow> (('d kernel \<Rightarrow> 'd kernel) \<times> bool) list \<Rightarrow> nat \<Rightarrow> (nat \<Rightarrow> 'd kernel) \<Rightarrow> bool" where
  "course E sched n ks \<longleftrightarrow> (\<forall>m \<le> n. \<exists>k1. daemon_turn E (ks m) = Some k1 \<and> ks (Suc m) = fst (sched ! m) k1)"

text \<open>
  C2. The daemon thread ends at the first wake-up at which it is told to stop, and not before: if
  that is wake-up \<open>n\<close>, the thread makes the turns 0 to \<open>n\<close>, each of which completes, sleeps after
  each, and returns with the state after the last sleep.  It starts from a well-formed module state on
  a controller that changes during a turn by the turn's requests only; while the thread sleeps,
  other threads and the hardware may do anything that leaves the module's arrays and the
  portal in order.
\<close>

theorem daemon_thread_stops:
  assumes "dtp_nic E bar2io view" "daemon_ok E bar2io view k"
    and "\<forall>(sleep, stop) \<in> set sched. \<forall>k. daemon_ok E bar2io view k \<longrightarrow> daemon_ok E bar2io view (sleep k)"
    and "n < length sched" "snd (sched ! n)" "\<forall>m < n. \<not> snd (sched ! m)"
  shows "\<exists>ks. ks 0 = k \<and> course E sched n ks \<and> run_dtp_daemon E sched k = Some (ks (Suc n)) \<and>
    (\<forall>m \<le> Suc n. daemon_ok E bar2io view (ks m))"
  using assms(2-6)
proof (induction sched arbitrary: k n)
  case (Cons x sched)
  obtain sleep stop where x: "x = (sleep, stop)" by (cases x)
  from turn_keeps_ok [OF assms(1) Cons.prems(1)] obtain k1 where
    k1: "daemon_turn E k = Some k1" "daemon_ok E bar2io view k1" by blast
  then have ok: "daemon_ok E bar2io view (sleep k1)" using Cons.prems(2) x by auto
  show ?case
  proof (cases n)
    case 0
    with Cons.prems k1 ok x show ?thesis
      by (intro exI [of _ "\<lambda>m. if m = 0 then k else sleep k1"]) (auto simp: course_def le_Suc_eq)
  next
    case (Suc j)
    with Cons.prems(5) x have "\<not> stop" by auto
    have "\<forall>m < j. \<not> snd (sched ! m)" using Cons.prems(5) Suc by auto
    with Cons.IH [OF ok, of j] Cons.prems(2-4) Suc obtain ks where ks: "ks 0 = sleep k1" "course E sched j ks"
      "run_dtp_daemon E sched (sleep k1) = Some (ks (Suc j))" "\<forall>m \<le> Suc j. daemon_ok E bar2io view (ks m)"
      by (simp only: list.set_intros(2) Ball_def length_Cons Suc_less_eq nth_Cons_Suc simp_thms set_ConsD list.set insert_iff) blast
    have "course E (x # sched) n (case_nat k ks)"
      using ks(1,2) k1(1) x Suc by (auto simp: course_def split: nat.splits)
    moreover have "daemon_ok E bar2io view (case_nat k ks m)" if "m \<le> Suc n" for m
      using that ks(4) Cons.prems(1) Suc by (cases m) auto
    ultimately show ?thesis
      using ks(3) k1(1) x Suc \<open>\<not> stop\<close> by (intro exI [of _ "case_nat k ks"]) simp
  qed
qed simp

definition example_sched :: "((ctrl_dev kernel \<Rightarrow> ctrl_dev kernel) \<times> bool) list" where
  "example_sched = [(\<lambda>k. k\<lparr>mode := 0\<rparr>, False), (\<lambda>k. k, True), (\<lambda>k. k, True)]"

theorem daemon_thread_stops_witness:
  "\<exists>ks. ks 0 = example_kernel \<and> course example_env example_sched 1 ks \<and>
     run_dtp_daemon example_env example_sched example_kernel = Some (ks 2)"
proof -
  have "daemon_ok example_env 4096 vw example_kernel"
    using example_idle example_wf by (auto simp: daemon_ok_def)
  moreover have "\<forall>(sleep, stop) \<in> set example_sched.
      \<forall>k. daemon_ok example_env 4096 vw k \<longrightarrow> daemon_ok example_env 4096 vw (sleep k)"
    by (simp add: example_sched_def daemon_ok_def wf_kernel_def)
  ultimately show ?thesis
    using daemon_thread_stops [OF example_env_nic, of example_kernel example_sched 1]
    by (auto simp: example_sched_def numeral_2_eq_2)
qed

text \<open>A daemon that only sleeps until it is stopped.\<close>

fun sleep_only :: "(('d kernel \<Rightarrow> 'd kernel) \<times> bool) list \<Rightarrow> 'd kernel \<Rightarrow> 'd kernel option" where
  "sleep_only [] k = None"
| "sleep_only ((sleep, should_stop) # rest) k = (if should_stop then Some (sleep k) else sleep_only rest (sleep k))"

text \<open>
  C6. A stopped daemon stays stopped: once the running mode is zero the loop only sleeps, and
  since it skips the parameter update too, no later change of the module's mode reaches it.
\<close>

theorem stopped_daemon_only_sleeps:
  assumes "pv_mode (dtp k) = 0" "\<forall>(sleep, stop) \<in> set sched. \<forall>k. dtp (sleep k) = dtp k"
  shows "run_dtp_daemon E sched k = sleep_only sched k"
  using assms
proof (induction sched arbitrary: k)
  case (Cons x sched)
  then show ?case by (cases x) (auto simp: daemon_turn_def)
qed simp

theorem stopped_daemon_only_sleeps_witness:
  "\<exists>k'. run_dtp_daemon example_env [(\<lambda>k. k\<lparr>mode := 1\<rparr>, False), (\<lambda>k. k, True)]
      (example_kernel\<lparr>dtp := (dtp example_kernel)\<lparr>pv_mode := 0\<rparr>\<rparr>) = Some k' \<and>
    mode k' = 1 \<and> pv_mode (dtp k') = 0"
  using stopped_daemon_only_sleeps [of "example_kernel\<lparr>dtp := (dtp example_kernel)\<lparr>pv_mode := 0\<rparr>\<rparr>"
      "[(\<lambda>k. k\<lparr>mode := 1\<rparr>, False), (\<lambda>k. k, True)]" example_env]
  by simp

end
