(* ===== verification/Dtp_Proc.thy ===== *)
theory Dtp_Proc
  imports Dtp_Turn
begin

text \<open>
  The module's interface to user space (\<^verbatim>\<open>src/sw/daemon/kernel.c\<close>): the commands written to
  \<^verbatim>\<open>/proc/dtp\<close>, the text read from it, and the character device that maps the shared page.
  What \<^verbatim>\<open>copy_from_user\<close> delivers and what \<^verbatim>\<open>remap_pfn_range\<close> answers are arguments.
\<close>

section \<open>Character device\<close>

definition dtp_fs_open :: "'d kernel \<Rightarrow> int \<times> 'd kernel" where
  "dtp_fs_open k = (0, k\<lparr>ref_count := ref_count k + 1\<rparr>)"

definition dtp_fs_release :: "'d kernel \<Rightarrow> int \<times> 'd kernel" where
  "dtp_fs_release k = (0, k\<lparr>ref_count := ref_count k - 1\<rparr>)"

record vm_area =
  vm_start :: u64
  vm_end :: u64
  vm_flags :: u64

text \<open>
  The arguments of \<^verbatim>\<open>remap_pfn_range\<close>: start address, page frame of the shared page, size.
  \<^verbatim>\<open>PAGE_SHIFT\<close> is 12; the page's physical address and the flag value are arguments.
\<close>

definition EAGAIN :: int where "EAGAIN = 11"

definition dtp_fs_mmap ::
  "(u64 \<Rightarrow> u64 \<Rightarrow> u64 \<Rightarrow> int) \<Rightarrow> u64 \<Rightarrow> u64 \<Rightarrow> vm_area \<Rightarrow> int \<times> vm_area" where
  "dtp_fs_mmap remap_pfn_range VM_IO pa vma =
     (if remap_pfn_range (vm_start vma) (drop_bit 12 pa) (vm_end vma - vm_start vma) \<noteq> 0
      then (- EAGAIN, vma)
      else (0, vma\<lparr>vm_flags := vm_flags vma OR VM_IO\<rparr>))"

section \<open>Commands\<close>

text \<open>
  A write ends with an error code, or stores outside the handler's buffer or outside one of the
  module's arrays; there the model stops.
\<close>

datatype proc_error = EFAULT | Stack_overwrite | Outside_array

definition dtp_atoi :: "string \<Rightarrow> int" where
  "dtp_atoi p =
     (if p = [] then - 1
      else case sscanf_u p of None \<Rightarrow> - 1 | Some tmp \<Rightarrow> sint tmp)"

text \<open>\<^verbatim>\<open>!strncmp(buf, cmd, strlen(cmd))\<close> on a zero-terminated buffer, and the text after it.\<close>

definition strip_cmd :: "string \<Rightarrow> string \<Rightarrow> string option" where
  "strip_cmd cmd buf = (if take (length cmd) buf = cmd then Some (drop (length cmd) buf) else None)"

text \<open>\<^verbatim>\<open>x[tmp] = x[tmp] ? 0 : 1\<close>; outside the array there is no such element.\<close>

definition toggle :: "int list \<Rightarrow> int \<Rightarrow> int list option" where
  "toggle xs tmp =
     (if 0 \<le> tmp \<and> nat tmp < length xs
      then Some (xs[nat tmp := (if xs ! nat tmp \<noteq> 0 then 0 else 1)])
      else None)"

text \<open>The commands, in the order in which the handler compares them.\<close>

definition dtp_command :: "'d portal_env \<Rightarrow> string \<Rightarrow> 'd kernel \<Rightarrow> proc_error + 'd kernel" where
  "dtp_command E buf k =
     (case strip_cmd ''reset='' buf of
        Some a \<Rightarrow> let tmp = dtp_atoi a
                   in if tmp < 0 then Inl EFAULT
                      else Inr (k\<lparr>portal := snd (run_state (dtp_reset E (of_int tmp)) (portal k))\<rparr>)
      | None \<Rightarrow> (case strip_cmd ''beacon='' buf of
        Some a \<Rightarrow> if dtp_atoi a < 0 then Inl EFAULT else Inr k
      | None \<Rightarrow> (case strip_cmd ''polling='' buf of
        Some a \<Rightarrow> if dtp_atoi a < 0 then Inl EFAULT else Inr k
      | None \<Rightarrow> (case strip_cmd ''logging='' buf of
        Some a \<Rightarrow> let tmp = dtp_atoi a
                   in if tmp < 0 then Inl EFAULT
                      else if tmp \<ge> int DTP_PORT_NUM then Inl EFAULT
                      else (case toggle (logging k) tmp of
                              None \<Rightarrow> Inl Outside_array | Some xs \<Rightarrow> Inr (k\<lparr>logging := xs\<rparr>))
      | None \<Rightarrow> (case strip_cmd ''sending='' buf of
        Some a \<Rightarrow> let tmp = dtp_atoi a
                   in if tmp < 0 then Inl EFAULT
                      else if tmp \<ge> int DTP_PORT_NUM then Inl EFAULT
                      else (case toggle (sending k) tmp of
                              None \<Rightarrow> Inl Outside_array | Some xs \<Rightarrow> Inr (k\<lparr>sending := xs\<rparr>))
      | None \<Rightarrow> (case strip_cmd ''counter='' buf of
        Some a \<Rightarrow> let tmp = dtp_atoi a
                   in if tmp < 0 then Inl EFAULT
                      else if tmp > int DTP_PORT_NUM then Inl EFAULT
                      else (case toggle (counter k) tmp of
                              None \<Rightarrow> Inl Outside_array | Some xs \<Rightarrow> Inr (k\<lparr>counter := xs\<rparr>))
      | None \<Rightarrow> (case strip_cmd ''verbose='' buf of
        Some a \<Rightarrow> let tmp = dtp_atoi a
                   in if tmp < 0 then Inl EFAULT else Inr (k\<lparr>dtp_verbose := tmp\<rparr>)
      | None \<Rightarrow> (case strip_cmd ''stop'' buf of
        Some a \<Rightarrow> Inr (k\<lparr>mode := 0\<rparr>)
      | None \<Rightarrow> (case strip_cmd ''start'' buf of
        Some a \<Rightarrow> Inr (k\<lparr>mode := 1\<rparr>)
      | None \<Rightarrow> Inl EFAULT)))))))))"

text \<open>
  The handler: \<open>copy_from_user count\<close> is the bytes copied, or \<open>None\<close> for a fault.  The
  terminator after a full buffer of 32 bytes lands outside it; the model stops there.
\<close>

definition buf_size :: nat where "buf_size = 32"

definition dtp_proc_write ::
  "'d portal_env \<Rightarrow> (nat \<Rightarrow> string option) \<Rightarrow> nat \<Rightarrow> 'd kernel \<Rightarrow> (proc_error + nat) \<times> 'd kernel" where
  "dtp_proc_write E copy_from_user count k =
     (if count > buf_size then (Inl EFAULT, k)
      else case copy_from_user count of
        None \<Rightarrow> (Inl EFAULT, k)
      | Some bytes \<Rightarrow>
          if count \<ge> buf_size then (Inl Stack_overwrite, k)
          else case dtp_command E (takeWhile (\<lambda>c. c \<noteq> CHR 0x00) (take count bytes)) k of
                 Inl e \<Rightarrow> (Inl e, k)
               | Inr k' \<Rightarrow> (Inr count, k'))"

section \<open>The text of /proc/dtp\<close>

definition dtp_seq_proc_start :: "int \<Rightarrow> int option" where
  "dtp_seq_proc_start pos = (if pos = 0 then Some pos else None)"

definition dtp_seq_proc_next :: "int \<Rightarrow> int option \<times> int" where
  "dtp_seq_proc_next pos = (let pos = pos + 1 in (if pos < 5 then Some pos else None, pos))"

text \<open>The text of one element; \<open>None\<close> when its index is outside the port arrays.\<close>

definition dtp_seq_proc_show :: "int \<Rightarrow> 'd kernel \<Rightarrow> string option" where
  "dtp_seq_proc_show idx k =
     (if idx = 0
      then Some (''DTP mode = '' @ show_int (pv_mode (dtp k)) @ '', Global counter = '' @
           hex16 (pv_global_cnt (dtp k)) @ [CHR 0x0A])
      else if idx < 1 \<or> int DTP_PORT_NUM < idx then None
      else let i = nat (idx - 1); state = pv_states (dtp k) ! i
           in Some (''Port '' @ show_int (idx - 1) @ '' : logging = '' @ show_int (pv_logging (dtp k) ! i) @
              '', sending = '' @ show_int (pv_sending (dtp k) ! i) @
              '' counter = '' @ show_int (pv_counter (dtp k) ! i) @ [CHR 0x0A] @
              ''state = '' @ show_nat (unat (st_state state)) @ '', delay = '' @
              show_nat (unat (st_delay state)) @ '', beacon_interval = '' @
              show_nat (unat (st_beacon_interval state)) @ [CHR 0x0A] @
              ''Local counter = '' @ hex16 (st_local_cnt state) @ '', Free counter = '' @
              hex16 (st_free_cnt state) @ [CHR 0x0A] @
              ''Error = '' @ hex16 (st_error state) @ [CHR 0x0A]))"

text \<open>
  The positions the sequence-file code of the kernel shows: what \<open>dtp_seq_proc_start\<close> gives and,
  after each element, what \<open>dtp_seq_proc_next\<close> gives.  They are element numbers, not offsets in
  the text; that code, its buffer and where it cuts a long read are the kernel's.
\<close>

inductive shown :: "int \<Rightarrow> bool" where
  first: "dtp_seq_proc_start pos = Some v \<Longrightarrow> shown v"
| next_element: "shown v \<Longrightarrow> dtp_seq_proc_next v = (Some v', pos') \<Longrightarrow> shown v'"

section \<open>Lemmas\<close>

lemma strip_cmd_append [simp]: "strip_cmd cmd (cmd @ a) = Some a"
  by (simp add: strip_cmd_def)

text \<open>\<^verbatim>\<open>%u\<close> stores the number modulo $2^{32}$, and the handler reads that as a signed number.\<close>

lemma dtp_atoi_show_nat:
  assumes "\<And>c cs. rest = c # cs \<Longrightarrow> \<not> digit_val c < 10"
  shows "dtp_atoi (show_nat n @ rest) =
    (if n mod 2 ^ 32 < 2 ^ 31 then int (n mod 2 ^ 32) else int (n mod 2 ^ 32) - 2 ^ 32)"
proof -
  define w :: u32 where "w = of_nat n"
  have u: "unat w = n mod 2 ^ 32" by (simp add: w_def unat_of_nat)
  have "uint w < 2 ^ 32" "0 \<le> uint w" using uint_lt2p [of w] by simp_all
  then have "sint w = (if uint w < 2 ^ 31 then uint w else uint w - 2 ^ 32)"
    using minus_mod_self2 [of "uint w + 2147483648" 4294967296]
    by (auto simp: sint_uint signed_take_bit_eq_take_bit_shift take_bit_eq_mod not_less
        dest: sym mod_pos_pos_trivial [of "uint w - 2147483648" 4294967296, rotated])
  moreover have "uint w = int (unat w)" by simp
  ultimately have sint: "sint w = (if unat w < 2 ^ 31 then int (unat w) else int (unat w) - 2 ^ 32)"
    by (simp only: of_nat_less_iff [symmetric, where 'a = int] of_nat_power of_nat_numeral)
  have "sscanf_u (show_nat n @ rest) = Some w"
    unfolding w_def by (rule sscanf_u_show_nat) (use assms in blast)
  then have "dtp_atoi (show_nat n @ rest) = sint w" by (simp add: dtp_atoi_def)
  with sint show ?thesis unfolding u by (rule trans [rotated])
qed

text \<open>Errors change nothing, and commands change one thing each.\<close>

lemma proc_write_error: "fst (dtp_proc_write E cp n k) = Inl e \<Longrightarrow> snd (dtp_proc_write E cp n k) = k"
  by (auto simp: dtp_proc_write_def split: if_splits option.splits sum.splits)

lemma toggle_inside: "0 \<le> i \<Longrightarrow> i < int (length xs) \<Longrightarrow>
  toggle xs i = Some (xs[nat i := (if xs ! nat i \<noteq> 0 then 0 else 1)])"
  by (simp add: toggle_def)

lemma toggle_length: "toggle xs i = Some ys \<Longrightarrow> length ys = length xs"
  by (auto simp: toggle_def split: if_splits)

lemma toggle_outside: "toggle xs i = None \<longleftrightarrow> i < 0 \<or> int (length xs) \<le> i"
  by (auto simp: toggle_def)

lemma dtp_command_cases:
  assumes "dtp_command E buf k = Inr k'"
  shows "(\<exists>v. k' = k\<lparr>portal := snd (run_state (dtp_reset E v) (portal k))\<rparr>) \<or> k' = k \<or>
    (\<exists>i xs. toggle (logging k) i = Some xs \<and> k' = k\<lparr>logging := xs\<rparr>) \<or>
    (\<exists>i xs. toggle (sending k) i = Some xs \<and> k' = k\<lparr>sending := xs\<rparr>) \<or>
    (\<exists>i xs. toggle (counter k) i = Some xs \<and> k' = k\<lparr>counter := xs\<rparr>) \<or>
    (\<exists>v. 0 \<le> v \<and> k' = k\<lparr>dtp_verbose := v\<rparr>) \<or> k' = k\<lparr>mode := 0\<rparr> \<or> k' = k\<lparr>mode := 1\<rparr>"
  using assms unfolding dtp_command_def Let_def
  by (simp split: option.splits if_splits) (metis not_le)+

lemma dtp_command_inside:
  assumes "wf_kernel k"
  shows "dtp_command E buf k \<noteq> Inl Outside_array" "dtp_command E buf k \<noteq> Inl Stack_overwrite"
  using assms unfolding dtp_command_def Let_def wf_kernel_def
  by (simp_all add: toggle_inside not_less not_le split: option.split)

text \<open>A complete line as a shell writes it, and the handler on it.\<close>

definition line :: "string \<Rightarrow> nat \<Rightarrow> string" where
  "line cmd n = cmd @ show_nat n @ [CHR 0x0A]"

definition proc_line :: "'d portal_env \<Rightarrow> string \<Rightarrow> 'd kernel \<Rightarrow> (proc_error + nat) \<times> 'd kernel" where
  "proc_line E s k = dtp_proc_write E (\<lambda>_. Some s) (length s) k"

lemma show_nat_no_nul: "CHR 0x00 \<notin> set (show_nat n)"
  using show_nat_digits [of "CHR 0x00" n] by (auto simp: digit_val_def)

lemma proc_line_command:
  assumes "CHR 0x00 \<notin> set s" "length s < buf_size"
  shows "proc_line E s k = (case dtp_command E s k of Inl e \<Rightarrow> (Inl e, k) | Inr k' \<Rightarrow> (Inr (length s), k'))"
proof -
  have tw: "takeWhile (\<lambda>c. c \<noteq> CHR 0x00) s = s" using assms(1) by (auto simp: takeWhile_eq_all_conv)
  show ?thesis using assms(2) by (simp add: proc_line_def dtp_proc_write_def tw split: sum.splits)
qed

lemma atoi_line: "dtp_atoi (show_nat n @ [CHR 0x0A]) =
    (if n mod 2 ^ 32 < 2 ^ 31 then int (n mod 2 ^ 32) else int (n mod 2 ^ 32) - 2 ^ 32)"
  by (rule dtp_atoi_show_nat) (auto simp: digit_val_def)

lemma port_line_commands:
  fixes n :: nat and k :: "'d kernel"
  assumes "wf_kernel k"
  defines "p \<equiv> n mod 2 ^ 32" and "flip \<equiv> \<lambda>xs :: int list. xs[n mod 2 ^ 32 := if xs ! (n mod 2 ^ 32) = 0 then 1 else 0]"
  shows "dtp_command E (line ''logging='' n) k =
      (if p < DTP_PORT_NUM then Inr (k\<lparr>logging := flip (logging k)\<rparr>) else Inl EFAULT)"
    "dtp_command E (line ''sending='' n) k =
      (if p < DTP_PORT_NUM then Inr (k\<lparr>sending := flip (sending k)\<rparr>) else Inl EFAULT)"
    "dtp_command E (line ''counter='' n) k =
      (if p \<le> DTP_PORT_NUM then Inr (k\<lparr>counter := flip (counter k)\<rparr>) else Inl EFAULT)"
proof -
  have "dtp_atoi (show_nat n @ [CHR 0x0A]) = (if p < 2 ^ 31 then int p else int p - 2 ^ 32)"
    unfolding p_def by (rule atoi_line)
  moreover have "p < 2 ^ 32" by (simp add: p_def)
  moreover note assms(1) [unfolded wf_kernel_def]
  ultimately show "dtp_command E (line ''logging='' n) k =
      (if p < DTP_PORT_NUM then Inr (k\<lparr>logging := flip (logging k)\<rparr>) else Inl EFAULT)"
    "dtp_command E (line ''sending='' n) k =
      (if p < DTP_PORT_NUM then Inr (k\<lparr>sending := flip (sending k)\<rparr>) else Inl EFAULT)"
    "dtp_command E (line ''counter='' n) k =
      (if p \<le> DTP_PORT_NUM then Inr (k\<lparr>counter := flip (counter k)\<rparr>) else Inl EFAULT)"
    unfolding flip_def p_def [symmetric]
    by (auto simp: dtp_command_def line_def strip_cmd_def Let_def toggle_inside DTP_PORT_NUM_def)
qed

text \<open>The elements shown are the mode line and the four ports, and each can be shown.\<close>

lemma shown_elements: "shown v \<longleftrightarrow> 0 \<le> v \<and> v \<le> int DTP_PORT_NUM"
proof
  show "shown v \<Longrightarrow> 0 \<le> v \<and> v \<le> int DTP_PORT_NUM"
    by (induction rule: shown.induct)
      (auto simp: dtp_seq_proc_start_def dtp_seq_proc_next_def DTP_PORT_NUM_def Let_def split: if_splits)
  have "shown (int i)" if "i \<le> DTP_PORT_NUM" for i
    using that
  proof (induction i)
    case 0
    show ?case using shown.first [of 0 0] by (simp add: dtp_seq_proc_start_def)
  next
    case (Suc i)
    then show ?case
      using shown.next_element [of "int i" "int i + 1" "int i + 1"]
      by (simp add: dtp_seq_proc_next_def DTP_PORT_NUM_def Let_def add.commute)
  qed
  from this [of "nat v"] show "0 \<le> v \<and> v \<le> int DTP_PORT_NUM \<Longrightarrow> shown v" by (simp add: nat_le_iff)
qed

lemma shown_inside: "shown v \<Longrightarrow> dtp_seq_proc_show v k \<noteq> None"
  by (simp add: shown_elements dtp_seq_proc_show_def Let_def)

text \<open>A read that starts behind the first element finds none: a listing cut after some elements ends there.\<close>

lemma restart_gives_nothing: "pos \<noteq> 0 \<Longrightarrow> dtp_seq_proc_start pos = None"
  by (simp add: dtp_seq_proc_start_def)

lemma length_line_digit: "n < 10 \<Longrightarrow> length (line cmd n) = length cmd + 2"
  by (subst line_def, subst show_nat.simps) simp

section \<open>Properties\<close>

text \<open>
  C11. Whatever bytes user space writes to \<^verbatim>\<open>/proc/dtp\<close>: no command reads or writes the flag
  arrays outside their bounds, whatever number it carries; a write that returns an error leaves
  the module's state as it was; the shared page and the daemon's private structure are never
  touched; success returns the byte count; and the terminator is written outside the buffer
  exactly when 32 bytes were delivered.
\<close>

theorem proc_write_is_safe:
  assumes "wf_kernel k" "dtp_proc_write E copy_from_user count k = (r, k')"
  shows "r \<noteq> Inl Outside_array \<and> wf_kernel k' \<and>
    dtp_time k' = dtp_time k \<and> dtp k' = dtp k \<and> ref_count k' = ref_count k \<and>
    (\<forall>e. r = Inl e \<longrightarrow> k' = k) \<and> (\<forall>n. r = Inr n \<longrightarrow> n = count \<and> count < buf_size) \<and>
    (r = Inl Stack_overwrite \<longleftrightarrow> count = buf_size \<and> copy_from_user count \<noteq> None)"
proof -
  have "wf_kernel k' \<and> dtp_time k' = dtp_time k \<and> dtp k' = dtp k \<and> ref_count k' = ref_count k"
  proof (cases r)
    case (Inl e)
    with proc_write_error [of E copy_from_user count k e] assms show ?thesis by simp
  next
    case (Inr n)
    with assms(2) obtain s where "dtp_command E s k = Inr k'"
      by (auto simp: dtp_proc_write_def split: if_splits option.splits sum.splits)
    from dtp_command_cases [OF this] assms(1) show ?thesis
      by (elim disjE exE conjE) (simp_all add: wf_kernel_def toggle_length)
  qed
  moreover have "\<forall>e. r = Inl e \<longrightarrow> k' = k"
    using proc_write_error [of E copy_from_user count k] assms(2) by auto
  moreover have "r \<noteq> Inl Outside_array \<and> (\<forall>n. r = Inr n \<longrightarrow> n = count \<and> count < buf_size) \<and>
    (r = Inl Stack_overwrite \<longleftrightarrow> count = buf_size \<and> copy_from_user count \<noteq> None)"
    using assms dtp_command_inside [OF assms(1)]
    by (auto simp: dtp_proc_write_def split: if_splits option.splits sum.splits)
  ultimately show ?thesis by blast
qed

theorem proc_write_is_safe_witness:
  "fst (dtp_proc_write example_env (\<lambda>_. Some ''counter=4'') 9 example_kernel) \<noteq> Inl Outside_array \<and>
   snd (dtp_proc_write example_env (\<lambda>_. Some ''counter=5'') 9 example_kernel) = example_kernel"
  using proc_write_is_safe [OF example_wf, of example_env "\<lambda>_. Some ''counter=4''" 9]
    proc_write_is_safe [OF example_wf, of example_env "\<lambda>_. Some ''counter=5''" 9 "Inl EFAULT" example_kernel]
  by (cases "dtp_proc_write example_env (\<lambda>_. Some ''counter=4'') 9 example_kernel")
    (simp add: dtp_proc_write_def dtp_command_def strip_cmd_def Let_def dtp_atoi_def sscanf_u_def
      is_space_def digit_val_def scan_base_def DTP_PORT_NUM_def buf_size_def)

text \<open>
  C29. A line that names a port by a decimal number \<open>n\<close> below $2^{64}$, and is shorter than the
  handler's buffer of 32 bytes, acts on the port \<open>n mod 2 ^ 32\<close>, since the handler reads the number with
  \<^verbatim>\<open>%u\<close>: the logging and sending commands accept exactly the card's ports, the counter command
  also the global counter's slot; they return the line's length and change nothing but that
  port's flag, which becomes 0 if it was set and 1 if it was 0; on every other port they return
  \<^verbatim>\<open>-EFAULT\<close> and change nothing.  (So 4294967298 switches port 2.)
\<close>

theorem proc_lines_switch_named_port:
  assumes "wf_kernel k" "length (line ''logging='' n) < buf_size" "n < 2 ^ 64" "p = n mod 2 ^ 32"
  shows "proc_line E (line ''logging='' n) k =
      (if p < DTP_PORT_NUM
       then (Inr (length (line ''logging='' n)),
             k\<lparr>logging := (logging k)[p := if logging k ! p = 0 then 1 else 0]\<rparr>)
       else (Inl EFAULT, k)) \<and>
    proc_line E (line ''sending='' n) k =
      (if p < DTP_PORT_NUM
       then (Inr (length (line ''sending='' n)),
             k\<lparr>sending := (sending k)[p := if sending k ! p = 0 then 1 else 0]\<rparr>)
       else (Inl EFAULT, k)) \<and>
    proc_line E (line ''counter='' n) k =
      (if p \<le> DTP_PORT_NUM
       then (Inr (length (line ''counter='' n)),
             k\<lparr>counter := (counter k)[p := if counter k ! p = 0 then 1 else 0]\<rparr>)
       else (Inl EFAULT, k))"
proof -
  have nul: "CHR 0x00 \<notin> set (line cmd n)" if "CHR 0x00 \<notin> set cmd" for cmd
    using that show_nat_no_nul by (simp add: line_def)
  have len: "length (line ''sending='' n) < buf_size" "length (line ''counter='' n) < buf_size"
    using assms(2) by (simp_all add: line_def)
  show ?thesis
    using assms(2,4) len by (simp add: proc_line_command nul port_line_commands [OF assms(1)])
qed

theorem proc_lines_switch_named_port_witness:
  "proc_line example_env (line ''logging='' 2) example_kernel =
     (Inr 10, example_kernel\<lparr>logging := [1, 1, 1, 0]\<rparr>) \<and>
   proc_line example_env (line ''logging='' 1) example_kernel =
     (Inr 10, example_kernel\<lparr>logging := [1, 0, 0, 0]\<rparr>) \<and>
   proc_line example_env (line ''sending='' 7) example_kernel = (Inl EFAULT, example_kernel)"
  using proc_lines_switch_named_port [OF example_wf, of 2 2 example_env]
    proc_lines_switch_named_port [OF example_wf, of 1 1 example_env]
    proc_lines_switch_named_port [OF example_wf, of 7 7 example_env]
  by (simp add: length_line_digit buf_size_def DTP_PORT_NUM_def)
    (simp add: example_kernel_def Let_def numeral_2_eq_2)

text \<open>
  C37. A logging command takes effect through the daemon: after the command and one turn the
  daemon receives messages from that port exactly when its flag was 0 before the command and the
  controller reports the port synchronised, so the command switches it off as well as on; the
  other ports keep the flags they had.  During the turn the controller changes by the turn's own
  requests only.
\<close>

theorem logging_command_reaches_daemon:
  assumes "dtp_nic E bar2io view" "idle E bar2io view (portal k) h" "wf_kernel k" "pv_mode (dtp k) \<noteq> 0"
    and "i < DTP_PORT_NUM"
  shows "\<exists>k'. daemon_turn E (snd (proc_line E (line ''logging='' i) k)) = Some k' \<and>
    (\<forall>j < DTP_PORT_NUM. receiving k' j \<longleftrightarrow>
       (if j = i then logging k ! j = 0 else logging k ! j \<noteq> 0) \<and> state_reg h (of_nat j) = SYNC)"
proof -
  let ?k = "k\<lparr>logging := (logging k)[i := if logging k ! i = 0 then 1 else 0]\<rparr>"
  have "i < 10" "i mod 2 ^ 32 = i" using assms(5) by (simp_all add: DTP_PORT_NUM_def)
  moreover have "CHR 0x00 \<notin> set (line ''logging='' i)" using show_nat_no_nul by (simp add: line_def)
  ultimately have cmd: "snd (proc_line E (line ''logging='' i) k) = ?k"
    using assms(5) port_line_commands(1) [OF assms(3), of E i]
    by (simp add: proc_line_command length_line_digit buf_size_def)
  have "wf_kernel ?k" using assms(3) by (simp add: wf_kernel_def)
  moreover have "pv_mode (dtp ?k) \<noteq> 0" "idle E bar2io view (portal ?k) h" using assms(2,4) by simp_all
  ultimately obtain p h' t d where
    turn: "daemon_turn E ?k = Some (?k\<lparr>portal := p, dtp_time := t, dtp := d\<rparr>)" "turn_priv ?k h d"
    using dtp_nic.nic_turn [OF assms(1)] by blast
  have "length (logging k) = DTP_PORT_NUM" using assms(3) by (simp add: wf_kernel_def)
  then have "receiving (?k\<lparr>portal := p, dtp_time := t, dtp := d\<rparr>) j \<longleftrightarrow>
      (if j = i then logging k ! j = 0 else logging k ! j \<noteq> 0) \<and> state_reg h (of_nat j) = SYNC"
    if "j < DTP_PORT_NUM" for j
    using turn(2) that by (simp add: receiving_def turn_priv_def reg_state_def nth_list_update)
  with turn(1) cmd show ?thesis by auto
qed

theorem logging_command_reaches_daemon_witness:
  "\<exists>k'. daemon_turn example_env (snd (proc_line example_env (line ''logging='' 0) example_kernel)) = Some k' \<and>
     \<not> receiving k' 0 \<and> receiving k' 1"
proof -
  from logging_command_reaches_daemon [OF example_env_nic example_idle example_wf example_mode, of 0] obtain k' where
    turn: "daemon_turn example_env (snd (proc_line example_env (line ''logging='' 0) example_kernel)) = Some k'"
    and recv: "\<forall>j < DTP_PORT_NUM. receiving k' j \<longleftrightarrow>
       (if j = 0 then logging example_kernel ! j = 0 else logging example_kernel ! j \<noteq> 0) \<and> state_reg example_ctrl (of_nat j) = SYNC"
    by (auto simp: DTP_PORT_NUM_def)
  have "logging example_kernel = [1, 1, 0, 0]" by (simp add: example_kernel_def Let_def)
  with recv [rule_format, of 0] recv [rule_format, of 1] turn show ?thesis
    by (auto simp: DTP_PORT_NUM_def example_ctrl_def SYNC_def)
qed

end
