(* ===== verification/Dtp_Module.thy ===== *)
theory Dtp_Module
  imports Dtp_Proc
begin

text \<open>
  Loading and unloading of the daemon's kernel module: \<^verbatim>\<open>dtp_init\<close> and \<^verbatim>\<open>dtp_exit\<close> of
  \<^verbatim>\<open>src/sw/daemon/kernel.c\<close> and of its predecessor \<^verbatim>\<open>src/sw/daemon/dtp.c\<close>, and the start-up
  self-test.  The answers of the kernel's allocation and registration calls are an argument;
  the module's obligation is the list of resources it holds.
\<close>

section \<open>Resources\<close>

datatype resource =
  Priv_mem | Proc_entry | Dev_class | Chrdev_region | Char_dev | Device_node | Time_page | Daemon_thread

text \<open>
  \<^verbatim>\<open>device_create\<close> and \<^verbatim>\<open>kthread_run\<close> report a failure by an error pointer, which is not null;
  the module compares their answers with null.
\<close>

datatype pointer_answer = Valid_ptr | Err_ptr int | Null_ptr

record kernel_answers =
  kzalloc_ok :: bool
  portal_descriptor :: "nat option"
  proc_create_ok :: bool
  class_create :: int
  alloc_chrdev_region :: int
  cdev_add :: int
  device_create :: pointer_answer
  zeroed_page_ok :: bool
  kthread_run :: pointer_answer

text \<open>
  Resources held, most recent first; pages handed to \<^verbatim>\<open>kfree\<close>, which is for slab memory only
  and does not release them; and the pointer \<^verbatim>\<open>dtp_daemon\<close>, null before the first load.
\<close>

record 'd loader =
  held :: "resource list"
  misfreed :: "resource list"
  daemon :: pointer_answer
  kern :: "'d kernel"

definition acquire :: "resource \<Rightarrow> 'd loader \<Rightarrow> 'd loader" where
  "acquire r s = s\<lparr>held := r # held s\<rparr>"

definition release :: "resource \<Rightarrow> 'd loader \<Rightarrow> 'd loader" where
  "release r s = s\<lparr>held := remove1 r (held s)\<rparr>"

definition kfree_page :: "'d loader \<Rightarrow> 'd loader" where
  "kfree_page s = s\<lparr>misfreed := Time_page # misfreed s\<rparr>"

definition ENOMEM :: int where "ENOMEM = 12"
definition EINVAL :: int where "EINVAL = 22"

section \<open>Initial state\<close>

text \<open>\<^verbatim>\<open>kzalloc\<close> and the parameter loop.\<close>

definition zero_state :: dtp_state where
  "zero_state = \<lparr>st_msg_cnt = 0, st_state = 0, st_delay = 0, st_beacon_interval = 0, st_error = 0,
     st_local_cnt = 0, st_free_cnt = 0\<rparr>"

definition zero_priv :: dtp_priv where
  "zero_priv = \<lparr>pv_mode = 0, pv_polling_interval = 0, pv_logging = replicate DTP_PORT_NUM 0,
     pv_sending = replicate DTP_PORT_NUM 0, pv_counter = replicate (DTP_PORT_NUM + 1) 0,
     pv_global_cnt = 0, pv_states = replicate DTP_PORT_NUM zero_state\<rparr>"

definition init_param_step :: "'d kernel \<Rightarrow> nat \<Rightarrow> dtp_priv \<Rightarrow> dtp_priv" where
  "init_param_step k i d = d\<lparr>
     pv_logging := (if logging k ! i \<noteq> 0 then (pv_logging d)[i := 1] else pv_logging d),
     pv_sending := (if sending k ! i \<noteq> 0 then (pv_sending d)[i := 1] else pv_sending d),
     pv_counter := (if counter k ! i \<noteq> 0 then (pv_counter d)[i := 1] else pv_counter d)\<rparr>"

definition init_params :: "'d kernel \<Rightarrow> 'd kernel" where
  "init_params k =
     (let d = zero_priv\<lparr>pv_mode := mode k\<rparr>;
          d = fold (init_param_step k) [0..<DTP_PORT_NUM] d;
          d = d\<lparr>pv_counter := (if counter k ! DTP_PORT_NUM \<noteq> 0
                                then (pv_counter d)[DTP_PORT_NUM := 1] else pv_counter d)\<rparr>
      in k\<lparr>dtp := d\<rparr>)"

definition init_portal :: "'d portal_env \<Rightarrow> nat \<Rightarrow> 'd kernel \<Rightarrow> 'd kernel" where
  "init_portal E bar2io k =
     k\<lparr>portal := snd (run_state
         (do { dtp_set_beacon_interval E 0 250;
               dtp_set_beacon_interval E 1 500;
               dtp_set_beacon_interval E 2 750 }) (dtp_portal_init E bar2io (portal k)))\<rparr>"

text \<open>
  The sizes of the C structures with the padding of a 64-bit target: the log entry is an
  \<^verbatim>\<open>int\<close> padded to eight bytes and three 64-bit words, the page header three 32-bit words
  padded to sixteen bytes, five counters of four 64-bit words and two 32-bit words.
\<close>

definition PAGE_SIZE :: nat where "PAGE_SIZE = 4096"
definition sizeof_dtp_log :: nat where "sizeof_dtp_log = 8 + 3 * 8"
definition sizeof_dtp_time :: nat where "sizeof_dtp_time = 16 + (DTP_PORT_NUM + 1) * 32 + 2 * 4"

definition page_log_max :: nat where
  "page_log_max = (PAGE_SIZE - sizeof_dtp_time) div sizeof_dtp_log"

definition zero_page :: dtp_time where
  "zero_page =
     \<lparr>flag = 0, reserved = 0, rate = 0,
      dtp_cnts = replicate (DTP_PORT_NUM + 1) \<lparr>tsc1 = 0, tsc2 = 0, low = 0, high = 0\<rparr>,
      log_cnt = 0, log_max = 0,
      log_entries = replicate page_log_max \<lparr>log_port = 0, log_timestamp = 0, log_msg1 = 0, log_msg2 = 0\<rparr>,
      stores = []\<rparr>"

section \<open>kernel.c\<close>

text \<open>The error labels of \<^verbatim>\<open>dtp_init\<close>, each falling through to the next.\<close>

definition error_dtp :: "int \<Rightarrow> 'd loader \<Rightarrow> int \<times> 'd loader" where
  "error_dtp status s = (status, release Priv_mem s)"

definition error_proc :: "int \<Rightarrow> 'd loader \<Rightarrow> int \<times> 'd loader" where
  "error_proc status s = error_dtp status (release Proc_entry s)"

definition error_class :: "int \<Rightarrow> 'd loader \<Rightarrow> int \<times> 'd loader" where
  "error_class status s = error_proc status (release Dev_class s)"

definition error_region :: "int \<Rightarrow> 'd loader \<Rightarrow> int \<times> 'd loader" where
  "error_region status s = error_class status (release Chrdev_region s)"

definition error_cdev :: "int \<Rightarrow> 'd loader \<Rightarrow> int \<times> 'd loader" where
  "error_cdev status s = error_region status (release Char_dev s)"

definition error_device :: "int \<Rightarrow> 'd loader \<Rightarrow> int \<times> 'd loader" where
  "error_device status s = error_cdev status (release Device_node s)"

definition error_mem :: "int \<Rightarrow> 'd loader \<Rightarrow> int \<times> 'd loader" where
  "error_mem status s = error_device status (kfree_page s)"

definition dtp_init :: "'d portal_env \<Rightarrow> kernel_answers \<Rightarrow> 'd loader \<Rightarrow> int \<times> 'd loader" where
  "dtp_init E a s =
     (if \<not> kzalloc_ok a then (- ENOMEM, s)
      else let s = acquire Priv_mem s; s = s\<lparr>kern := init_params (kern s)\<rparr>
      in case portal_descriptor a of
           None \<Rightarrow> error_dtp 0 s
         | Some bar2io \<Rightarrow>
      let s = s\<lparr>kern := init_portal E bar2io (kern s)\<rparr>
      in if \<not> proc_create_ok a then error_dtp 0 s
      else let s = acquire Proc_entry s
      in if class_create a < 0 then error_proc (class_create a) s
      else let s = acquire Dev_class s
      in if alloc_chrdev_region a < 0 then error_class (- EINVAL) s
      else let s = acquire Chrdev_region s
      in if cdev_add a < 0 then error_region (cdev_add a) s
      else let s = acquire Char_dev s
      in if device_create a = Null_ptr then error_cdev (- 1) s
      else let s = (if device_create a = Valid_ptr then acquire Device_node s else s)
      in if \<not> zeroed_page_ok a then error_device (- ENOMEM) s
      else let s = acquire Time_page s;
               s = s\<lparr>kern := (kern s)\<lparr>dtp_time := zero_page\<lparr>log_max := int page_log_max\<rparr>\<rparr>\<rparr>;
               s = s\<lparr>daemon := kthread_run a\<rparr>
      in if daemon s = Null_ptr then error_mem (- ENOMEM) s
      else (0, if daemon s = Valid_ptr then acquire Daemon_thread s else s))"

text \<open>Unloading follows \<^verbatim>\<open>dtp_daemon\<close> to stop the thread; with no task behind it the model stops there.\<close>

definition dtp_exit :: "'d loader \<Rightarrow> 'd loader option" where
  "dtp_exit s =
     (if daemon s \<noteq> Valid_ptr then None
      else Some (release Priv_mem (release Proc_entry (release Dev_class (release Chrdev_region
       (release Char_dev (release Device_node (release Time_page (release Daemon_thread s)))))))))"

text \<open>The start-up self-test: ten rounds of queries; the answers are only printed.\<close>

definition dtp_self_test :: "'d portal_env \<Rightarrow> ('d portal, unit) state" where
  "dtp_self_test E =
     do { for_each [0..<4] (\<lambda>i. dtp_reset E (of_nat i));
          for_each [0..<10] (\<lambda>i.
            do { dtp_read_version E;
                 for_each [0..<4] (\<lambda>j.
                   do { dtp_read_cnt E (of_nat j);
                        dtp_read_delay E (of_nat j);
                        dtp_read_state E (of_nat j);
                        dtp_read_error E (of_nat j);
                        State_Monad.return () }) }) }"

section \<open>dtp.c\<close>

definition old_error_class :: "int \<Rightarrow> 'd loader \<Rightarrow> int \<times> 'd loader" where
  "old_error_class status s = (status, release Dev_class s)"

definition old_error_region :: "int \<Rightarrow> 'd loader \<Rightarrow> int \<times> 'd loader" where
  "old_error_region status s = old_error_class status (release Chrdev_region s)"

definition old_error_cdev :: "int \<Rightarrow> 'd loader \<Rightarrow> int \<times> 'd loader" where
  "old_error_cdev status s = old_error_region status (release Char_dev s)"

definition old_error_device :: "int \<Rightarrow> 'd loader \<Rightarrow> int \<times> 'd loader" where
  "old_error_device status s = old_error_cdev status (release Device_node s)"

definition old_error_mem :: "int \<Rightarrow> 'd loader \<Rightarrow> int \<times> 'd loader" where
  "old_error_mem status s = old_error_device status (kfree_page s)"



section \<open>Unwinding\<close>

text \<open>No call before the thread's start fails in a way the module notices.\<close>

definition answers_ok :: "kernel_answers \<Rightarrow> bool" where
  "answers_ok a \<longleftrightarrow> kzalloc_ok a \<and> portal_descriptor a \<noteq> None \<and> proc_create_ok a \<and> 0 \<le> class_create a \<and>
     0 \<le> alloc_chrdev_region a \<and> 0 \<le> cdev_add a \<and> device_create a \<noteq> Null_ptr \<and> zeroed_page_ok a"


lemma loader_simps [simp]:
  "held (acquire r s) = r # held s" "held (release r s) = remove1 r (held s)" "held (kfree_page s) = held s"
  "misfreed (acquire r s) = misfreed s" "misfreed (release r s) = misfreed s"
  "misfreed (kfree_page s) = Time_page # misfreed s"
  "daemon (acquire r s) = daemon s" "daemon (release r s) = daemon s" "daemon (kfree_page s) = daemon s"
  by (simp_all add: acquire_def release_def kfree_page_def)

lemmas error_labels =
  error_dtp_def error_proc_def error_class_def error_region_def error_cdev_def error_device_def
  error_mem_def old_error_class_def old_error_region_def old_error_cdev_def old_error_device_def
  old_error_mem_def

text \<open>What a load that fails before the thread's start leaves behind.\<close>

lemma dtp_init_fails:
  assumes "\<not> answers_ok a"
  shows "held s = [] \<Longrightarrow> held (snd (dtp_init E a s)) = []" "misfreed (snd (dtp_init E a s)) = misfreed s"
    "daemon (snd (dtp_init E a s)) = daemon s"
    "fst (dtp_init E a s) = 0 \<longleftrightarrow> kzalloc_ok a \<and> (portal_descriptor a = None \<or> \<not> proc_create_ok a)"
  using assms [unfolded answers_ok_def de_Morgan_conj] unfolding dtp_init_def error_labels Let_def
  by (auto simp: ENOMEM_def EINVAL_def split: option.split)


text \<open>The resources of a load that reaches the thread's start.\<close>

definition node :: "kernel_answers \<Rightarrow> resource list" where
  "node a = (if device_create a = Valid_ptr then [Device_node] else [])"

definition thread :: "kernel_answers \<Rightarrow> resource list" where
  "thread a = (if kthread_run a = Valid_ptr then [Daemon_thread] else [])"

lemma dtp_init_reaches:
  assumes "answers_ok a" "held s = []"
  shows "kthread_run a = Null_ptr \<Longrightarrow> fst (dtp_init E a s) = - ENOMEM \<and>
      held (snd (dtp_init E a s)) = [Time_page] \<and> misfreed (snd (dtp_init E a s)) = Time_page # misfreed s"
    "kthread_run a \<noteq> Null_ptr \<Longrightarrow> fst (dtp_init E a s) = 0 \<and> daemon (snd (dtp_init E a s)) = kthread_run a \<and>
      misfreed (snd (dtp_init E a s)) = misfreed s \<and> held (snd (dtp_init E a s)) =
        thread a @ Time_page # node a @ [Char_dev, Chrdev_region, Dev_class, Proc_entry, Priv_mem]"
  using assms by (auto simp: dtp_init_def answers_ok_def error_labels Let_def node_def thread_def)


lemma dtp_init_ok:
  assumes "answers_ok a" "kthread_run a = Valid_ptr" "portal_descriptor a = Some bar2io"
  shows "fst (dtp_init E a s) = 0"
    "kern (snd (dtp_init E a s)) =
      (init_portal E bar2io (init_params (kern s)))\<lparr>dtp_time := zero_page\<lparr>log_max := int page_log_max\<rparr>\<rparr>"
  using assms by (auto simp: dtp_init_def answers_ok_def acquire_def Let_def)

lemma init_param_steps:
  "length (pv_logging (fold (init_param_step k) is d)) = length (pv_logging d)"
  "length (pv_sending (fold (init_param_step k) is d)) = length (pv_sending d)"
  "length (pv_counter (fold (init_param_step k) is d)) = length (pv_counter d)"
  "pv_states (fold (init_param_step k) is d) = pv_states d"
  "pv_mode (fold (init_param_step k) is d) = pv_mode d"
  by (induction "is" arbitrary: d) (simp_all add: init_param_step_def)

lemma init_params_flags:
  shows "i < DTP_PORT_NUM \<Longrightarrow> pv_logging (dtp (init_params k)) ! i = (if logging k ! i \<noteq> 0 then 1 else 0)"
    "i < DTP_PORT_NUM \<Longrightarrow> pv_sending (dtp (init_params k)) ! i = (if sending k ! i \<noteq> 0 then 1 else 0)"
    "i \<le> DTP_PORT_NUM \<Longrightarrow> pv_counter (dtp (init_params k)) ! i = (if counter k ! i \<noteq> 0 then 1 else 0)"
proof -
  have lg: "pv_logging (fold (init_param_step k) is d) ! i =
      (if i \<in> set is \<and> logging k ! i \<noteq> 0 then 1 else pv_logging d ! i)"
    if "i < length (pv_logging d)" for "is" d
    using that by (induction "is" arbitrary: d) (auto simp: init_param_step_def nth_list_update, metis nth_list_update_neq)
  have sg: "pv_sending (fold (init_param_step k) is d) ! i =
      (if i \<in> set is \<and> sending k ! i \<noteq> 0 then 1 else pv_sending d ! i)"
    if "i < length (pv_sending d)" for "is" d
    using that by (induction "is" arbitrary: d) (auto simp: init_param_step_def nth_list_update, metis nth_list_update_neq)
  have cg: "pv_counter (fold (init_param_step k) is d) ! i =
      (if i \<in> set is \<and> counter k ! i \<noteq> 0 then 1 else pv_counter d ! i)"
    if "i < length (pv_counter d)" for "is" d
    using that by (induction "is" arbitrary: d) (auto simp: init_param_step_def nth_list_update, metis nth_list_update_neq)
  show "i < DTP_PORT_NUM \<Longrightarrow> pv_logging (dtp (init_params k)) ! i = (if logging k ! i \<noteq> 0 then 1 else 0)"
    "i < DTP_PORT_NUM \<Longrightarrow> pv_sending (dtp (init_params k)) ! i = (if sending k ! i \<noteq> 0 then 1 else 0)"
    by (simp_all add: init_params_def Let_def lg sg zero_priv_def)
  show "i \<le> DTP_PORT_NUM \<Longrightarrow> pv_counter (dtp (init_params k)) ! i = (if counter k ! i \<noteq> 0 then 1 else 0)"
    by (auto simp: init_params_def Let_def cg zero_priv_def init_param_steps nth_list_update simp del: replicate_Suc)
qed

lemma init_params_frame:
  "length (pv_logging (dtp (init_params k))) = DTP_PORT_NUM"
  "length (pv_sending (dtp (init_params k))) = DTP_PORT_NUM"
  "length (pv_counter (dtp (init_params k))) = DTP_PORT_NUM + 1"
  "length (pv_states (dtp (init_params k))) = DTP_PORT_NUM"
  "pv_mode (dtp (init_params k)) = mode k" "mode (init_params k) = mode k"
  "logging (init_params k) = logging k" "sending (init_params k) = sending k"
  "counter (init_params k) = counter k" "portal (init_params k) = portal k"
  by (simp_all add: init_params_def Let_def init_param_steps zero_priv_def)

lemma wf_init:
  assumes "length (logging k) = DTP_PORT_NUM" "length (sending k) = DTP_PORT_NUM"
    "length (counter k) = DTP_PORT_NUM + 1"
  shows "wf_kernel ((init_portal E bar2io (init_params k))\<lparr>dtp_time := zero_page\<lparr>log_max := int page_log_max\<rparr>\<rparr>)"
  using assms by (simp add: wf_kernel_def init_portal_def zero_page_def init_params_frame)

lemma init_portal_idle:
  assumes "dtp_nic E bar2io view" "view (dev (portal k)) = quiet h"
  shows "\<exists>h'. idle E bar2io view (portal (init_portal E bar2io k)) h' \<and>
    beacon_interval_reg h' = (beacon_interval_reg h)(0 := 250, 1 := 500, 2 := 750) \<and> log_queue h' = log_queue h"
proof -
  let ?p = "dtp_portal_init E bar2io (portal k)"
  have p: "attached E bar2io ?p" "view (dev ?p) = quiet h"
    using assms(2) by (simp add: attached_init) (simp add: dtp_portal_init_def Let_def assms(2))
  have set: "\<exists>d. run_state (dtp_set_beacon_interval E i n) q = ((), q\<lparr>dev := d\<rparr>) \<and>
      view d = quiet (snd (ctrl_set_beacon_interval (ucast i) n g))"
    if "attached E bar2io q" "view (dev q) = quiet g" for i n q g
    using dtp_nic.nic_set_beacon_interval [OF assms(1) that] .
  from set [OF p, of 0 250] obtain d0 where
    d0: "run_state (dtp_set_beacon_interval E 0 250) ?p = ((), ?p\<lparr>dev := d0\<rparr>)"
      "view d0 = quiet (snd (ctrl_set_beacon_interval 0 250 h))" by auto
  from set [of "?p\<lparr>dev := d0\<rparr>" _ 1 500] p(1) d0(2) obtain d1 where
    d1: "run_state (dtp_set_beacon_interval E 1 500) (?p\<lparr>dev := d0\<rparr>) = ((), ?p\<lparr>dev := d1\<rparr>)"
      "view d1 = quiet (snd (ctrl_set_beacon_interval 1 500 (snd (ctrl_set_beacon_interval 0 250 h))))" by auto
  from set [of "?p\<lparr>dev := d1\<rparr>" _ 2 750] p(1) d1(2) obtain d2 where
    d2: "run_state (dtp_set_beacon_interval E 2 750) (?p\<lparr>dev := d1\<rparr>) = ((), ?p\<lparr>dev := d2\<rparr>)"
      "view d2 = quiet (snd (ctrl_set_beacon_interval 2 750
        (snd (ctrl_set_beacon_interval 1 500 (snd (ctrl_set_beacon_interval 0 250 h))))))" by auto
  have "portal (init_portal E bar2io k) = ?p\<lparr>dev := d2\<rparr>"
    by (simp add: init_portal_def monad_run d0(1) d1(1) d2(1))
  then show ?thesis
    using p(1) d2(2)
    by (auto simp: idle_def ctrl_set_beacon_interval_def log_queue_def fun_eq_iff intro!: exI)
qed

section \<open>Properties\<close>


definition example_answers :: kernel_answers where
  "example_answers = \<lparr>kzalloc_ok = True, portal_descriptor = Some 4096, proc_create_ok = True,
     class_create = 0, alloc_chrdev_region = 0, cdev_add = 0, device_create = Valid_ptr,
     zeroed_page_ok = True, kthread_run = Valid_ptr\<rparr>"

definition example_loader :: "ctrl_dev loader" where
  "example_loader = \<lparr>held = [], misfreed = [], daemon = Null_ptr, kern = example_kernel\<rparr>"


text \<open>
  C10. A load in which every call succeeds establishes what the daemon's loop needs: arrays of
  the right lengths, an empty log whose capacity (122 entries) fits in the page behind the
  header, an attached quiet portal, the beacon intervals 250, 500 and 750 at ports 0 to 2, the
  mode and all the logging, sending and counter flags (the global counter's too) from the module
  parameters, as 0 or 1; and the first turn then completes in such a state again.
  The controller changes by the module's requests only.
\<close>

theorem module_load_prepares_daemon:
  assumes "dtp_nic E bar2io view" "view (dev (portal (kern s))) = quiet h"
    and "answers_ok a" "kthread_run a = Valid_ptr" "portal_descriptor a = Some bar2io"
    and "length (logging (kern s)) = DTP_PORT_NUM" "length (sending (kern s)) = DTP_PORT_NUM"
      "length (counter (kern s)) = DTP_PORT_NUM + 1"
  shows "let k = kern (snd (dtp_init E a s))
    in daemon_ok E bar2io view k \<and> page_log (dtp_time k) = [] \<and> log_max (dtp_time k) = 122 \<and>
      sizeof_dtp_time + nat (log_max (dtp_time k)) * sizeof_dtp_log \<le> PAGE_SIZE \<and>
      pv_mode (dtp k) = mode (kern s) \<and>
      (\<forall>i < DTP_PORT_NUM. pv_logging (dtp k) ! i = (if logging (kern s) ! i \<noteq> 0 then 1 else 0)) \<and>
      (\<forall>i < DTP_PORT_NUM. pv_sending (dtp k) ! i = (if sending (kern s) ! i \<noteq> 0 then 1 else 0)) \<and>
      (\<forall>i \<le> DTP_PORT_NUM. pv_counter (dtp k) ! i = (if counter (kern s) ! i \<noteq> 0 then 1 else 0)) \<and>
      (\<exists>h'. idle E bar2io view (portal k) h' \<and>
        beacon_interval_reg h' = (beacon_interval_reg h)(0 := 250, 1 := 500, 2 := 750)) \<and>
      (\<exists>k'. daemon_turn E k = Some k' \<and> daemon_ok E bar2io view k')"
proof -
  let ?k = "(init_portal E bar2io (init_params (kern s)))\<lparr>dtp_time := zero_page\<lparr>log_max := int page_log_max\<rparr>\<rparr>"
  have sizes: "page_log_max = 122" "sizeof_dtp_time + 122 * sizeof_dtp_log \<le> PAGE_SIZE"
    by (simp_all add: page_log_max_def PAGE_SIZE_def sizeof_dtp_log_def sizeof_dtp_time_def DTP_PORT_NUM_def)
  from init_portal_idle [OF assms(1), of "init_params (kern s)" h] assms(2) obtain h' where
    h': "idle E bar2io view (portal ?k) h'" "beacon_interval_reg h' = (beacon_interval_reg h)(0 := 250, 1 := 500, 2 := 750)"
    by (auto simp: init_params_frame)
  moreover have "wf_kernel ?k" by (rule wf_init [OF assms(6-8)])
  moreover have "dtp ?k = dtp (init_params (kern s))" by (simp add: init_portal_def)
  moreover have "page_log (dtp_time ?k) = []" by (simp add: page_log_def zero_page_def)
  moreover from calculation have ok: "daemon_ok E bar2io view ?k" by (auto simp: daemon_ok_def)
  moreover from turn_keeps_ok [OF assms(1) ok] have "\<exists>k'. daemon_turn E ?k = Some k' \<and> daemon_ok E bar2io view k'" .
  ultimately show ?thesis
    unfolding dtp_init_ok(2) [OF assms(3-5)] Let_def using sizes
    by (simp add: init_params_frame init_params_flags) blast
qed

theorem module_load_prepares_daemon_witness:
  "daemon_ok example_env 4096 vw (kern (snd (dtp_init example_env example_answers example_loader)))"
proof -
  have "vw (dev (portal (kern example_loader))) = quiet example_ctrl"
    using example_idle by (simp add: example_loader_def idle_def)
  moreover have "answers_ok example_answers" "kthread_run example_answers = Valid_ptr"
    "portal_descriptor example_answers = Some 4096"
    by (simp_all add: answers_ok_def example_answers_def)
  moreover have "length (logging (kern example_loader)) = DTP_PORT_NUM"
    "length (sending (kern example_loader)) = DTP_PORT_NUM"
    "length (counter (kern example_loader)) = DTP_PORT_NUM + 1"
    using example_wf by (simp_all add: example_loader_def wf_kernel_def)
  ultimately show ?thesis
    using module_load_prepares_daemon [OF example_env_nic, of example_loader example_ctrl example_answers]
    by (simp add: Let_def)
qed

text \<open>
  C38. Failures of the first load that are reported as success: with the board missing or after a failed
  \<^verbatim>\<open>proc_create\<close> it returns zero with nothing held, and with an error pointer for the thread it returns
  zero without a thread; unloading the module then follows a pointer to no task.  With an error
  pointer for the device node it returns zero without a node.
\<close>

theorem failed_load_reports_success:
  assumes "held s = []" "daemon s = Null_ptr"
    and "kzalloc_ok a" "portal_descriptor a = None \<or> \<not> proc_create_ok a"
    and "answers_ok b" "kthread_run b = Err_ptr e"
    and "answers_ok c" "kthread_run c = Valid_ptr" "device_create c = Err_ptr e'"
  shows "fst (dtp_init E a s) = 0 \<and> held (snd (dtp_init E a s)) = [] \<and> dtp_exit (snd (dtp_init E a s)) = None \<and>
    fst (dtp_init E b s) = 0 \<and> Daemon_thread \<notin> set (held (snd (dtp_init E b s))) \<and>
    dtp_exit (snd (dtp_init E b s)) = None \<and>
    fst (dtp_init E c s) = 0 \<and> Device_node \<notin> set (held (snd (dtp_init E c s)))"
proof -
  have "\<not> answers_ok a" using assms(4) by (auto simp: answers_ok_def)
  then show ?thesis
    using dtp_init_fails [where a = a and s = s and E = E] dtp_init_reaches [of b s E] dtp_init_reaches [of c s E] assms
    by (simp add: dtp_exit_def node_def thread_def)
qed

theorem failed_load_reports_success_witness:
  "fst (dtp_init example_env (example_answers\<lparr>portal_descriptor := None\<rparr>) example_loader) = 0 \<and>
   dtp_exit (snd (dtp_init example_env (example_answers\<lparr>kthread_run := Err_ptr (- 12)\<rparr>) example_loader)) = None"
proof -
  have "held example_loader = []" "daemon example_loader = Null_ptr" by (simp_all add: example_loader_def)
  then show ?thesis
    using failed_load_reports_success [of example_loader "example_answers\<lparr>portal_descriptor := None\<rparr>"
        "example_answers\<lparr>kthread_run := Err_ptr (- 12)\<rparr>" "- 12" "example_answers\<lparr>device_create := Err_ptr (- 12)\<rparr>" "- 12"
        example_env]
    by (simp add: answers_ok_def example_answers_def)
qed

end
