(* ===== verification/Dtp_User.thy ===== *)
theory Dtp_User
  imports Dtp_Module
begin

text \<open>
  The user-space reader of the shared page (\<^verbatim>\<open>src/sw/daemon/dtp_user.c\<close>) and the memory
  load generator (\<^verbatim>\<open>src/sw/daemon/cpu.c\<close>).  The reader runs concurrently with the daemon:
  its loop is a step function that does at most one load from the page per step, in program
  order, and the two are interleaved by a step relation.  Sleeping is a step that changes
  nothing; messages on \<^verbatim>\<open>stderr\<close> and a failing \<^verbatim>\<open>calloc\<close> are not modelled.
\<close>

section \<open>Output files\<close>

record tm =
  tm_year :: nat
  tm_mon :: nat
  tm_mday :: nat
  tm_hour :: nat
  tm_min :: nat
  tm_sec :: nat

datatype out_file = Stdout | Named string

datatype out_event = Opened out_file | Printed out_file string | Closed out_file

text \<open>\<^verbatim>\<open>%02d\<close> of a number that is not negative.\<close>

definition show02 :: "nat \<Rightarrow> string" where
  "show02 n = (if n < 10 then CHR ''0'' # show_nat n else show_nat n)"

text \<open>\<^verbatim>\<open>snprintf\<close> with room for \<open>17 + strlen(fname)\<close> bytes, the terminator included.\<close>

definition dtp_file_name :: "string \<Rightarrow> tm \<Rightarrow> string" where
  "dtp_file_name fname t =
     take (16 + length fname)
       (fname @ ''_'' @ show_nat (tm_year t + 1900) @ show02 (tm_mon t + 1) @ show02 (tm_mday t) @
        ''_'' @ show02 (tm_hour t) @ show02 (tm_min t) @ show02 (tm_sec t))"

text \<open>
  The stream printed to, and what opening it does: a named file is announced on the standard
  output and opened by \<^verbatim>\<open>fopen\<close>, whose answer \<open>opened\<close> is an argument; \<open>None\<close> is its null pointer.
\<close>

definition dtp_file_open :: "string option \<Rightarrow> tm \<Rightarrow> bool \<Rightarrow> out_event list \<times> out_file option" where
  "dtp_file_open fname t opened =
     (case fname of
        Some f \<Rightarrow> let g = Named (dtp_file_name f t);
                     start = Printed Stdout (''Start writing '' @ dtp_file_name f t @ [CHR 0x0A])
                 in if opened then ([start, Opened g], Some g) else ([start], None)
      | None \<Rightarrow> ([], Some Stdout))"

definition dtp_file_close :: "out_file \<Rightarrow> out_event list" where
  "dtp_file_close f = (if f \<noteq> Stdout then [Closed f] else [])"

section \<open>The reader\<close>

text \<open>
  The point of the loop the reader is at: the page location it loads next.  \<open>Crashed\<close> is where
  printing to a null stream ends it.
\<close>

datatype rpc =
    Spin
  | Cnt_tsc1 nat | Cnt_tsc2 nat | Cnt_low nat
  | Log_test nat | Log_port nat | Log_timestamp nat | Log_msg1 nat | Log_msg2 nat
  | Log_cnt | Check | Emit | Crashed

record reader =
  pc :: rpc
  cnt :: "dtp_cnt list"
  log :: "dtp_log list"
  rlog_cnt :: int
  ptsc :: u64
  count :: nat
  fout :: "out_file option"
  events :: "out_event list"
  overrun :: bool

definition cnt_line :: "nat \<Rightarrow> dtp_cnt \<Rightarrow> string" where
  "cnt_line j c = show_nat j @ '' '' @ hex16 (tsc1 c) @ '' '' @ hex16 (tsc2 c) @ '' '' @ hex16 (low c) @ [CHR 0x0A]"

definition log_line :: "dtp_log \<Rightarrow> string" where
  "log_line l = ''   '' @ show_int (log_port l) @ '' '' @ hex16 (log_timestamp l) @ '' '' @
     hex16 (log_msg1 l) @ '' '' @ hex16 (log_msg2 l) @ [CHR 0x0A]"

definition report_lines :: "reader \<Rightarrow> string list" where
  "report_lines r = map (\<lambda>j. cnt_line j (cnt r ! j)) [0..<DTP_PORT_NUM + 1] @
     map (\<lambda>i. log_line (log r ! i)) [0..<nat (rlog_cnt r)]"

definition DAY :: nat where "DAY = 60 * 60 * 24"

text \<open>
  The part of the loop after the copy is accepted: report a sample that is new.  The stream is
  not checked before it is printed to.
\<close>

definition emit :: "string option \<Rightarrow> tm \<Rightarrow> bool \<Rightarrow> reader \<Rightarrow> reader" where
  "emit fname t opened r =
     (if tsc1 (cnt r ! 0) \<noteq> ptsc r
      then let (ev, f) = (if count r = 0 then dtp_file_open fname t opened else ([], fout r));
               r = r\<lparr>fout := f, events := events r @ ev, count := count r + 1, ptsc := tsc1 (cnt r ! 0)\<rparr>
           in case f of
                None \<Rightarrow> r\<lparr>pc := Crashed\<rparr>
              | Some f \<Rightarrow>
                  let r = r\<lparr>events := events r @ map (Printed f) (report_lines r), pc := Spin\<rparr>
                  in if count r = DAY then r\<lparr>events := events r @ [Closed f], count := 0\<rparr> else r
      else r\<lparr>pc := Spin\<rparr>)"

definition store_cnt :: "nat \<Rightarrow> (dtp_cnt \<Rightarrow> dtp_cnt) \<Rightarrow> reader \<Rightarrow> reader" where
  "store_cnt j f r = r\<lparr>cnt := (cnt r)[j := f (cnt r ! j)]\<rparr>"

definition store_log :: "nat \<Rightarrow> (dtp_log \<Rightarrow> dtp_log) \<Rightarrow> reader \<Rightarrow> reader" where
  "store_log i f r =
     (if i < length (log r) then r\<lparr>log := (log r)[i := f (log r ! i)]\<rparr> else r\<lparr>overrun := True\<rparr>)"

fun reader_step :: "string option \<Rightarrow> tm \<Rightarrow> bool \<Rightarrow> dtp_time \<Rightarrow> rpc \<Rightarrow> reader \<Rightarrow> reader" where
  "reader_step fname tm opened t Spin r = (if flag t = 1 then r else r\<lparr>pc := Cnt_tsc1 0\<rparr>)"
| "reader_step fname tm opened t (Cnt_tsc1 j) r =
     (store_cnt j (tsc1_update (\<lambda>_. tsc1 (dtp_cnts t ! j))) r)\<lparr>pc := Cnt_tsc2 j\<rparr>"
| "reader_step fname tm opened t (Cnt_tsc2 j) r =
     (store_cnt j (tsc2_update (\<lambda>_. tsc2 (dtp_cnts t ! j))) r)\<lparr>pc := Cnt_low j\<rparr>"
| "reader_step fname tm opened t (Cnt_low j) r =
     (store_cnt j (low_update (\<lambda>_. low (dtp_cnts t ! j))) r)
       \<lparr>pc := if j + 1 < DTP_PORT_NUM + 1 then Cnt_tsc1 (j + 1) else Log_test 0\<rparr>"
| "reader_step fname tm opened t (Log_test i) r =
     r\<lparr>pc := if int i < log_cnt t then Log_port i else Log_cnt\<rparr>"
| "reader_step fname tm opened t (Log_port i) r =
     (store_log i (log_port_update (\<lambda>_. log_port (log_entries t ! i))) r)\<lparr>pc := Log_timestamp i\<rparr>"
| "reader_step fname tm opened t (Log_timestamp i) r =
     (store_log i (log_timestamp_update (\<lambda>_. log_timestamp (log_entries t ! i))) r)\<lparr>pc := Log_msg1 i\<rparr>"
| "reader_step fname tm opened t (Log_msg1 i) r =
     (store_log i (log_msg1_update (\<lambda>_. log_msg1 (log_entries t ! i))) r)\<lparr>pc := Log_msg2 i\<rparr>"
| "reader_step fname tm opened t (Log_msg2 i) r =
     (store_log i (log_msg2_update (\<lambda>_. log_msg2 (log_entries t ! i))) r)\<lparr>pc := Log_test (i + 1)\<rparr>"
| "reader_step fname tm opened t Log_cnt r = r\<lparr>rlog_cnt := log_cnt t, pc := Check\<rparr>"
| "reader_step fname tm opened t Check r = r\<lparr>pc := if flag t = 1 then Spin else Emit\<rparr>"
| "reader_step fname tm opened t Emit r = emit fname tm opened r"
| "reader_step fname tm opened t Crashed r = r"

text \<open>The state on entry to \<^verbatim>\<open>__loop\<close>: cleared buffers, sized by the page size.\<close>

definition reader_init :: "dtp_cnt list \<Rightarrow> reader" where
  "reader_init stack_cnt =
     \<lparr>pc = Spin, cnt = stack_cnt,
      log = replicate page_log_max \<lparr>log_port = 0, log_timestamp = 0, log_msg1 = 0, log_msg2 = 0\<rparr>,
      rlog_cnt = 0, ptsc = 0, count = 0, fout = None, events = [], overrun = False\<rparr>"

section \<open>Reader and daemon interleaved\<close>

text \<open>
  The page between the two: the daemon locks it, changes it in any well-formed way while it
  is locked, and unlocks it.  \<open>gen\<close> counts the locks taken, \<open>start\<close> the locks taken when the
  reader last left its waiting loop; neither exists in the program.
\<close>

record sys =
  page :: dtp_time
  gen :: nat
  start :: nat
  rd :: reader

inductive sys_step :: "string option \<Rightarrow> sys \<Rightarrow> sys \<Rightarrow> bool" for fname where
  lock: "flag (page s) = 0 \<Longrightarrow> sys_step fname s (s\<lparr>page := store (St_flag 1) (page s), gen := gen s + 1\<rparr>)"
| put: "flag (page s) = 1 \<Longrightarrow> wf_page t \<Longrightarrow> flag t = 1 \<Longrightarrow> log_max t = log_max (page s) \<Longrightarrow>
    sys_step fname s (s\<lparr>page := t\<rparr>)"
| unlock: "flag (page s) = 1 \<Longrightarrow> sys_step fname s (s\<lparr>page := store (St_flag 0) (page s)\<rparr>)"
| read: "sys_step fname s (s\<lparr>rd := reader_step fname tm opened (page s) (pc (rd s)) (rd s),
    start := if pc (rd s) = Spin then gen s else start s\<rparr>)"

inductive reach :: "string option \<Rightarrow> sys \<Rightarrow> sys \<Rightarrow> bool" for fname s0 where
  refl: "reach fname s0 s0"
| step: "reach fname s0 s \<Longrightarrow> sys_step fname s s' \<Longrightarrow> reach fname s0 s'"

lemma reach_trans: "reach fname s t \<Longrightarrow> reach fname r s \<Longrightarrow> reach fname r t"
  by (induction rule: reach.induct) (auto intro: reach.step)

text \<open>The page as the module hands it over, the reader at the start of its loop.\<close>

definition sys_init :: "sys \<Rightarrow> bool" where
  "sys_init s \<longleftrightarrow> wf_page (page s) \<and> flag (page s) = 0 \<and> log_max (page s) = int page_log_max \<and>
     gen s = 0 \<and> start s = 0 \<and>
     (\<exists>c. length c = DTP_PORT_NUM + 1 \<and> rd s = reader_init c)"

section \<open>The reader never leaves its buffers\<close>

fun pc_ok :: "rpc \<Rightarrow> nat \<Rightarrow> bool" where
  "pc_ok (Cnt_tsc1 j) n \<longleftrightarrow> j < DTP_PORT_NUM + 1"
| "pc_ok (Cnt_tsc2 j) n \<longleftrightarrow> j < DTP_PORT_NUM + 1"
| "pc_ok (Cnt_low j) n \<longleftrightarrow> j < DTP_PORT_NUM + 1"
| "pc_ok (Log_port i) n \<longleftrightarrow> i < n"
| "pc_ok (Log_timestamp i) n \<longleftrightarrow> i < n"
| "pc_ok (Log_msg1 i) n \<longleftrightarrow> i < n"
| "pc_ok (Log_msg2 i) n \<longleftrightarrow> i < n"
| "pc_ok _ n \<longleftrightarrow> True"

definition in_bounds :: "sys \<Rightarrow> bool" where
  "in_bounds s \<longleftrightarrow> wf_page (page s) \<and> flag (page s) \<in> {0, 1} \<and> log_max (page s) = int page_log_max \<and>
     length (cnt (rd s)) = DTP_PORT_NUM + 1 \<and> length (log (rd s)) = page_log_max \<and>
     pc_ok (pc (rd s)) page_log_max \<and> rlog_cnt (rd s) \<le> int page_log_max \<and> \<not> overrun (rd s)"

lemma emit_frame [simp]:
  "cnt (emit fname t opened r) = cnt r" "log (emit fname t opened r) = log r"
  "rlog_cnt (emit fname t opened r) = rlog_cnt r" "overrun (emit fname t opened r) = overrun r"
  by (simp_all add: emit_def Let_def case_prod_unfold split: option.split)

lemma emit_pc: "pc (emit fname t opened r) = Spin \<or> pc (emit fname t opened r) = Crashed"
  by (simp add: emit_def Let_def case_prod_unfold split: option.split)

lemma emit_pc_ok [simp]: "pc_ok (pc (emit fname t opened r)) n"
  using emit_pc [of fname t opened r] by auto

lemma store_frame [simp]:
  "length (cnt (store_cnt j f r)) = length (cnt r)" "length (log (store_log i g r)) = length (log r)"
  "log (store_cnt j f r) = log r" "cnt (store_log i g r) = cnt r"
  "rlog_cnt (store_cnt j f r) = rlog_cnt r" "rlog_cnt (store_log i g r) = rlog_cnt r"
  "overrun (store_cnt j f r) = overrun r" "i < length (log r) \<Longrightarrow> overrun (store_log i g r) = overrun r"
  by (simp_all add: store_cnt_def store_log_def)

lemma wf_page_flag [simp]: "wf_page (t\<lparr>flag := b\<rparr>) = wf_page t" "wf_page (t\<lparr>stores := ss\<rparr>) = wf_page t"
  by (simp_all add: wf_page_def)

lemma store_flag [simp]: "store (St_flag v) t = t\<lparr>flag := v, stores := stores t @ [St_flag v]\<rparr>"
  by (simp add: store_def)

lemma reader_in_bounds:
  assumes "in_bounds s"
  shows "in_bounds (s\<lparr>rd := reader_step fname tm opened (page s) (pc (rd s)) (rd s), start := n\<rparr>)"
  using assms by (cases "pc (rd s)") (auto simp: in_bounds_def wf_page_def DTP_PORT_NUM_def)

lemma step_in_bounds: "sys_step fname s s' \<Longrightarrow> in_bounds s \<Longrightarrow> in_bounds s'"
  by (induction rule: sys_step.induct) (use reader_in_bounds in \<open>auto simp: in_bounds_def\<close>)

lemma reach_in_bounds:
  assumes "reach fname s0 s" "sys_init s0"
  shows "in_bounds s"
  using assms
proof (induction rule: reach.induct)
  case refl
  then show ?case by (auto simp: sys_init_def in_bounds_def reader_init_def)
next
  case (step s s')
  then show ?case using step_in_bounds by blast
qed

section \<open>What an accepted copy holds\<close>

text \<open>The entries copied so far agree with the page.\<close>

definition cnts_copied :: "nat \<Rightarrow> dtp_time \<Rightarrow> reader \<Rightarrow> bool" where
  "cnts_copied n t r \<longleftrightarrow> (\<forall>j < n. tsc1 (cnt r ! j) = tsc1 (dtp_cnts t ! j) \<and>
     tsc2 (cnt r ! j) = tsc2 (dtp_cnts t ! j) \<and> low (cnt r ! j) = low (dtp_cnts t ! j))"

definition logs_copied :: "nat \<Rightarrow> dtp_time \<Rightarrow> reader \<Rightarrow> bool" where
  "logs_copied n t r \<longleftrightarrow> (\<forall>i < n. log r ! i = log_entries t ! i)"

fun copied :: "rpc \<Rightarrow> dtp_time \<Rightarrow> reader \<Rightarrow> bool" where
  "copied Spin t r \<longleftrightarrow> True"
| "copied Crashed t r \<longleftrightarrow> True"
| "copied (Cnt_tsc1 j) t r \<longleftrightarrow> cnts_copied j t r"
| "copied (Cnt_tsc2 j) t r \<longleftrightarrow> cnts_copied j t r \<and> tsc1 (cnt r ! j) = tsc1 (dtp_cnts t ! j)"
| "copied (Cnt_low j) t r \<longleftrightarrow> cnts_copied j t r \<and> tsc1 (cnt r ! j) = tsc1 (dtp_cnts t ! j) \<and>
     tsc2 (cnt r ! j) = tsc2 (dtp_cnts t ! j)"
| "copied (Log_test i) t r \<longleftrightarrow> cnts_copied (DTP_PORT_NUM + 1) t r \<and> logs_copied i t r \<and> int i \<le> log_cnt t"
| "copied (Log_port i) t r \<longleftrightarrow> cnts_copied (DTP_PORT_NUM + 1) t r \<and> logs_copied i t r \<and> int i < log_cnt t"
| "copied (Log_timestamp i) t r \<longleftrightarrow> cnts_copied (DTP_PORT_NUM + 1) t r \<and> logs_copied i t r \<and> int i < log_cnt t \<and>
     log_port (log r ! i) = log_port (log_entries t ! i)"
| "copied (Log_msg1 i) t r \<longleftrightarrow> cnts_copied (DTP_PORT_NUM + 1) t r \<and> logs_copied i t r \<and> int i < log_cnt t \<and>
     log_port (log r ! i) = log_port (log_entries t ! i) \<and> log_timestamp (log r ! i) = log_timestamp (log_entries t ! i)"
| "copied (Log_msg2 i) t r \<longleftrightarrow> cnts_copied (DTP_PORT_NUM + 1) t r \<and> logs_copied i t r \<and> int i < log_cnt t \<and>
     log_port (log r ! i) = log_port (log_entries t ! i) \<and> log_timestamp (log r ! i) = log_timestamp (log_entries t ! i) \<and>
     log_msg1 (log r ! i) = log_msg1 (log_entries t ! i)"
| "copied Log_cnt t r \<longleftrightarrow> cnts_copied (DTP_PORT_NUM + 1) t r \<and> logs_copied (nat (log_cnt t)) t r"
| "copied _ t r \<longleftrightarrow> cnts_copied (DTP_PORT_NUM + 1) t r \<and> logs_copied (nat (log_cnt t)) t r \<and> rlog_cnt r = log_cnt t"

text \<open>While no lock was taken since the copy began, the copy agrees and the page is unlocked.\<close>

definition undisturbed :: "sys \<Rightarrow> bool" where
  "undisturbed s \<longleftrightarrow> start s \<le> gen s \<and>
     (pc (rd s) \<noteq> Spin \<and> gen s = start s \<longrightarrow> flag (page s) = 0 \<and> copied (pc (rd s)) (page s) (rd s))"

lemma cnts_copied_pc [simp]: "cnts_copied n t (r\<lparr>pc := p\<rparr>) = cnts_copied n t r"
  by (simp add: cnts_copied_def)

lemma logs_copied_pc [simp]: "logs_copied n t (r\<lparr>pc := p\<rparr>) = logs_copied n t r"
  by (simp add: logs_copied_def)

lemma cnts_copied_store [simp]:
  "cnts_copied j t (store_cnt j f r) = cnts_copied j t r"
  "cnts_copied n t (store_log i g r) = cnts_copied n t r"
  by (simp_all add: cnts_copied_def store_cnt_def store_log_def)

lemma logs_copied_store [simp]: "logs_copied i t (store_log i g r) = logs_copied i t r"
  by (simp add: logs_copied_def store_log_def)

lemma logs_copied_store_cnt [simp]: "logs_copied i t (store_cnt j f r) = logs_copied i t r"
  by (simp add: logs_copied_def store_cnt_def)

lemma cnts_copied_Suc:
  "cnts_copied (Suc j) t r \<longleftrightarrow> cnts_copied j t r \<and> tsc1 (cnt r ! j) = tsc1 (dtp_cnts t ! j) \<and>
     tsc2 (cnt r ! j) = tsc2 (dtp_cnts t ! j) \<and> low (cnt r ! j) = low (dtp_cnts t ! j)"
  by (auto simp: cnts_copied_def less_Suc_eq)

lemma logs_copied_Suc:
  "logs_copied (Suc i) t r \<longleftrightarrow> logs_copied i t r \<and> log r ! i = log_entries t ! i"
  by (auto simp: logs_copied_def less_Suc_eq)

lemma nth_store:
  "j < length (cnt r) \<Longrightarrow> cnt (store_cnt j f r) ! j = f (cnt r ! j)"
  "i < length (log r) \<Longrightarrow> log (store_log i g r) ! i = g (log r ! i)"
  by (simp_all add: store_cnt_def store_log_def)

lemma logs_copied_0 [simp]: "logs_copied 0 t r" "cnts_copied 0 t r"
  by (simp_all add: logs_copied_def cnts_copied_def)

lemma copied_pc [simp]: "copied p t (r\<lparr>pc := q\<rparr>) = copied p t r"
  by (cases p) simp_all

lemma log_eqI:
  "log_port a = log_port b \<Longrightarrow> log_timestamp a = log_timestamp b \<Longrightarrow> log_msg1 a = log_msg1 b \<Longrightarrow>
   log_msg2 a = log_msg2 b \<Longrightarrow> a = (b :: dtp_log)"
  by simp

lemma copied_step:
  assumes "copied p t r" "pc_ok p (length (log r))" "length (cnt r) = DTP_PORT_NUM + 1" "0 \<le> log_cnt t"
    and "p \<noteq> Emit" "p \<noteq> Crashed" "p = Spin \<or> p = Check \<longrightarrow> flag t = 0"
  shows "copied (pc (reader_step fname tm opened t p r)) t (reader_step fname tm opened t p r)"
proof (cases p)
  case (Cnt_low j)
  with assms show ?thesis
    by (cases "j = DTP_PORT_NUM") (auto simp: nth_store cnts_copied_Suc)
next
  case (Log_msg2 i)
  with assms show ?thesis
    by (auto simp: nth_store logs_copied_Suc intro!: log_eqI)
next
  case (Log_test i)
  then have "nat (log_cnt t) = i" if "\<not> int i < log_cnt t" using assms(1) that by simp linarith
  with Log_test assms show ?thesis by auto
next
  case Log_cnt
  with assms show ?thesis by (simp add: cnts_copied_def logs_copied_def)
qed (use assms in \<open>auto simp: nth_store\<close>)

lemma read_undisturbed:
  assumes "undisturbed s" "in_bounds s"
  shows "undisturbed (s\<lparr>rd := reader_step fname tm opened (page s) (pc (rd s)) (rd s),
    start := if pc (rd s) = Spin then gen s else start s\<rparr>)"
proof (cases "pc (rd s) = Emit \<or> pc (rd s) = Crashed \<or> pc (rd s) = Check \<and> flag (page s) = 1 \<or> pc (rd s) = Spin \<and> flag (page s) = 1")
  case True
  have "copied (pc (emit fname tm opened (rd s))) t r" for t r
    using emit_pc [of fname tm opened "rd s"] by auto
  with True assms(1) show ?thesis by (auto simp: undisturbed_def)
next
  case False
  then have "flag (page s) = 0" if "pc (rd s) = Spin \<or> pc (rd s) = Check"
    using that assms(2) by (auto simp: in_bounds_def)
  moreover have "copied Spin (page s) (rd s)" by simp
  ultimately show ?thesis
    using assms False copied_step [of "pc (rd s)" "page s" "rd s" fname tm opened]
    by (auto simp: undisturbed_def in_bounds_def wf_page_def)
qed

lemma step_undisturbed:
  assumes "sys_step fname s s'" "undisturbed s" "in_bounds s"
  shows "undisturbed s'"
  using assms
proof (cases rule: sys_step.cases)
  case (read tm)
  then show ?thesis using read_undisturbed [OF assms(2,3)] by simp
qed (auto simp: undisturbed_def)

lemma reach_undisturbed:
  assumes "reach fname s0 s" "sys_init s0"
  shows "undisturbed s"
  using assms
proof (induction rule: reach.induct)
  case refl
  then show ?case by (auto simp: sys_init_def undisturbed_def reader_init_def)
next
  case (step s s')
  then show ?case using step_undisturbed reach_in_bounds by blast
qed

section \<open>The program\<close>

datatype user_outcome = Usage_exit | Affinity_exit | Return_error | Loops int int "string option"

definition dtp_set_cpu :: "(int \<Rightarrow> int) \<Rightarrow> int \<Rightarrow> bool" where
  "dtp_set_cpu sched_setaffinity cpun = (\<not> sched_setaffinity cpun < 0)"

text \<open>The first processor of the affinity mask, or the mask's size when it is empty.\<close>

definition CPU_SETSIZE :: nat where "CPU_SETSIZE = 1024"

definition dtp_get_cpu :: "(nat \<Rightarrow> bool) option \<Rightarrow> nat option" where
  "dtp_get_cpu sched_getaffinity =
     map_option (\<lambda>mask. case find mask [0..<CPU_SETSIZE] of Some i \<Rightarrow> i | None \<Rightarrow> CPU_SETSIZE) sched_getaffinity"

definition dtp_user_main :: "(int \<Rightarrow> int) \<Rightarrow> int \<Rightarrow> bool \<Rightarrow> string list \<Rightarrow> user_outcome" where
  "dtp_user_main sched_setaffinity open_fd mmap_ok argv =
     (if length argv < 3 then Usage_exit
      else let interval = atoi (argv ! 1); cpu = atoi (argv ! 2);
               fname = (if length argv = 4 then Some (argv ! 3) else None)
           in if \<not> dtp_set_cpu sched_setaffinity cpu then Affinity_exit
              else if open_fd < 0 then Return_error
              else if \<not> mmap_ok then Return_error
              else Loops interval cpu fname)"

text \<open>
  One pass of the load generator's loop over its array; the first element is computed from
  the element before the array.
\<close>

datatype mem_error = Read_before_array

function cpu_pass :: "(nat \<Rightarrow> int) \<Rightarrow> nat \<Rightarrow> nat \<Rightarrow> int list \<Rightarrow> mem_error + int list" where
  "cpu_pass rand memory i x =
     (if i < memory
      then (if i \<noteq> 0 then cpu_pass rand memory (i + 1) (x[i := rand i]) else Inl Read_before_array)
      else Inr x)"
  by auto
termination by (relation "measure (\<lambda>(rand, memory, i, x). memory - i)") auto

text \<open>
  The load generator \<^verbatim>\<open>cpu.c\<close>: \<open>rand n\<close> is what \<^verbatim>\<open>rand\<close> returns in pass \<open>n\<close>; the array comes cleared from
  \<^verbatim>\<open>calloc\<close>, and the program is followed for \<open>passes\<close> passes of its endless loop.
\<close>

definition cpu_get_cpu :: "(nat \<Rightarrow> bool) option \<Rightarrow> nat option" where
  "cpu_get_cpu sched_getaffinity =
     map_option (\<lambda>mask. case find mask [0..<CPU_SETSIZE] of Some i \<Rightarrow> i | None \<Rightarrow> CPU_SETSIZE) sched_getaffinity"

definition cpu_set_cpu :: "(int \<Rightarrow> int) \<Rightarrow> int \<Rightarrow> bool" where
  "cpu_set_cpu sched_setaffinity cpun = (\<not> sched_setaffinity cpun < 0)"

text \<open>The number of elements, computed in 64 bits from an \<^verbatim>\<open>int\<close> count of megabytes.\<close>

definition cpu_elements :: "string \<Rightarrow> u64" where
  "cpu_elements megabytes = of_int (atoi megabytes) * 1024 * 1024 div 4"

datatype cpu_outcome = Cpu_usage | Cpu_exit | Cpu_error mem_error | Cpu_running "int list"

fun cpu_passes :: "(nat \<Rightarrow> nat \<Rightarrow> int) \<Rightarrow> nat \<Rightarrow> nat \<Rightarrow> int list \<Rightarrow> cpu_outcome" where
  "cpu_passes rand memory 0 x = Cpu_running x"
| "cpu_passes rand memory (Suc n) x =
     (case cpu_pass (rand n) memory 0 x of Inl e \<Rightarrow> Cpu_error e | Inr x \<Rightarrow> cpu_passes rand memory n x)"

definition cpu_main ::
  "(int \<Rightarrow> int) \<Rightarrow> (nat \<Rightarrow> bool) option \<Rightarrow> (nat \<Rightarrow> nat \<Rightarrow> int) \<Rightarrow> nat \<Rightarrow> string list \<Rightarrow> cpu_outcome" where
  "cpu_main sched_setaffinity sched_getaffinity rand passes argv =
     (if length argv \<noteq> 3 then Cpu_usage
      else let cpu = atoi (argv ! 1);
               memory = unat (cpu_elements (argv ! 2));
               x = replicate memory 0
           in if \<not> cpu_set_cpu sched_setaffinity cpu then Cpu_exit
              else if cpu_get_cpu sched_getaffinity = None then Cpu_exit
              else cpu_passes rand memory passes x)"

section \<open>Lemmas on runs\<close>

fun reads :: "string option \<Rightarrow> tm \<Rightarrow> nat \<Rightarrow> sys \<Rightarrow> sys" where
  "reads fname tm 0 s = s"
| "reads fname tm (Suc n) s = reads fname tm n (s\<lparr>rd := reader_step fname tm True (page s) (pc (rd s)) (rd s),
     start := if pc (rd s) = Spin then gen s else start s\<rparr>)"

lemma reach_reads: "reach fname s0 s \<Longrightarrow> reach fname s0 (reads fname tm n s)"
proof (induction n arbitrary: s)
  case (Suc n)
  show ?case unfolding reads.simps by (rule Suc.IH [OF reach.step [OF Suc.prems sys_step.read]])
qed simp

lemma reach_lock_write_unlock:
  assumes "reach fname s0 s" "flag (page s) = 0" "wf_page t" "log_max t = log_max (page s)" "flag t = 1"
  shows "reach fname s0 (s\<lparr>page := store (St_flag 0) t, gen := gen s + 1\<rparr>)"
proof -
  let ?a = "s\<lparr>page := store (St_flag 1) (page s), gen := gen s + 1\<rparr>"
  have a: "sys_step fname s ?a" using assms(2) by (rule sys_step.lock)
  have b: "sys_step fname ?a (?a\<lparr>page := t\<rparr>)"
    using assms(3-5) by (intro sys_step.put) simp_all
  have c: "sys_step fname (?a\<lparr>page := t\<rparr>) (?a\<lparr>page := store (St_flag 0) t\<rparr>)"
    using sys_step.unlock [of "?a\<lparr>page := t\<rparr>" fname] assms(5) by simp
  have eq: "?a\<lparr>page := store (St_flag 0) t\<rparr> = s\<lparr>page := store (St_flag 0) t, gen := gen s + 1\<rparr>" by simp
  show ?thesis
    using reach.step [OF reach.step [OF reach.step [OF assms(1) a] b] c] unfolding eq .
qed

text \<open>Each store under the lock is a step of the page, whatever the reader is doing.\<close>

lemma store_steps:
  assumes "under_lock (log_max t) st" "wf_page t" "flag t = 1"
  shows "sys_step fname (r\<lparr>page := t\<rparr>) (r\<lparr>page := store st t\<rparr>)"
  using sys_step.put [of "r\<lparr>page := t\<rparr>" "store st t" fname] store_keeps [OF assms(1)] assms(2,3) by simp

lemma writes_take: "writes ss t u \<Longrightarrow> n \<le> length ss \<Longrightarrow> writes (take n ss) t (fold store (take n ss) t)"
  by (auto simp: writes_def list_all_iff dest: in_set_takeD)

lemma writes_step:
  assumes "writes ss t u" "n < length ss" "wf_page t" "flag t = 1"
  shows "sys_step fname (r\<lparr>page := fold store (take n ss) t\<rparr>) (r\<lparr>page := fold store (take (Suc n) ss) t\<rparr>)"
proof -
  let ?t = "fold store (take n ss) t"
  have "writes (take n ss) t ?t" using assms(1,2) by (auto intro: writes_take)
  from writes_keeps [OF this] assms have "wf_page ?t" "flag ?t = 1" "under_lock (log_max ?t) (ss ! n)"
    by (simp_all add: writes_def list_all_length)
  from store_steps [OF this(3,1,2)] assms(2) show ?thesis by (simp add: take_Suc_conv_app_nth)
qed

text \<open>What a report of the page would print.\<close>

definition page_report :: "dtp_time \<Rightarrow> string list" where
  "page_report t = map (\<lambda>j. cnt_line j (dtp_cnts t ! j)) [0..<DTP_PORT_NUM + 1] @ map log_line (page_log t)"

lemma report_copied:
  assumes "cnts_copied (DTP_PORT_NUM + 1) t r" "logs_copied (nat (log_cnt t)) t r" "rlog_cnt r = log_cnt t"
    "wf_page t"
  shows "report_lines r = page_report t"
proof -
  have "map (\<lambda>i. log_line (log r ! i)) [0..<nat (log_cnt t)] = map log_line (page_log t)"
    using assms(2,4) by (auto simp: logs_copied_def page_log_def wf_page_def intro!: nth_equalityI)
  moreover have "map (\<lambda>j. cnt_line j (cnt r ! j)) [0..<DTP_PORT_NUM + 1] =
      map (\<lambda>j. cnt_line j (dtp_cnts t ! j)) [0..<DTP_PORT_NUM + 1]"
    using assms(1) unfolding cnts_copied_def by (intro map_cong refl) (auto simp: cnt_line_def)
  ultimately show ?thesis using assms(3) by (simp add: report_lines_def page_report_def)
qed

section \<open>Properties\<close>

text \<open>
  C12. However the reader's loads and the daemon's writes interleave, the reader indexes its
  counter array, its log array and the page's arrays only inside their bounds.
\<close>

theorem reader_stays_in_buffers:
  assumes "sys_init s0" "reach fname s0 s"
  shows "\<not> overrun (rd s) \<and> pc_ok (pc (rd s)) (length (log (rd s))) \<and>
    length (log_entries (page s)) = length (log (rd s)) \<and> rlog_cnt (rd s) \<le> int (length (log (rd s))) \<and>
    length (cnt (rd s)) = DTP_PORT_NUM + 1 \<and> length (dtp_cnts (page s)) = DTP_PORT_NUM + 1"
  using reach_in_bounds [OF assms(2,1)] by (simp add: in_bounds_def wf_page_def)

text \<open>
  C9. An accepted copy during which the daemon took no lock is exactly the page: every counter
  sample and every log entry agree, so what the reader prints is a report of the page.
\<close>

theorem undisturbed_copy_is_the_page:
  assumes "sys_init s0" "reach fname s0 s" "pc (rd s) = Emit" "gen s = start s"
  shows "report_lines (rd s) = page_report (page s) \<and> flag (page s) = 0"
  using reach_undisturbed [OF assms(2,1)] reach_in_bounds [OF assms(2,1)] assms(3,4)
  by (auto simp: undisturbed_def in_bounds_def intro!: report_copied)

definition example_tm :: tm where
  "example_tm = \<lparr>tm_year = 115, tm_mon = 7, tm_mday = 14, tm_hour = 9, tm_min = 5, tm_sec = 30\<rparr>"

definition example_sys :: sys where
  "example_sys = \<lparr>page = zero_page\<lparr>log_max := int page_log_max\<rparr>, gen = 0, start = 0,
     rd = reader_init (replicate 5 \<lparr>tsc1 = 0, tsc2 = 0, low = 0, high = 0\<rparr>)\<rparr>"

lemma example_sys_init: "sys_init example_sys"
  unfolding sys_init_def
  by (intro conjI exI [of _ "replicate 5 \<lparr>tsc1 = 0, tsc2 = 0, low = 0, high = 0\<rparr>"])
    (simp_all add: example_sys_def wf_page_def zero_page_def DTP_PORT_NUM_def)

lemma example_copy: "pc (rd (reads None example_tm 19 example_sys)) = Emit"
  "gen (reads None example_tm 19 example_sys) = start (reads None example_tm 19 example_sys)"
  by (simp_all add: eval_nat_numeral example_sys_def reader_init_def zero_page_def DTP_PORT_NUM_def store_cnt_def)

theorem reader_stays_in_buffers_witness:
  "\<not> overrun (rd (reads None example_tm 19 example_sys))"
  using reader_stays_in_buffers [OF example_sys_init reach_reads [OF reach.refl]] by blast

theorem undisturbed_copy_is_the_page_witness:
  "report_lines (rd (reads None example_tm 19 example_sys)) = page_report (page (reads None example_tm 19 example_sys))"
  using undisturbed_copy_is_the_page [OF example_sys_init reach_reads [OF reach.refl] example_copy] by simp

definition fresh_page :: dtp_time where
  "fresh_page = zero_page\<lparr>log_max := int page_log_max,
     dtp_cnts := replicate 5 \<lparr>tsc1 = 50, tsc2 = 60, low = 70, high = 0\<rparr>, stores := [St_flag 1, St_flag 0]\<rparr>"

definition mid_sys :: sys where
  "mid_sys = \<lparr>page = fresh_page, gen = 1, start = 0,
     rd = (reader_init (replicate 5 \<lparr>tsc1 = 0, tsc2 = 0, low = 0, high = 0\<rparr>))\<lparr>pc := Cnt_tsc2 0\<rparr>\<rparr>"

definition torn_sys :: sys where
  "torn_sys = reads None example_tm 17 mid_sys"

lemma reach_mid: "reach None example_sys mid_sys"
proof -
  have two: "reads None example_tm 2 example_sys =
      example_sys\<lparr>rd := (rd example_sys)\<lparr>pc := Cnt_tsc2 0\<rparr>\<rparr>"
    by (simp add: eval_nat_numeral example_sys_def reader_init_def zero_page_def DTP_PORT_NUM_def store_cnt_def)
  have "reach None example_sys ((reads None example_tm 2 example_sys)
      \<lparr>page := store (St_flag 0) (fresh_page\<lparr>flag := 1, stores := [St_flag 1]\<rparr>),
        gen := gen (reads None example_tm 2 example_sys) + 1\<rparr>)"
    by (rule reach_lock_write_unlock [OF reach_reads [OF reach.refl]])
      (simp_all add: two, simp_all add: example_sys_def zero_page_def fresh_page_def wf_page_def DTP_PORT_NUM_def)
  moreover have "store (St_flag 0) (fresh_page\<lparr>flag := 1, stores := [St_flag 1]\<rparr>) = fresh_page"
    by (simp add: fresh_page_def zero_page_def)
  ultimately show ?thesis unfolding two by (simp add: mid_sys_def example_sys_def)
qed

lemma torn_eval:
  "rd torn_sys = (rd mid_sys)\<lparr>pc := Emit,
     cnt := \<lparr>tsc1 = 0, tsc2 = 60, low = 70, high = 0\<rparr> # replicate 4 \<lparr>tsc1 = 50, tsc2 = 60, low = 70, high = 0\<rparr>\<rparr>"
  "page torn_sys = fresh_page"
  by (simp_all add: torn_sys_def eval_nat_numeral mid_sys_def reader_init_def fresh_page_def zero_page_def
      DTP_PORT_NUM_def store_cnt_def)

text \<open>
  The lock protocol does not exclude torn samples: there is a run in which the reader
  accepts a copy whose first time stamp is the old one and whose counter value is the new
  one, because a whole daemon turn fell between two of its loads.
\<close>

theorem torn_copy_is_accepted:
  "sys_init example_sys \<and> reach None example_sys torn_sys \<and> pc (rd torn_sys) = Emit \<and>
   tsc1 (cnt (rd torn_sys) ! 0) = tsc1 (dtp_cnts (page example_sys) ! 0) \<and>
   tsc1 (cnt (rd torn_sys) ! 0) \<noteq> tsc1 (dtp_cnts (page torn_sys) ! 0) \<and>
   low (cnt (rd torn_sys) ! 0) = low (dtp_cnts (page torn_sys) ! 0) \<and>
   low (cnt (rd torn_sys) ! 0) \<noteq> low (dtp_cnts (page example_sys) ! 0)"
proof -
  have "reach None example_sys torn_sys"
    unfolding torn_sys_def by (rule reach_reads [OF reach_mid])
  moreover have "tsc1 (dtp_cnts (page example_sys) ! 0) = 0" "low (dtp_cnts (page example_sys) ! 0) = 0"
    by (simp_all add: example_sys_def zero_page_def)
  moreover have "tsc1 (dtp_cnts fresh_page ! 0) = 50" "low (dtp_cnts fresh_page ! 0) = 70"
    by (simp_all add: fresh_page_def)
  ultimately show ?thesis using example_sys_init by (simp add: torn_eval)
qed

text \<open>
  C13. A turn of the running daemon keeps the page's protocol, whatever the hardware answers: if it
  ends, all it stored to the page, in order, is the flag 1, then stores that leave the flag alone
  and the log's count within its capacity, then the flag 0; the page it leaves is well formed, unlocked and
  of the same capacity.  So the lock, each store after it and the unlock are steps of the
  interleaving with the reader, whatever the reader is doing meanwhile.
\<close>

theorem daemon_turn_keeps_protocol:
  assumes "daemon_turn E k = Some k'" "wf_kernel k" "pv_mode (dtp k) \<noteq> 0" "flag (dtp_time k) = 0"
  shows "\<exists>body. let during = (\<lambda>n. fold store (St_flag 1 # take n body) (dtp_time k)) in
    list_all (under_lock (log_max (dtp_time k))) body \<and>
    dtp_time k' = fold store (St_flag 1 # body @ [St_flag 0]) (dtp_time k) \<and>
    wf_page (dtp_time k') \<and> flag (dtp_time k') = 0 \<and> log_max (dtp_time k') = log_max (dtp_time k) \<and>
    (\<forall>r. sys_step fname (r\<lparr>page := dtp_time k\<rparr>) (r\<lparr>page := during 0, gen := gen r + 1\<rparr>) \<and>
      (\<forall>n < length body. sys_step fname (r\<lparr>page := during n\<rparr>) (r\<lparr>page := during (Suc n)\<rparr>)) \<and>
      sys_step fname (r\<lparr>page := during (length body)\<rparr>) (r\<lparr>page := dtp_time k'\<rparr>))"
proof -
  let ?t = "store (St_flag 1) (dtp_time k)"
  have wf: "wf_page (dtp_time k)" using assms(2) by (rule wf_kernel_page)
  from turn_stores [OF assms(1,3) wf] obtain body u where
    w: "writes body ?t u" and k': "dtp_time k' = store (St_flag 0) u" by blast
  have u: "u = fold store body ?t" "list_all (under_lock (log_max (dtp_time k))) body"
    using w by (simp_all add: writes_def)
  have t: "wf_page ?t" "flag ?t = 1" using wf by simp_all
  have keeps: "wf_page u" "flag u = 1" "log_max u = log_max (dtp_time k)" using writes_keeps [OF w] t by simp_all
  have "sys_step fname (r\<lparr>page := dtp_time k\<rparr>) (r\<lparr>page := ?t, gen := gen r + 1\<rparr>)" for r
    using sys_step.lock [of "r\<lparr>page := dtp_time k\<rparr>" fname] assms(4) by simp
  moreover have "sys_step fname (r\<lparr>page := fold store (take n body) ?t\<rparr>) (r\<lparr>page := fold store (take (Suc n) body) ?t\<rparr>)"
    if "n < length body" for r n
    by (rule writes_step [OF w that t])
  moreover have "sys_step fname (r\<lparr>page := u\<rparr>) (r\<lparr>page := dtp_time k'\<rparr>)" for r
    using sys_step.unlock [of "r\<lparr>page := u\<rparr>" fname] keeps(2) k' by simp
  ultimately show ?thesis
    using u keeps k' by (intro exI [of _ body]) (simp add: Let_def del: store_flag, simp)
qed

theorem daemon_turn_keeps_protocol_witness:
  "\<exists>k' body. daemon_turn example_env example_kernel = Some k' \<and>
     stores (dtp_time k') = stores (dtp_time example_kernel) @ St_flag 1 # body @ [St_flag 0]"
proof -
  have "flag (dtp_time example_kernel) = 0" by (simp add: example_kernel_def Let_def)
  moreover have "daemon_ok example_env 4096 vw example_kernel"
    using example_wf example_idle by (auto simp: daemon_ok_def)
  from turn_keeps_ok [OF example_env_nic this] obtain k' where k': "daemon_turn example_env example_kernel = Some k'"
    by blast
  ultimately obtain body where "dtp_time k' = fold store (St_flag 1 # body @ [St_flag 0]) (dtp_time example_kernel)"
    using daemon_turn_keeps_protocol [OF k' example_wf example_mode, where fname = None] by (auto simp: Let_def)
  moreover have "stores (fold store ss t) = stores t @ ss" for ss t
    by (induction ss arbitrary: t) (simp_all add: store_def)
  ultimately show ?thesis using k' by (metis (no_types, lifting))
qed

text \<open>
  A sample is reported once: nothing is printed while the first time stamp is the last
  reported one; a new sample prints one line per counter slot and one per log entry to the
  current stream, which is opened at the first sample of a day's count and closed after the
  last, also when it is the standard output.  When the file cannot be opened, the reader
  prints to a null stream.
\<close>

lemma new_samples_are_reported_once:
  assumes "count r < DAY" "count r \<noteq> 0 \<longrightarrow> fout r = Some f \<and> ev = []"
    and "count r = 0 \<longrightarrow> dtp_file_open fname t opened = (ev, Some f)"
  shows "events (emit fname t opened r) = events r @
      (if tsc1 (cnt r ! 0) = ptsc r then []
       else ev @ map (Printed f) (report_lines r) @ (if count r + 1 = DAY then [Closed f] else [])) \<and>
    ptsc (emit fname t opened r) = tsc1 (cnt r ! 0) \<and> count (emit fname t opened r) < DAY"
proof -
  have rl: "report_lines (r\<lparr>fout := a, events := b, count := c, ptsc := e\<rparr>) = report_lines r"
    "report_lines (r\<lparr>fout := a, count := c, ptsc := e\<rparr>) = report_lines r" for a b c e
    by (simp_all add: report_lines_def)
  show ?thesis using assms by (cases "count r = 0") (auto simp: emit_def Let_def rl DAY_def)
qed

lemma null_stream_crashes:
  assumes "tsc1 (cnt r ! 0) \<noteq> ptsc r" "count r = 0"
  shows "pc (reader_step (Some f) t False p Emit r) = Crashed"
  using assms by (simp add: emit_def dtp_file_open_def Let_def)

lemma length_show02: "n < 100 \<Longrightarrow> length (show02 n) = 2"
  by (auto simp: show02_def show_nat.simps [of n] show_nat.simps [of "n div 10"])

lemma length_year:
  assumes "1000 \<le> n" "n < 10000"
  shows "length (show_nat n) = 4"
proof -
  have "n div 10 div 10 div 10 < 10" "\<not> n div 10 div 10 < 10" "\<not> n div 10 < 10" "\<not> n < 10"
    using assms by auto
  then show ?thesis
    by (simp add: show_nat.simps [of n] show_nat.simps [of "n div 10"] show_nat.simps [of "n div 10 div 10"]
        show_nat.simps [of "n div 10 div 10 div 10"])
qed

text \<open>
  The buffer for the output file's name is large enough: for four-digit years and
  two-digit fields the formatted name is not cut.
\<close>

theorem file_name_is_not_cut:
  assumes "tm_year t + 1900 < 10000" "tm_mon t < 12" "tm_mday t < 32" "tm_hour t < 24" "tm_min t < 60"
    "tm_sec t \<le> 60"
  shows "dtp_file_name fname t = fname @ ''_'' @ show_nat (tm_year t + 1900) @ show02 (tm_mon t + 1) @
    show02 (tm_mday t) @ ''_'' @ show02 (tm_hour t) @ show02 (tm_min t) @ show02 (tm_sec t)"
  using assms by (simp add: dtp_file_name_def length_show02 length_year)

theorem file_name_is_not_cut_witness:
  "dtp_file_name ''log'' example_tm = ''log_20150814_090530''"
  using file_name_is_not_cut [of example_tm "''log''"]
  by (simp add: example_tm_def show02_def) (simp add: show_nat.simps digit_char_def char_of_def bit_0)

lemma cpu_pass_reads_before_array:
  "cpu_pass rand memory 0 x = (if memory = 0 then Inr x else Inl Read_before_array)"
  by simp

text \<open>
  The load generator never gets past the first iteration of its first pass: started with its
  three arguments on a processor it may use, it reads the element before its array at once,
  unless the array has no elements, in which case it loops without touching memory.  Any
  other number of arguments, or a refused processor, ends it before.
\<close>

theorem load_generator_reads_before_array:
  "cpu_main setaff getaff rand (Suc n) argv =
    (if length argv \<noteq> 3 then Cpu_usage
     else if setaff (atoi (argv ! 1)) < 0 \<or> getaff = None then Cpu_exit
     else if cpu_elements (argv ! 2) = 0 then Cpu_running []
     else Cpu_error Read_before_array)"
proof -
  have empty: "cpu_passes rand 0 n [] = Cpu_running []" for n
    by (induction n) simp_all
  show ?thesis
    by (simp add: cpu_main_def cpu_set_cpu_def cpu_get_cpu_def Let_def unat_eq_0 empty)
qed

end
