(* ===== verification/Dtp_Old.thy ===== *)
theory Dtp_Old
  imports Dtp_Daemon
begin

unbundle bit_operations_syntax

text \<open>
  The polling thread of the module's first version (\<^verbatim>\<open>src/sw/daemon/dtp.c\<close>), which samples one
  counter: request channel 0 is written and indication channel 0 read twice, between two reads
  of the time-stamp counter.  That version was written for a controller with a single counter;
  what the thread relies on of it is the locale \<open>old_counter\<close>.
\<close>

section \<open>The thread\<close>

record old_time =
  oflag :: u32
  otsc1 :: u64
  otsc2 :: u64
  olow :: u64

text \<open>
  Where this version finds its channels: it lays both sides out by \<^verbatim>\<open>PORTAL_IND_FIFO\<close>, a macro of the
  generated header like \<^verbatim>\<open>PORTAL_FIFO\<close> and a parameter here.
\<close>

definition old_mapchannel :: "(nat \<Rightarrow> nat) \<Rightarrow> nat \<Rightarrow> nat \<Rightarrow> nat" where
  "old_mapchannel PORTAL_IND_FIFO base index = base + 4 * PORTAL_IND_FIFO index"

definition old_req :: "(nat \<Rightarrow> nat) \<Rightarrow> 'd portal_env \<Rightarrow> nat \<Rightarrow> nat" where
  "old_req PORTAL_IND_FIFO E bar2io = old_mapchannel PORTAL_IND_FIFO (dtp_map_base E bar2io 1) 0"

definition old_res :: "(nat \<Rightarrow> nat) \<Rightarrow> 'd portal_env \<Rightarrow> nat \<Rightarrow> nat" where
  "old_res PORTAL_IND_FIFO E bar2io = old_mapchannel PORTAL_IND_FIFO (dtp_map_base E bar2io 0) 0"

text \<open>One turn of the loop up to the sleep.\<close>

definition old_daemon_turn :: "(nat \<Rightarrow> nat) \<Rightarrow> 'd portal_env \<Rightarrow> nat \<Rightarrow> old_time \<times> 'd portal \<Rightarrow> old_time \<times> 'd portal" where
  "old_daemon_turn F E bar2io s =
     (let (t, p) = s;
          t = t\<lparr>oflag := 1\<rparr>;
          ((ret, dtp, dtp2, ret2), p) = run_state
            (do { ret \<leftarrow> read_tsc E;
                  dtp_write_portal_32bit E (old_req F E bar2io) 1;
                  dtp \<leftarrow> dtp_read_portal_32bit E (old_res F E bar2io);
                  dtp2 \<leftarrow> dtp_read_portal_32bit E (old_res F E bar2io);
                  ret2 \<leftarrow> read_tsc E;
                  State_Monad.return (ret, dtp, dtp2, ret2) }) p;
          t = t\<lparr>otsc1 := ret, otsc2 := ret2, olow := push_bit 32 (ucast dtp) OR ucast dtp2\<rparr>
      in (t\<lparr>oflag := 0\<rparr>, p))"

text \<open>The thread, over what the hardware does while it sleeps and the answers of \<^verbatim>\<open>kthread_should_stop\<close>.\<close>

fun old_run_dtp_daemon ::
  "(nat \<Rightarrow> nat) \<Rightarrow> 'd portal_env \<Rightarrow> nat \<Rightarrow> (('d \<Rightarrow> 'd) \<times> bool) list \<Rightarrow> old_time \<times> 'd portal \<Rightarrow> (old_time \<times> 'd portal) option" where
  "old_run_dtp_daemon F E bar2io [] s = None"
| "old_run_dtp_daemon F E bar2io ((sleep, should_stop) # rest) s =
     (let (t, p) = old_daemon_turn F E bar2io s; s = (t, p\<lparr>dev := sleep (dev p)\<rparr>)
      in if should_stop then Some s else old_run_dtp_daemon F E bar2io rest s)"

text \<open>
  The device file.  The module's count of open files is all its state; the page's physical address
  and the flag value are arguments, and \<^verbatim>\<open>remap_pfn_range\<close> is the kernel's.
\<close>

definition old_fs_open :: "int \<Rightarrow> int \<times> int" where
  "old_fs_open refs = (0, refs + 1)"

definition old_fs_release :: "int \<Rightarrow> int \<times> int" where
  "old_fs_release refs = (0, refs - 1)"

record old_vma =
  ovm_start :: u64
  ovm_end :: u64
  ovm_flags :: u64

definition old_fs_mmap :: "(u64 \<Rightarrow> u64 \<Rightarrow> u64 \<Rightarrow> int) \<Rightarrow> u64 \<Rightarrow> u64 \<Rightarrow> old_vma \<Rightarrow> int \<times> old_vma" where
  "old_fs_mmap remap_pfn_range VM_IO pa vma =
     (if remap_pfn_range (ovm_start vma) (drop_bit 12 pa) (ovm_end vma - ovm_start vma) \<noteq> 0
      then (- 11, vma)
      else (0, vma\<lparr>ovm_flags := ovm_flags vma OR VM_IO\<rparr>))"

text \<open>The thread's course: the state before each turn, where a turn is followed by its sleep.\<close>

definition old_course ::
  "(nat \<Rightarrow> nat) \<Rightarrow> 'd portal_env \<Rightarrow> nat \<Rightarrow> (('d \<Rightarrow> 'd) \<times> bool) list \<Rightarrow> nat \<Rightarrow> (nat \<Rightarrow> old_time \<times> 'd portal) \<Rightarrow> bool" where
  "old_course F E bar2io sched n ss \<longleftrightarrow> (\<forall>m \<le> n. ss (Suc m) =
     (let (t, p) = old_daemon_turn F E bar2io (ss m) in (t, p\<lparr>dev := fst (sched ! m) (dev p)\<rparr>)))"

section \<open>What the thread relies on\<close>

text \<open>
  A device with nothing left to read answers a request with the two halves of its counter, and
  has nothing left when they are read; reading the time stamp changes neither.  Time stamps
  never run backwards.
\<close>

locale old_counter =
  fixes F :: "nat \<Rightarrow> nat"
    and E :: "'d portal_env"
    and bar2io :: nat
    and drained :: "'d \<Rightarrow> bool"
    and cnt :: "'d \<Rightarrow> u64"
    and clock :: "'d \<Rightarrow> u64"
  assumes high_half: "drained d \<Longrightarrow> fst (mmio_read E (old_res F E bar2io) (mmio_write E (old_req F E bar2io) 1 d)) = hi32 (cnt d)"
    and low_half: "drained d \<Longrightarrow>
      fst (mmio_read E (old_res F E bar2io) (snd (mmio_read E (old_res F E bar2io) (mmio_write E (old_req F E bar2io) 1 d)))) = lo32 (cnt d)"
    and read_drains: "drained d \<Longrightarrow>
      drained (snd (mmio_read E (old_res F E bar2io) (snd (mmio_read E (old_res F E bar2io) (mmio_write E (old_req F E bar2io) 1 d)))))"
    and clock_forward: "drained d \<Longrightarrow>
      clock d \<le> clock (snd (mmio_read E (old_res F E bar2io) (snd (mmio_read E (old_res F E bar2io) (mmio_write E (old_req F E bar2io) 1 d)))))"
    and tsc_reads_clock: "fst (native_read_tsc E d) = clock d"
    and tsc_forward: "clock d \<le> clock (snd (native_read_tsc E d))"
    and tsc_keeps: "drained (snd (native_read_tsc E d)) = drained d" "cnt (snd (native_read_tsc E d)) = cnt d"
begin

lemma turn_samples:
  assumes "drained (dev p)"
  shows "let (t', p') = old_daemon_turn F E bar2io (t, p)
    in oflag t' = 0 \<and> olow t' = cnt (dev p) \<and> otsc1 t' = clock (dev p) \<and> otsc1 t' \<le> otsc2 t' \<and> drained (dev p')"
proof -
  define d1 where "d1 = snd (native_read_tsc E (dev p))"
  define d2 where "d2 = snd (mmio_read E (old_res F E bar2io) (mmio_write E (old_req F E bar2io) 1 d1))"
  define d3 where "d3 = snd (mmio_read E (old_res F E bar2io) d2)"
  have d1: "drained d1" "cnt d1 = cnt (dev p)" "clock (dev p) \<le> clock d1"
    using assms tsc_keeps [of "dev p"] tsc_forward by (simp_all add: d1_def)
  have run: "old_daemon_turn F E bar2io (t, p) =
      (t\<lparr>oflag := 0, otsc1 := clock (dev p), otsc2 := clock d3,
         olow := push_bit 32 (ucast (hi32 (cnt (dev p)))) OR ucast (lo32 (cnt (dev p)))\<rparr>,
       p\<lparr>dev := snd (native_read_tsc E d3)\<rparr>)"
    using d1 high_half [of d1] low_half [of d1] unfolding d3_def d2_def
    by (simp add: old_daemon_turn_def read_tsc_def dtp_write_portal_32bit_def dtp_read_portal_32bit_def
        monad_run Let_def case_prod_unfold d1_def tsc_reads_clock)
  have "push_bit 32 (ucast (hi32 (cnt (dev p)))) OR ucast (lo32 (cnt (dev p))) = cnt (dev p)"
    using join64_halves [of "cnt (dev p)"] by (simp add: join64_def)
  moreover have "clock (dev p) \<le> clock d3" "drained d3"
    using d1 clock_forward [of d1] read_drains [of d1] by (auto simp: d2_def d3_def)
  ultimately show ?thesis unfolding run by (simp add: tsc_keeps)
qed

lemma thread_returns:
  assumes "\<forall>(sleep, stop) \<in> set sched. \<forall>d. drained d \<longrightarrow> drained (sleep d)" "drained (dev (snd s))"
    and "n < length sched" "snd (sched ! n)" "\<forall>m < n. \<not> snd (sched ! m)"
  shows "\<exists>ss. ss 0 = s \<and> old_course F E bar2io sched n ss \<and> old_run_dtp_daemon F E bar2io sched s = Some (ss (Suc n)) \<and>
    (\<forall>m \<le> Suc n. drained (dev (snd (ss m))))"
  using assms
proof (induction sched arbitrary: s n)
  case (Cons x sched)
  obtain sleep stop t p t' p' where x: "x = (sleep, stop)" and s: "s = (t, p)"
    and turn: "old_daemon_turn F E bar2io (t, p) = (t', p')" by (metis surj_pair)
  let ?s = "(t', p'\<lparr>dev := sleep (dev p')\<rparr>)"
  from turn_samples [of p t] Cons.prems(2) turn s have "drained (dev p')" by auto
  then have d: "drained (dev (snd ?s))" using Cons.prems(1) x by auto
  show ?case
  proof (cases n)
    case 0
    with Cons.prems d turn x s show ?thesis
      by (intro exI [of _ "\<lambda>m. if m = 0 then s else ?s"]) (auto simp: old_course_def le_Suc_eq)
  next
    case (Suc j)
    with Cons.prems(5) x have "\<not> stop" by auto
    have "\<forall>m < j. \<not> snd (sched ! m)" using Cons.prems(5) Suc by auto
    with Cons.IH [OF _ d, of j] Cons.prems(1,3,4) Suc obtain ss where ss: "ss 0 = ?s" "old_course F E bar2io sched j ss"
      "old_run_dtp_daemon F E bar2io sched ?s = Some (ss (Suc j))" "\<forall>m \<le> Suc j. drained (dev (snd (ss m)))"
      by (simp only: Ball_def length_Cons Suc_less_eq nth_Cons_Suc simp_thms list.set insert_iff) blast
    have "old_course F E bar2io (x # sched) n (case_nat s ss)"
      using ss(1,2) turn x Suc by (auto simp: old_course_def s split: nat.splits)
    moreover have "\<forall>m \<le> Suc n. drained (dev (snd ((case_nat s ss) m)))"
      using ss(4) Cons.prems(2) Suc by (auto split: nat.splits)
    moreover have "old_run_dtp_daemon F E bar2io (x # sched) s = Some (ss (Suc j))"
      using ss(3) turn \<open>\<not> stop\<close> by (simp add: x s)
    ultimately show ?thesis
      by (intro exI [of _ "case_nat s ss"]) (simp add: Suc)
  qed
qed simp

end

section \<open>A device\<close>

text \<open>A controller with one counter and a queue of words behind indication channel 0.\<close>

record old_dev =
  od_cnt :: u64
  od_queue :: "u32 list"
  od_clock :: u64

definition old_env :: "nat \<Rightarrow> old_dev portal_env" where
  "old_env bar2io =
     \<lparr>PORTAL_BASE_OFFSET = 65536, PORTAL_FIFO = (\<lambda>i. 8 + i), PORTAL_CTRL_IND_QUEUE_STATUS = 0,
      CHAN_NUM_req = (\<lambda>_. 0), CHAN_NUM_ind = (\<lambda>_. 0),
      mmio_read = (\<lambda>addr d. if addr = bar2io + 32 \<and> od_queue d \<noteq> []
        then (hd (od_queue d), d\<lparr>od_queue := tl (od_queue d)\<rparr>) else (0, d)),
      mmio_write = (\<lambda>addr w d. if addr = bar2io + 65536 + 32
        then d\<lparr>od_queue := od_queue d @ [hi32 (od_cnt d), lo32 (od_cnt d)], od_cnt := od_cnt d + 1\<rparr> else d),
      native_read_tsc = (\<lambda>d. (od_clock d, d\<lparr>od_clock := max (od_clock d) (od_clock d + 1)\<rparr>))\<rparr>"

interpretation oldc: old_counter "\<lambda>i. 8 + i" "old_env bar2io" bar2io "\<lambda>d. od_queue d = []" od_cnt od_clock for bar2io
  by unfold_locales (simp_all add: old_env_def old_req_def old_res_def old_mapchannel_def dtp_map_base_def)

section \<open>Properties\<close>

text \<open>
  C40. Every turn of the first version's thread leaves the page unlocked with a sample whose
  counter value is the device's, not torn between its halves, between two time stamps in
  order; and the thread makes exactly the turns up to the first wake-up \<open>n\<close> at which it is asked to
  stop, sleeps after each, and returns with the state after the last sleep.  The device answers
  as \<open>old_counter\<close> says, and while the thread sleeps it may do anything that leaves no answer unread.
\<close>

theorem old_daemon_samples_counter:
  assumes "old_counter F E bar2io drained cnt clock" "drained (dev p)"
    and "\<forall>(sleep, stop) \<in> set sched. \<forall>d. drained d \<longrightarrow> drained (sleep d)"
    and "n < length sched" "snd (sched ! n)" "\<forall>m < n. \<not> snd (sched ! m)"
  shows "\<exists>ss. ss 0 = (t, p) \<and> old_course F E bar2io sched n ss \<and>
    old_run_dtp_daemon F E bar2io sched (t, p) = Some (ss (Suc n)) \<and>
    (\<forall>m \<le> n. let (t', p') = old_daemon_turn F E bar2io (ss m); d = dev (snd (ss m))
      in oflag t' = 0 \<and> olow t' = cnt d \<and> otsc1 t' = clock d \<and> otsc1 t' \<le> otsc2 t' \<and> drained (dev p'))"
proof -
  from old_counter.thread_returns [OF assms(1,3) _ assms(4-6), of "(t, p)"] assms(2) obtain ss where
    ss: "ss 0 = (t, p)" "old_course F E bar2io sched n ss"
      "old_run_dtp_daemon F E bar2io sched (t, p) = Some (ss (Suc n))" "\<forall>m \<le> Suc n. drained (dev (snd (ss m)))"
    by auto
  have "let (t', p') = old_daemon_turn F E bar2io (ss m); d = dev (snd (ss m))
      in oflag t' = 0 \<and> olow t' = cnt d \<and> otsc1 t' = clock d \<and> otsc1 t' \<le> otsc2 t' \<and> drained (dev p')" if "m \<le> n" for m
    using old_counter.turn_samples [OF assms(1), of "snd (ss m)" "fst (ss m)"] ss(4) that by (auto simp: Let_def)
  with ss(1-3) show ?thesis by blast
qed

theorem old_daemon_samples_counter_witness:
  "\<exists>ss :: nat \<Rightarrow> old_time \<times> old_dev portal. ss 0 = (\<lparr>oflag = 0, otsc1 = 0, otsc2 = 0, olow = 0\<rparr>,
        \<lparr>portal_request_base = 0, portal_indication_base = 0, portal_indication_status = 0,
         dev = \<lparr>od_cnt = 0x1234567890, od_queue = [], od_clock = 5\<rparr>\<rparr>) \<and>
     old_run_dtp_daemon (\<lambda>i. 8 + i) (old_env 4096) 4096 [(\<lambda>d. d, False), (\<lambda>d. d, True), (\<lambda>d. d, True)] (ss 0) = Some (ss 2) \<and>
     olow (fst (old_daemon_turn (\<lambda>i. 8 + i) (old_env 4096) 4096 (ss 0))) = 0x1234567890"
proof -
  let ?p = "\<lparr>portal_request_base = 0, portal_indication_base = 0, portal_indication_status = 0,
       dev = \<lparr>od_cnt = 0x1234567890, od_queue = [], od_clock = 5\<rparr>\<rparr>"
  let ?t = "\<lparr>oflag = 0, otsc1 = 0, otsc2 = 0, olow = 0\<rparr>"
  let ?s = "[(\<lambda>d. d, False), (\<lambda>d. d, True), (\<lambda>d :: old_dev. d, True)]"
  obtain ss where ss: "ss 0 = (?t, ?p)" "old_run_dtp_daemon (\<lambda>i. 8 + i) (old_env 4096) 4096 ?s (?t, ?p) = Some (ss (Suc 1))"
    "\<forall>m \<le> 1. let (t', p') = old_daemon_turn (\<lambda>i. 8 + i) (old_env 4096) 4096 (ss m); d = dev (snd (ss m))
      in oflag t' = 0 \<and> olow t' = od_cnt d \<and> otsc1 t' = od_clock d \<and> otsc1 t' \<le> otsc2 t' \<and> od_queue (dev p') = []"
    using old_daemon_samples_counter [OF oldc.old_counter_axioms [of 4096], of ?p ?s 1 ?t] by auto
  from ss(3) [rule_format, of 0] ss(1) have "olow (fst (old_daemon_turn (\<lambda>i. 8 + i) (old_env 4096) 4096 (?t, ?p))) = 0x1234567890"
    by (simp add: case_prod_unfold Let_def)
  with ss(1,2) show ?thesis by (intro exI [of _ ss]) (simp add: numeral_2_eq_2)
qed

end
