(* ===== verification/Dtp_Exerciser.thy ===== *)
theory Dtp_Exerciser
  imports Dtp_Controller C_Text
begin

text \<open>
  The exercisers of the DTP card, which query every port each second and print what the card
  answers: \<^verbatim>\<open>src/dtp/cpp/test-dtp.cpp\<close>, \<^verbatim>\<open>src/dtp/examples/mac/test-dtp.cpp\<close>,
  \<^verbatim>\<open>src/dtp/examples/pktgen/test-dtp.cpp\<close> and the earlier \<^verbatim>\<open>src/sw/test-dtp.cpp\<close>.  They are modelled
  together with the card's side, the request methods of \<^verbatim>\<open>src/hw/bsv/DtpController.bsv\<close>, those for
  modes and debug counters included; while a program sleeps the card's state may change in any way,
  between the requests it makes without sleeping the card changes by the requests only.
\<close>

section \<open>The card\<close>

record pcs_debug =
  pcs_bytes :: u64
  pcs_starts :: u64
  pcs_ends :: u64
  pcs_errorframes :: u64
  pcs_frames :: u64

text \<open>The controller's registers, with those only the mode and debug methods use.\<close>

record dtp_card =
  regs :: dtp_ctrl
  switch_mode_reg :: bool
  lread_cnt_enq1 :: "u8 \<Rightarrow> u32"
  lread_cnt_enq2 :: "u8 \<Rightarrow> u32"
  lwrite_cnt_deq1 :: "u8 \<Rightarrow> u32"
  lwrite_cnt_deq2 :: "u8 \<Rightarrow> u32"
  dtp_err_cnt :: "u8 \<Rightarrow> u32"
  tx_debug :: "u8 \<Rightarrow> pcs_debug"
  rx_debug :: "u8 \<Rightarrow> pcs_debug"

text \<open>Requests and responses with their arguments, as the generated proxy and wrapper present them.\<close>

datatype card_request =
    Reset u32 | Get_mode | Set_mode u8 | Read_version | Read_delay u8 | Read_state u8 | Read_error u8
  | Read_cnt u8 | Read_local_cnt u8 | Logger_write_cnt u8 u64 | Logger_read_cnt u8
  | Set_cnt u8 u64 | Read_global_cnt | Set_beacon_interval u8 u32 | Read_beacon_interval u8
  | Debug_rcvd_msg u8 | Debug_sent_msg u8 | Debug_rcvd_err u8 | Debug_tx_pcs u8 | Debug_rx_pcs u8

datatype card_response =
    Version_resp u32 | Delay_resp u8 u32 | State_resp u8 u32 | Error_resp u8 u64 | Cnt_resp u64
  | Logger_read_resp u8 u64 u64 u64 | Local_cnt_resp u8 u64 | Global_cnt_resp u64
  | Beacon_interval_resp u8 u32 | Rcvd_msg_resp u8 u32 u32 u32 | Sent_msg_resp u8 u32 u32 u32
  | Rcvd_err_resp u8 u32 | Mode_resp u8
  | Tx_pcs_resp u8 u64 u64 u64 u64 u64 | Rx_pcs_resp u8 u64 u64 u64 u64 u64

text \<open>The wrapper reassembles the arguments of a response from the words of its message.\<close>

fun decode :: "ind_msg \<Rightarrow> card_response list" where
  "decode (Ind_read_version, [v]) = [Version_resp v]"
| "decode (Ind_read_delay, [p, v]) = [Delay_resp (ucast p) v]"
| "decode (Ind_read_state, [p, v]) = [State_resp (ucast p) v]"
| "decode (Ind_read_error, [p, h, l]) = [Error_resp (ucast p) (join64 h l)]"
| "decode (Ind_read_cnt, [h, l]) = [Cnt_resp (join64 h l)]"
| "decode (Ind_logger_read_cnt, [p, t1, t0, a1, a0, b1, b0]) =
     [Logger_read_resp (ucast p) (join64 t1 t0) (join64 a1 a0) (join64 b1 b0)]"
| "decode (Ind_read_local_cnt, [p, h, l]) = [Local_cnt_resp (ucast p) (join64 h l)]"
| "decode (Ind_read_global_cnt, [h, l]) = [Global_cnt_resp (join64 h l)]"
| "decode (Ind_read_beacon_interval, [p, v]) = [Beacon_interval_resp (ucast p) v]"
| "decode _ = []"

definition ctrl_set_mode :: "u8 \<Rightarrow> dtp_card \<Rightarrow> card_response list \<times> dtp_card" where
  "ctrl_set_mode mode c = ([], c\<lparr>switch_mode_reg := bit mode 0\<rparr>)"

definition ctrl_get_mode :: "dtp_card \<Rightarrow> card_response list \<times> dtp_card" where
  "ctrl_get_mode c = ([Mode_resp (if switch_mode_reg c then 1 else 0)], c)"

definition ctrl_debug_rcvd_msg :: "u8 \<Rightarrow> dtp_card \<Rightarrow> card_response list \<times> dtp_card" where
  "ctrl_debug_rcvd_msg p c =
     (if p < 4 then [Rcvd_msg_resp p (lread_cnt_enq1 c p) (lread_cnt_enq2 c p) (lread_cnt_deq (regs c) p)] else [], c)"

definition ctrl_debug_sent_msg :: "u8 \<Rightarrow> dtp_card \<Rightarrow> card_response list \<times> dtp_card" where
  "ctrl_debug_sent_msg p c =
     (if p < 4 then [Sent_msg_resp p (lwrite_cnt_enq (regs c) p) (lwrite_cnt_deq1 c p) (lwrite_cnt_deq2 c p)] else [], c)"

definition ctrl_debug_rcvd_err :: "u8 \<Rightarrow> dtp_card \<Rightarrow> card_response list \<times> dtp_card" where
  "ctrl_debug_rcvd_err p c = (if p < 4 then [Rcvd_err_resp p (dtp_err_cnt c p)] else [], c)"

definition ctrl_debug_tx_pcs :: "u8 \<Rightarrow> dtp_card \<Rightarrow> card_response list \<times> dtp_card" where
  "ctrl_debug_tx_pcs p c =
     (if p < 4
      then let t = tx_debug c p
           in [Tx_pcs_resp p (pcs_bytes t) (pcs_starts t) (pcs_ends t) (pcs_errorframes t) (pcs_frames t)]
      else [], c)"

definition ctrl_debug_rx_pcs :: "u8 \<Rightarrow> dtp_card \<Rightarrow> card_response list \<times> dtp_card" where
  "ctrl_debug_rx_pcs p c =
     (if p < 4
      then let t = rx_debug c p
           in [Rx_pcs_resp p (pcs_bytes t) (pcs_starts t) (pcs_ends t) (pcs_errorframes t) (pcs_frames t)]
      else [], c)"

text \<open>A method of the driver's interface, on the card.\<close>

definition on_regs :: "(dtp_ctrl \<Rightarrow> ind_msg list \<times> dtp_ctrl) \<Rightarrow> dtp_card \<Rightarrow> card_response list \<times> dtp_card" where
  "on_regs f c = (let (msgs, r) = f (regs c) in (concat (map decode msgs), c\<lparr>regs := r\<rparr>))"

fun serve :: "card_request \<Rightarrow> dtp_card \<Rightarrow> card_response list \<times> dtp_card" where
  "serve (Reset len) c = on_regs (ctrl_reset len) c"
| "serve Get_mode c = ctrl_get_mode c"
| "serve (Set_mode m) c = ctrl_set_mode m c"
| "serve Read_version c = on_regs ctrl_read_version c"
| "serve (Read_delay p) c = on_regs (ctrl_read_delay p) c"
| "serve (Read_state p) c = on_regs (ctrl_read_state p) c"
| "serve (Read_error p) c = on_regs (ctrl_read_error p) c"
| "serve (Read_cnt p) c = on_regs (ctrl_read_cnt p) c"
| "serve (Read_local_cnt p) c = on_regs (ctrl_read_local_cnt p) c"
| "serve (Logger_write_cnt p v) c = on_regs (ctrl_logger_write_cnt p v) c"
| "serve (Logger_read_cnt p) c = on_regs (ctrl_logger_read_cnt p) c"
| "serve (Set_cnt p v) c = on_regs (ctrl_set_cnt p v) c"
| "serve Read_global_cnt c = on_regs ctrl_read_global_cnt c"
| "serve (Set_beacon_interval p v) c = on_regs (ctrl_set_beacon_interval p v) c"
| "serve (Read_beacon_interval p) c = on_regs (ctrl_read_beacon_interval p) c"
| "serve (Debug_rcvd_msg p) c = ctrl_debug_rcvd_msg p c"
| "serve (Debug_sent_msg p) c = ctrl_debug_sent_msg p c"
| "serve (Debug_rcvd_err p) c = ctrl_debug_rcvd_err p c"
| "serve (Debug_tx_pcs p) c = ctrl_debug_tx_pcs p c"
| "serve (Debug_rx_pcs p) c = ctrl_debug_rx_pcs p c"

fun serve_all :: "card_request list \<Rightarrow> dtp_card \<Rightarrow> card_response list \<times> dtp_card" where
  "serve_all [] c = ([], c)"
| "serve_all (r # rs) c = (let (o1, c) = serve r c; (o2, c) = serve_all rs c in (o1 @ o2, c))"

section \<open>The indication handlers\<close>

definition fmt_d :: "'a::len word \<Rightarrow> string" where "fmt_d v = show_int (sint v)"

definition fmt_x :: "'a::len word \<Rightarrow> string" where "fmt_x v = show_hex (unat v)"

text \<open>An 8-bit argument is promoted to an \<^verbatim>\<open>int\<close> before it is printed.\<close>

definition fmt_port :: "u8 \<Rightarrow> string" where "fmt_port p = show_nat (unat p)"

text \<open>The line each handler prints.\<close>

fun dtp_top_print :: "card_response \<Rightarrow> string" where
  "dtp_top_print (Version_resp a) = ''read version '' @ fmt_d a"
| "dtp_top_print (Delay_resp p a) = ''read delay('' @ fmt_port p @ '') '' @ fmt_d a"
| "dtp_top_print (State_resp p a) = ''read state('' @ fmt_port p @ '') '' @ fmt_d a"
| "dtp_top_print (Error_resp p a) = ''read error('' @ fmt_port p @ '') '' @ fmt_d a"
| "dtp_top_print (Cnt_resp a) = ''readCycleCount('' @ fmt_x a @ '')''"
| "dtp_top_print (Logger_read_resp a b c d) =
     ''read from port('' @ fmt_port a @ '') local_cnt('' @ fmt_x b @ '') msg1('' @ fmt_x c @ '') msg2('' @ fmt_x d @ '')''"
| "dtp_top_print (Local_cnt_resp p a) = ''read from port('' @ fmt_port p @ '') local_cnt('' @ fmt_x a @ '')''"
| "dtp_top_print (Global_cnt_resp a) = ''read global_cnt('' @ fmt_x a @ '')''"
| "dtp_top_print (Beacon_interval_resp p a) = ''read from port('' @ fmt_port p @ '') local_cnt('' @ fmt_x a @ '')''"
| "dtp_top_print (Rcvd_msg_resp p a b c) =
     ''read from port('' @ fmt_port p @ '') enq1('' @ fmt_x a @ '') enq2('' @ fmt_x b @ '') deq('' @ fmt_x c @ '')''"
| "dtp_top_print (Sent_msg_resp p a b c) =
     ''read from port('' @ fmt_port p @ '') enq('' @ fmt_x a @ '') deq1('' @ fmt_x b @ '') deq2('' @ fmt_x c @ '')''"
| "dtp_top_print (Rcvd_err_resp p a) = ''read from port('' @ fmt_port p @ '') err('' @ fmt_x a @ '')''"
| "dtp_top_print (Mode_resp a) = ''read from mode('' @ show_hex (unat a) @ '')''"
| "dtp_top_print (Tx_pcs_resp p a b c d e) =
     ''read from port('' @ fmt_port p @ '') tx '' @ fmt_x a @ '' '' @ fmt_x b @ '' '' @ fmt_x c @ '' '' @ fmt_x d @ '' '' @ fmt_x e"
| "dtp_top_print (Rx_pcs_resp p a b c d e) =
     ''read from port('' @ fmt_port p @ '') rx '' @ fmt_x a @ '' '' @ fmt_x b @ '' '' @ fmt_x c @ '' '' @ fmt_x d @ '' '' @ fmt_x e"

text \<open>The forwarding example names the figures of the PCS; its other handlers are those above.\<close>

fun dtp_fwrd_print :: "card_response \<Rightarrow> string" where
  "dtp_fwrd_print (Tx_pcs_resp a b c d e f) =
     ''read from port('' @ fmt_port a @ '') tx bytes('' @ fmt_x b @ '') starts('' @ fmt_x c @ '') ends('' @ fmt_x d @
     '') errorframes('' @ fmt_x e @ '' / '' @ fmt_x f @ '')''"
| "dtp_fwrd_print (Rx_pcs_resp a b c d e f) =
     ''read from port('' @ fmt_port a @ '') rx bytes('' @ fmt_x b @ '') starts('' @ fmt_x c @ '') ends('' @ fmt_x d @
     '') errorframes('' @ fmt_x e @ '' / '' @ fmt_x f @ '')''"
| "dtp_fwrd_print r = dtp_top_print r"

text \<open>The earlier interface has no PCS figures: \<open>None\<close> where there is no handler.\<close>

fun dtp_user_print :: "card_response \<Rightarrow> string option" where
  "dtp_user_print (Tx_pcs_resp a b c d e f) = None"
| "dtp_user_print (Rx_pcs_resp a b c d e f) = None"
| "dtp_user_print r = Some (dtp_top_print r)"

text \<open>
  The generator's exerciser declares the handlers of the PCS figures with one argument fewer than
  the interface has, so those responses have no handler here either.
\<close>

fun dtp_pktgen_print :: "card_response \<Rightarrow> string option" where
  "dtp_pktgen_print (Tx_pcs_resp a b c d e f) = None"
| "dtp_pktgen_print (Rx_pcs_resp a b c d e f) = None"
| "dtp_pktgen_print r = Some (dtp_top_print r)"

section \<open>The programs\<close>

text \<open>The requests before the loop, and those of one turn of it for the value of \<open>count\<close>.\<close>

definition exerciser_setup :: "card_request list" where
  "exerciser_setup = [Reset 32, Get_mode, Read_version]"

definition ports :: "nat \<Rightarrow> (u8 \<Rightarrow> card_request list) \<Rightarrow> card_request list" where
  "ports n f = concat (map (\<lambda>i. f (of_nat i)) [0..<n])"

text \<open>What a program does in a turn: request after request, and sleeping in between.\<close>

datatype card_action = Request card_request | Sleep

definition requests :: "nat \<Rightarrow> (u8 \<Rightarrow> card_request list) \<Rightarrow> card_action list" where
  "requests n f = map Request (ports n f)"

definition dtp_top_turn :: "u32 \<Rightarrow> card_action list \<times> u32" where
  "dtp_top_turn count =
     (requests 2 (\<lambda>i. [Read_delay i, Read_state i, Read_error i, Read_cnt i, Read_local_cnt i]) @
      [Sleep] @
      requests 2 (\<lambda>i. [Logger_write_cnt i (ucast count)]) @
      requests 2 (\<lambda>i. [Logger_read_cnt i]) @
      [Sleep], count + 1)"

definition dtp_fwrd_turn :: "card_action list" where
  "dtp_fwrd_turn =
     requests 2 (\<lambda>i. [Read_delay i, Read_state i, Read_error i, Read_cnt i, Read_local_cnt i, Debug_tx_pcs i, Debug_rx_pcs i]) @
     [Sleep]"

definition dtp_pktgen_turn :: "card_action list" where
  "dtp_pktgen_turn =
     requests 2 (\<lambda>i. [Read_delay i, Read_state i, Read_error i, Read_cnt i, Read_local_cnt i, Debug_tx_pcs i, Debug_rx_pcs i]) @
     [Sleep]"

definition dtp_user_turn :: "u32 \<Rightarrow> card_action list \<times> u32" where
  "dtp_user_turn count =
     (requests 1 (\<lambda>i. [Read_delay i, Read_state i, Read_error i, Read_cnt i]) @
      [Sleep] @
      requests 4 (\<lambda>i. [Logger_write_cnt i (ucast count)]) @
      requests 4 (\<lambda>i. [Logger_read_cnt i]) @
      [Sleep], count + 1)"

text \<open>The actions of a turn: \<open>sleep s\<close> is what happens to the card in the turn's sleep number \<open>s\<close>.\<close>

fun perform ::
  "(nat \<Rightarrow> dtp_card \<Rightarrow> dtp_card) \<Rightarrow> nat \<Rightarrow> card_action list \<Rightarrow> dtp_card \<Rightarrow> card_response list \<times> dtp_card" where
  "perform sleep s [] c = ([], c)"
| "perform sleep s (Sleep # as) c = perform sleep (s + 1) as (sleep s c)"
| "perform sleep s (Request r # as) c =
     (let (o1, c) = serve r c; (o2, c) = perform sleep s as c in (o1 @ o2, c))"

text \<open>
  The first turns of a program whose loop has the body \<open>turn\<close>: what the card answers, the card and
  the counter after them.  \<open>env k s\<close> is what happens to the card in sleep \<open>s\<close> of turn \<open>k\<close>.
\<close>

fun exercise ::
  "(u32 \<Rightarrow> card_action list \<times> u32) \<Rightarrow> (nat \<Rightarrow> nat \<Rightarrow> dtp_card \<Rightarrow> dtp_card) \<Rightarrow> nat \<Rightarrow> u32 \<times> dtp_card \<Rightarrow>
     card_response list list \<times> u32 \<times> dtp_card" where
  "exercise turn env 0 (count, c) = ([], count, c)"
| "exercise turn env (Suc n) (count, c) =
     (let (outs, count, c) = exercise turn env n (count, c);
          (actions, count) = turn count;
          (out, c) = perform (env n) 0 actions c
      in (outs @ [out], count, c))"

text \<open>A whole program up to its \<open>n\<close>-th turn, its counter starting with \<open>start\<close>.\<close>

definition exerciser_run ::
  "(u32 \<Rightarrow> card_action list \<times> u32) \<Rightarrow> u32 \<Rightarrow> (nat \<Rightarrow> nat \<Rightarrow> dtp_card \<Rightarrow> dtp_card) \<Rightarrow> nat \<Rightarrow> dtp_card \<Rightarrow> card_response list list \<times> u32 \<times> dtp_card" where
  "exerciser_run turn start env n c =
     (let (out, c) = serve_all exerciser_setup c; (outs, rest) = exercise turn env n (start, c)
      in (out # outs, rest))"

definition dtp_top_main :: "(nat \<Rightarrow> nat \<Rightarrow> dtp_card \<Rightarrow> dtp_card) \<Rightarrow> nat \<Rightarrow> dtp_card \<Rightarrow> card_response list list \<times> u32 \<times> dtp_card" where
  "dtp_top_main = exerciser_run dtp_top_turn 100"

definition dtp_fwrd_main :: "(nat \<Rightarrow> nat \<Rightarrow> dtp_card \<Rightarrow> dtp_card) \<Rightarrow> nat \<Rightarrow> dtp_card \<Rightarrow> card_response list list \<times> u32 \<times> dtp_card" where
  "dtp_fwrd_main = exerciser_run (\<lambda>count. (dtp_fwrd_turn, count)) 0"

definition dtp_pktgen_main :: "(nat \<Rightarrow> nat \<Rightarrow> dtp_card \<Rightarrow> dtp_card) \<Rightarrow> nat \<Rightarrow> dtp_card \<Rightarrow> card_response list list \<times> u32 \<times> dtp_card" where
  "dtp_pktgen_main = exerciser_run (\<lambda>count. (dtp_pktgen_turn, count)) 0"

definition user_test_main :: "(nat \<Rightarrow> nat \<Rightarrow> dtp_card \<Rightarrow> dtp_card) \<Rightarrow> nat \<Rightarrow> dtp_card \<Rightarrow> card_response list list \<times> u32 \<times> dtp_card" where
  "user_test_main = exerciser_run dtp_user_turn 100"

section \<open>What a turn reports\<close>

text \<open>The answers to the queries of a port, and to the reading of its log.\<close>

definition port_report :: "dtp_ctrl \<Rightarrow> u8 \<Rightarrow> card_response list" where
  "port_report r i =
     [Delay_resp i (delay_reg r i), State_resp i (state_reg r i), Error_resp i (jumpc_reg r i), Cnt_resp (ucast (cycle_reg r))]"

definition local_report :: "dtp_ctrl \<Rightarrow> u8 \<Rightarrow> card_response list" where
  "local_report r i = [Local_cnt_resp i (ucast (clocal_reg r i) + 3)]"

definition log_report :: "dtp_ctrl \<Rightarrow> u8 \<Rightarrow> card_response list" where
  "log_report r i = (case log_queue r i of [] \<Rightarrow> [] | (t, m1, m2) # _ \<Rightarrow> [Logger_read_resp i t m1 m2])"

definition pcs_report :: "dtp_card \<Rightarrow> u8 \<Rightarrow> card_response list" where
  "pcs_report c i = fst (ctrl_debug_tx_pcs i c) @ fst (ctrl_debug_rx_pcs i c)"

lemma serve_all_append:
  "serve_all (xs @ ys) c = (let (o1, c1) = serve_all xs c; (o2, c2) = serve_all ys c1 in (o1 @ o2, c2))"
  by (induction xs arbitrary: c) (simp_all add: Let_def case_prod_unfold)

lemma perform_requests:
  "perform sleep s (map Request rs @ as) c =
     (let (o1, c) = serve_all rs c; (o2, c) = perform sleep s as c in (o1 @ o2, c))"
  by (induction rs arbitrary: c) (simp_all add: Let_def case_prod_unfold)

lemma port_word [simp]: "(ucast (ucast (p :: u8) :: u32) :: u8) = p"
  by (rule bit_word_eqI) (simp add: bit_simps)

lemma serve_queries:
  assumes "p < 4"
  shows "serve (Read_delay p) c = ([Delay_resp p (delay_reg (regs c) p)], c)"
    "serve (Read_state p) c = ([State_resp p (state_reg (regs c) p)], c)"
    "serve (Read_error p) c = ([Error_resp p (jumpc_reg (regs c) p)], c)"
    "serve (Read_cnt p) c = ([Cnt_resp (ucast (cycle_reg (regs c)))], c)"
    "serve (Read_local_cnt p) c = ([Local_cnt_resp p (ucast (clocal_reg (regs c) p) + 3)], c)"
    "serve_all [Debug_tx_pcs p, Debug_rx_pcs p] c = (pcs_report c p, c)"
  using assms
  by (simp_all add: on_regs_def ctrl_method_defs ctrl_debug_tx_pcs_def ctrl_debug_rx_pcs_def pcs_report_def Let_def)

text \<open>Requests that only read: the card answers each from the same state.\<close>

lemma serve_all_reading:
  assumes "\<And>i. i \<in> set is \<Longrightarrow> serve_all (f i) c = (g i, c)"
  shows "serve_all (concat (map f is)) c = (concat (map g is), c)"
  using assms by (induction "is") (simp_all add: serve_all_append)

lemma serve_all_ports:
  assumes "n \<le> 4" "\<And>i. i < 4 \<Longrightarrow> serve_all (f i) c = (g i, c)"
  shows "serve_all (ports n f) c = (concat (map (\<lambda>i. g (of_nat i)) [0..<n]), c)"
  unfolding ports_def
proof (rule serve_all_reading)
  fix i assume "i \<in> set [0..<n]"
  with assms(1) have "(of_nat i :: u8) < 4" by (simp add: word_less_nat_alt unsigned_of_nat take_bit_nat_eq_self)
  then show "serve_all (f (of_nat i)) c = (g (of_nat i), c)" by (rule assms(2))
qed

lemma port_queries:
  assumes "n \<le> 4"
  shows "serve_all (ports n (\<lambda>i. [Read_delay i, Read_state i, Read_error i, Read_cnt i])) c =
      (concat (map (\<lambda>i. port_report (regs c) (of_nat i)) [0..<n]), c)"
    "serve_all (ports n (\<lambda>i. [Read_delay i, Read_state i, Read_error i, Read_cnt i, Read_local_cnt i])) c =
      (concat (map (\<lambda>i. port_report (regs c) (of_nat i) @ local_report (regs c) (of_nat i)) [0..<n]), c)"
    "serve_all (ports n (\<lambda>i. [Read_delay i, Read_state i, Read_error i, Read_cnt i, Read_local_cnt i, Debug_tx_pcs i, Debug_rx_pcs i])) c =
      (concat (map (\<lambda>i. port_report (regs c) (of_nat i) @ local_report (regs c) (of_nat i) @ pcs_report c (of_nat i)) [0..<n]), c)"
  by (rule serve_all_ports [OF assms];
      use serve_queries in \<open>simp add: port_report_def local_report_def del: serve.simps\<close>)+

text \<open>The log requests of a turn, over the first \<open>n\<close> ports.\<close>

lemma serve_logger_write:
  assumes "p < 4"
  obtains c' where "serve (Logger_write_cnt p v) c = ([], c')" "same_regs (regs c) (regs c')"
    "log_queue (regs c') = log_queue (regs c)" "lwrite_data_cycle2 (regs c') = lwrite_data_cycle2 (regs c) @ [(p, v)]"
proof -
  obtain r where r: "ctrl_logger_write_cnt p v (regs c) = ([], r)" using assms by (simp add: ctrl_logger_write_cnt_def)
  with ctrl_logger_write_cnt_queue [where p = p and m = v and c = "regs c"] ctrl_logger_write_cnt_sent [OF assms, where m = v and c = "regs c"]
    that [of "c\<lparr>regs := r\<rparr>"] show thesis by (simp add: on_regs_def)
qed

lemma serve_logger_read:
  assumes "p < 4"
  obtains c' where "serve (Logger_read_cnt p) c = (log_report (regs c) p, c')" "same_regs (regs c) (regs c')"
    "log_queue (regs c') = (log_queue (regs c))(p := drop 1 (log_queue (regs c) p))"
    "lwrite_data_cycle2 (regs c') = lwrite_data_cycle2 (regs c)"
proof (cases "log_queue (regs c) p")
  case Nil
  with ctrl_logger_read_cnt_queue [OF assms, of "regs c"] that [of c] show thesis
    by (simp add: on_regs_def log_report_def fun_upd_idem)
next
  case (Cons m q)
  obtain t m1 m2 where m: "m = (t, m1, m2)" by (metis prod_cases3)
  with Cons ctrl_logger_read_cnt_queue [OF assms, of "regs c"] obtain r where
    "ctrl_logger_read_cnt p (regs c) = ([(Ind_logger_read_cnt,
        [ucast p, hi32 t, lo32 t, hi32 m1, lo32 m1, hi32 m2, lo32 m2])], r)"
    "log_queue r = (log_queue (regs c))(p := q)" "same_regs (regs c) r" "lwrite_data_cycle2 r = lwrite_data_cycle2 (regs c)"
    by auto
  with Cons m that [of "c\<lparr>regs := r\<rparr>"] show thesis by (simp add: on_regs_def log_report_def)
qed

lemma ports_Suc: "ports (Suc n) f = ports n f @ f (of_nat n)"
  by (simp add: ports_def)

lemma port_less: "n < 4 \<Longrightarrow> (of_nat n :: u8) < 4"
  by (simp add: word_less_nat_alt unsigned_of_nat take_bit_nat_eq_self)

lemma port_writes:
  assumes "n \<le> 4"
  shows "\<exists>c'. serve_all (ports n (\<lambda>i. [Logger_write_cnt i v])) c = ([], c') \<and> same_regs (regs c) (regs c') \<and>
    log_queue (regs c') = log_queue (regs c) \<and>
    lwrite_data_cycle2 (regs c') = lwrite_data_cycle2 (regs c) @ map (\<lambda>i. (of_nat i, v)) [0..<n]"
  using assms
proof (induction n)
  case (Suc n)
  then obtain c1 where c1: "serve_all (ports n (\<lambda>i. [Logger_write_cnt i v])) c = ([], c1)" "same_regs (regs c) (regs c1)"
    "log_queue (regs c1) = log_queue (regs c)"
    "lwrite_data_cycle2 (regs c1) = lwrite_data_cycle2 (regs c) @ map (\<lambda>i. (of_nat i, v)) [0..<n]" by auto
  obtain c2 where "serve (Logger_write_cnt (of_nat n) v) c1 = ([], c2)" "same_regs (regs c1) (regs c2)"
    "log_queue (regs c2) = log_queue (regs c1)" "lwrite_data_cycle2 (regs c2) = lwrite_data_cycle2 (regs c1) @ [(of_nat n, v)]"
    by (rule serve_logger_write [of "of_nat n" v c1]) (use Suc.prems port_less in auto)
  with c1 show ?case by (auto simp: ports_Suc serve_all_append simp del: serve.simps intro: same_regs_trans)
qed (simp add: ports_def)

lemma port_reads:
  assumes "n \<le> 4"
  shows "\<exists>c'. serve_all (ports n (\<lambda>i. [Logger_read_cnt i])) c =
      (concat (map (\<lambda>i. log_report (regs c) (of_nat i)) [0..<n]), c') \<and> same_regs (regs c) (regs c') \<and>
    (\<forall>p. log_queue (regs c') p = (if unat p < n then drop 1 (log_queue (regs c) p) else log_queue (regs c) p)) \<and>
    lwrite_data_cycle2 (regs c') = lwrite_data_cycle2 (regs c)"
  using assms
proof (induction n)
  case (Suc n)
  let ?r = "\<lambda>c. map (\<lambda>i. log_report (regs c) (of_nat i)) [0..<n]"
  from Suc obtain c1 where c1: "serve_all (ports n (\<lambda>i. [Logger_read_cnt i])) c = (concat (?r c), c1)" "same_regs (regs c) (regs c1)"
    "\<forall>p. log_queue (regs c1) p = (if unat p < n then drop 1 (log_queue (regs c) p) else log_queue (regs c) p)"
    "lwrite_data_cycle2 (regs c1) = lwrite_data_cycle2 (regs c)" by auto
  obtain c2 where c2: "serve (Logger_read_cnt (of_nat n)) c1 = (log_report (regs c1) (of_nat n), c2)" "same_regs (regs c1) (regs c2)"
    "log_queue (regs c2) = (log_queue (regs c1))(of_nat n := drop 1 (log_queue (regs c1) (of_nat n)))"
    "lwrite_data_cycle2 (regs c2) = lwrite_data_cycle2 (regs c1)"
    by (rule serve_logger_read [of "of_nat n" c1]) (use Suc.prems port_less in auto)
  have n: "unat (of_nat n :: u8) = n" using Suc.prems by (simp add: unsigned_of_nat take_bit_nat_eq_self)
  then have "log_report (regs c1) (of_nat n) = log_report (regs c) (of_nat n)" using c1(3) by (simp add: log_report_def)
  moreover have "log_queue (regs c2) p = (if unat p < Suc n then drop 1 (log_queue (regs c) p) else log_queue (regs c) p)" for p
    using c1(3) c2(3) n by (cases "p = of_nat n") (auto simp: less_Suc_eq)
  ultimately show ?case
    using c1 c2 by (auto simp: ports_Suc serve_all_append simp del: serve.simps intro: same_regs_trans)
qed (simp add: ports_def)

lemma log_report_cong: "log_queue r = log_queue r' \<Longrightarrow> log_report r = log_report r'"
  by (simp add: log_report_def fun_eq_iff)

text \<open>
  A turn that queries the ports with \<open>queries\<close>, sleeps, writes and reads the logs of the first \<open>k\<close> ports
  and sleeps again.
\<close>

lemma log_turn:
  assumes "k \<le> 4" "serve_all queries c = (report, c)"
  shows "\<exists>d. perform sleep 0 (map Request queries @ [Sleep] @ requests k (\<lambda>i. [Logger_write_cnt i v]) @
        requests k (\<lambda>i. [Logger_read_cnt i]) @ [Sleep]) c =
      (report @ concat (map (\<lambda>i. log_report (regs (sleep 0 c)) (of_nat i)) [0..<k]), sleep 1 d) \<and>
    same_regs (regs (sleep 0 c)) (regs d) \<and>
    lwrite_data_cycle2 (regs d) = lwrite_data_cycle2 (regs (sleep 0 c)) @ map (\<lambda>i. (of_nat i, v)) [0..<k] \<and>
    (\<forall>p. log_queue (regs d) p = (if unat p < k then drop 1 else id) (log_queue (regs (sleep 0 c)) p))"
proof -
  let ?c = "sleep 0 c"
  from port_writes [OF assms(1), of v ?c] obtain c1 where
    c1: "serve_all (ports k (\<lambda>i. [Logger_write_cnt i v])) ?c = ([], c1)" "same_regs (regs ?c) (regs c1)"
    "log_queue (regs c1) = log_queue (regs ?c)"
    "lwrite_data_cycle2 (regs c1) = lwrite_data_cycle2 (regs ?c) @ map (\<lambda>i. (of_nat i, v)) [0..<k]" by blast
  from port_reads [OF assms(1), of c1] obtain c2 where
    c2: "serve_all (ports k (\<lambda>i. [Logger_read_cnt i])) c1 = (concat (map (\<lambda>i. log_report (regs c1) (of_nat i)) [0..<k]), c2)"
    "same_regs (regs c1) (regs c2)"
    "\<forall>p. log_queue (regs c2) p = (if unat p < k then drop 1 (log_queue (regs c1) p) else log_queue (regs c1) p)"
    "lwrite_data_cycle2 (regs c2) = lwrite_data_cycle2 (regs c1)" by blast
  from same_regs_trans [OF c1(2) c2(2)] c1 c2 assms(2) log_report_cong [OF c1(3)] show ?thesis
    by (intro exI [of _ c2]) (simp add: requests_def perform_requests)
qed

lemma exercise_count:
  assumes "\<And>k. snd (turn k) = k + 1"
  shows "fst (snd (exercise turn env n (m, c))) = m + of_nat n"
  using assms by (induction n) (simp_all add: Let_def case_prod_unfold)

lemma exercise_Suc:
  assumes "exercise turn env n (m, c0) = (outs, count, c)" "perform (env n) 0 (fst (turn count)) c = (out, d)"
  shows "exercise turn env (Suc n) (m, c0) = (outs @ [out], snd (turn count), d)"
  using assms by (simp add: Let_def case_prod_unfold)

lemma exerciser_run_Suc:
  assumes "exerciser_run turn m env n c0 = (outs, count, c)" "\<And>k. snd (turn k) = k + 1"
  shows "count = m + of_nat n"
    and "perform (env n) 0 (fst (turn count)) c = (out, d) \<Longrightarrow>
      exerciser_run turn m env (Suc n) c0 = (outs @ [out], m + of_nat (Suc n), d)"
proof -
  obtain o1 c1 where first: "serve_all exerciser_setup c0 = (o1, c1)" by force
  with assms(1) obtain outs1 where ex: "exercise turn env n (m, c1) = (outs1, count, c)" "outs = o1 # outs1"
    by (auto simp: exerciser_run_def split: prod.splits)
  show count: "count = m + of_nat n" using exercise_count [of turn env n m c1] ex(1) assms(2) by simp
  assume "perform (env n) 0 (fst (turn count)) c = (out, d)"
  from exercise_Suc [OF ex(1) this] show "exerciser_run turn m env (Suc n) c0 = (outs @ [out], m + of_nat (Suc n), d)"
    by (simp add: exerciser_run_def first ex(2) assms(2) count del: exercise.simps perform.simps)
qed

lemma upt_2 [simp]: "[0..<2] = [0, Suc 0]" and upt_4: "[0..<4] = [0, 1, 2, 3]"
  by (simp_all add: upt_conv_Cons numeral_eq_Suc)

lemma unat_less_port: "unat (p :: u8) < 2 \<longleftrightarrow> p < 2" "unat p < 4 \<longleftrightarrow> p < 4"
  by (simp_all add: word_less_nat_alt)

lemma top_turn:
  "\<exists>d. perform sleep 0 (fst (dtp_top_turn count)) c =
      (concat (map (\<lambda>i. port_report (regs c) i @ local_report (regs c) i) [0, 1]) @
       concat (map (log_report (regs (sleep 0 c))) [0, 1]), sleep 1 d) \<and>
    same_regs (regs (sleep 0 c)) (regs d) \<and>
    lwrite_data_cycle2 (regs d) = lwrite_data_cycle2 (regs (sleep 0 c)) @ map (\<lambda>i. (i, ucast count)) [0, 1] \<and>
    (\<forall>p. log_queue (regs d) p = (if p < 2 then drop 1 else id) (log_queue (regs (sleep 0 c)) p))"
  using log_turn [OF _ port_queries(2) [of 2 c], of 2 sleep "ucast count"]
  by (simp add: dtp_top_turn_def requests_def unat_less_port del: perform.simps)

lemma user_turn:
  "\<exists>d. perform sleep 0 (fst (dtp_user_turn count)) c =
      (port_report (regs c) 0 @ concat (map (log_report (regs (sleep 0 c))) [0, 1, 2, 3]), sleep 1 d) \<and>
    same_regs (regs (sleep 0 c)) (regs d) \<and>
    lwrite_data_cycle2 (regs d) = lwrite_data_cycle2 (regs (sleep 0 c)) @ map (\<lambda>i. (i, ucast count)) [0, 1, 2, 3] \<and>
    (\<forall>p. log_queue (regs d) p = (if p < 4 then drop 1 else id) (log_queue (regs (sleep 0 c)) p))"
  using log_turn [OF _ port_queries(1) [of 1 c], of 4 sleep "ucast count"]
  by (simp add: dtp_user_turn_def requests_def unat_less_port upt_4 del: perform.simps)

section \<open>What the lines tell apart\<close>

text \<open>
  The answers to two different queries print alike: a beacon interval is reported under the label
  of the local counter.  The programs that share a response print it alike.
\<close>

lemma beacon_prints_as_local_cnt:
  "dtp_top_print (Beacon_interval_resp p a) = dtp_top_print (Local_cnt_resp p (ucast a))"
  by (simp add: fmt_x_def unsigned_ucast_eq take_bit_nat_eq_self order_less_trans [OF unsigned_less])

lemma prints_agree:
  "dtp_user_print r = Some l \<Longrightarrow> dtp_top_print r = l \<and> dtp_fwrd_print r = l \<and> dtp_pktgen_print r = Some l"
  by (cases r) simp_all

section \<open>Requests and the type of their answers\<close>

datatype resp_kind = K_version | K_delay | K_state | K_error | K_cnt | K_logger | K_local | K_global | K_beacon
  | K_rcvd_msg | K_sent_msg | K_rcvd_err | K_mode | K_tx_pcs | K_rx_pcs

text \<open>The kind and the port of a response, and those a request asks for.\<close>

fun response_type :: "card_response \<Rightarrow> resp_kind \<times> u8 option" where
  "response_type (Version_resp _) = (K_version, None)"
| "response_type (Delay_resp p _) = (K_delay, Some p)"
| "response_type (State_resp p _) = (K_state, Some p)"
| "response_type (Error_resp p _) = (K_error, Some p)"
| "response_type (Cnt_resp _) = (K_cnt, None)"
| "response_type (Logger_read_resp p _ _ _) = (K_logger, Some p)"
| "response_type (Local_cnt_resp p _) = (K_local, Some p)"
| "response_type (Global_cnt_resp _) = (K_global, None)"
| "response_type (Beacon_interval_resp p _) = (K_beacon, Some p)"
| "response_type (Rcvd_msg_resp p _ _ _) = (K_rcvd_msg, Some p)"
| "response_type (Sent_msg_resp p _ _ _) = (K_sent_msg, Some p)"
| "response_type (Rcvd_err_resp p _) = (K_rcvd_err, Some p)"
| "response_type (Mode_resp _) = (K_mode, None)"
| "response_type (Tx_pcs_resp p _ _ _ _ _) = (K_tx_pcs, Some p)"
| "response_type (Rx_pcs_resp p _ _ _ _ _) = (K_rx_pcs, Some p)"

fun request_type :: "card_request \<Rightarrow> (resp_kind \<times> u8 option) option" where
  "request_type Read_version = Some (K_version, None)"
| "request_type (Read_delay p) = Some (K_delay, Some p)"
| "request_type (Read_state p) = Some (K_state, Some p)"
| "request_type (Read_error p) = Some (K_error, Some p)"
| "request_type (Read_cnt _) = Some (K_cnt, None)"
| "request_type (Logger_read_cnt p) = Some (K_logger, Some p)"
| "request_type (Read_local_cnt p) = Some (K_local, Some p)"
| "request_type Read_global_cnt = Some (K_global, None)"
| "request_type (Read_beacon_interval p) = Some (K_beacon, Some p)"
| "request_type (Debug_rcvd_msg p) = Some (K_rcvd_msg, Some p)"
| "request_type (Debug_sent_msg p) = Some (K_sent_msg, Some p)"
| "request_type (Debug_rcvd_err p) = Some (K_rcvd_err, Some p)"
| "request_type Get_mode = Some (K_mode, None)"
| "request_type (Debug_tx_pcs p) = Some (K_tx_pcs, Some p)"
| "request_type (Debug_rx_pcs p) = Some (K_rx_pcs, Some p)"
| "request_type _ = None"

text \<open>
  The answers of one request: none to a command, one to a query whose response carries no port, and to a
  query for a port's value one, none when the card has no such port, and at most one to the reading of a log.
\<close>

definition well_typed :: "card_request \<Rightarrow> card_response list \<Rightarrow> bool" where
  "well_typed r out \<longleftrightarrow>
     (case request_type r of
        None \<Rightarrow> out = []
      | Some (k, p) \<Rightarrow>
          (if case_option True (\<lambda>p. p < 4) p then map response_type out = [(k, p)] \<or> k = K_logger \<and> out = [] else out = []))"

lemma serve_well_typed: "well_typed r (fst (serve r c))"
  by (cases r)
    (simp_all add: well_typed_def on_regs_def ctrl_method_defs ctrl_logger_read_cnt_def ctrl_get_mode_def ctrl_set_mode_def
      ctrl_debug_rcvd_msg_def ctrl_debug_sent_msg_def ctrl_debug_rcvd_err_def ctrl_debug_tx_pcs_def ctrl_debug_rx_pcs_def
      Let_def split: list.split)

section \<open>Properties\<close>

text \<open>
  C32. Turn \<open>n\<close> of the current exerciser.  Every query of the turn is answered, in the order of the
  requests, with the registers of the port it names as the card has them when the turn begins;
  then the program sleeps a second, in which the card may change in any way; after it the two
  ports are sent the message \<open>100 + n\<close>, counted modulo $2^{32}$, and each answers with the oldest
  message its log holds then, if there is one, which is removed; none of the registers the queries read
  is changed by this; and the program sleeps again.  The earlier exerciser does the same with the queries of one port
  and the logs of four.  Outside the sleeps the card changes by the requests only.
\<close>

theorem exerciser_turn_reports_card:
  assumes "dtp_top_main env n c0 = (outs, count, c)" "user_test_main env' n c0' = (outs', count', c')"
  shows "(\<exists>d. dtp_top_main env (Suc n) c0 =
      (outs @ [concat (map (\<lambda>i. port_report (regs c) i @ local_report (regs c) i) [0, 1]) @ concat (map (log_report (regs (env n 0 c))) [0, 1])], 100 + of_nat (Suc n), env n 1 d) \<and>
      same_regs (regs (env n 0 c)) (regs d) \<and>
      lwrite_data_cycle2 (regs d) = lwrite_data_cycle2 (regs (env n 0 c)) @ map (\<lambda>i. (i, ucast (100 + of_nat n :: u32))) [0, 1] \<and>
      (\<forall>p. log_queue (regs d) p = (if p < 2 then drop 1 else id) (log_queue (regs (env n 0 c)) p))) \<and>
    (\<exists>d. user_test_main env' (Suc n) c0' =
      (outs' @ [port_report (regs c') 0 @ concat (map (log_report (regs (env' n 0 c'))) [0, 1, 2, 3])], 100 + of_nat (Suc n), env' n 1 d) \<and>
      same_regs (regs (env' n 0 c')) (regs d) \<and>
      lwrite_data_cycle2 (regs d) = lwrite_data_cycle2 (regs (env' n 0 c')) @ map (\<lambda>i. (i, ucast (100 + of_nat n :: u32))) [0, 1, 2, 3] \<and>
      (\<forall>p. log_queue (regs d) p = (if p < 4 then drop 1 else id) (log_queue (regs (env' n 0 c')) p)))"
proof (rule conjI)
  note run = exerciser_run_Suc [OF assms(1) [unfolded dtp_top_main_def]]
  have next_turn: "snd (dtp_top_turn k) = k + 1" for k by (simp add: dtp_top_turn_def)
  show "\<exists>d. dtp_top_main env (Suc n) c0 =
      (outs @ [concat (map (\<lambda>i. port_report (regs c) i @ local_report (regs c) i) [0, 1]) @ concat (map (log_report (regs (env n 0 c))) [0, 1])], 100 + of_nat (Suc n), env n 1 d) \<and>
      same_regs (regs (env n 0 c)) (regs d) \<and>
      lwrite_data_cycle2 (regs d) = lwrite_data_cycle2 (regs (env n 0 c)) @ map (\<lambda>i. (i, ucast (100 + of_nat n :: u32))) [0, 1] \<and>
      (\<forall>p. log_queue (regs d) p = (if p < 2 then drop 1 else id) (log_queue (regs (env n 0 c)) p))"
    using top_turn [of "env n" count c] run(2) [OF next_turn] unfolding run(1) [OF next_turn] dtp_top_main_def by blast
next
  note run = exerciser_run_Suc [OF assms(2) [unfolded user_test_main_def]]
  have next_turn: "snd (dtp_user_turn k) = k + 1" for k by (simp add: dtp_user_turn_def)
  show "\<exists>d. user_test_main env' (Suc n) c0' =
      (outs' @ [port_report (regs c') 0 @ concat (map (log_report (regs (env' n 0 c'))) [0, 1, 2, 3])], 100 + of_nat (Suc n), env' n 1 d) \<and>
      same_regs (regs (env' n 0 c')) (regs d) \<and>
      lwrite_data_cycle2 (regs d) = lwrite_data_cycle2 (regs (env' n 0 c')) @ map (\<lambda>i. (i, ucast (100 + of_nat n :: u32))) [0, 1, 2, 3] \<and>
      (\<forall>p. log_queue (regs d) p = (if p < 4 then drop 1 else id) (log_queue (regs (env' n 0 c')) p))"
    using user_turn [of "env' n" count' c'] run(2) [OF next_turn] unfolding run(1) [OF next_turn] user_test_main_def by blast
qed

definition idle_regs :: dtp_ctrl where
  "idle_regs = \<lparr>version = 1, delay_reg = (\<lambda>_. 40), state_reg = (\<lambda>_. 2), jumpc_reg = (\<lambda>_. 0), clocal_reg = (\<lambda>_. 7),
     cglobal_reg = 7, cycle_reg = 7, beacon_interval_reg = (\<lambda>_. 750), lread_data_cycle1 = (\<lambda>_. [5]), lread_data_cycle2 = (\<lambda>_. [6]),
     lread_data_timestamp = (\<lambda>_. [4]), lwrite_data_cycle1 = [], lwrite_data_cycle2 = [], lwrite_cnt_enq = (\<lambda>_. 0),
     lread_cnt_deq = (\<lambda>_. 0), dtp_rst_cntr = 0\<rparr>"

definition idle_card :: dtp_card where
  "idle_card = \<lparr>regs = idle_regs, switch_mode_reg = False, lread_cnt_enq1 = (\<lambda>_. 0), lread_cnt_enq2 = (\<lambda>_. 0), lwrite_cnt_deq1 = (\<lambda>_. 0),
     lwrite_cnt_deq2 = (\<lambda>_. 0), dtp_err_cnt = (\<lambda>_. 0),
     tx_debug = (\<lambda>_. \<lparr>pcs_bytes = 0, pcs_starts = 0, pcs_ends = 0, pcs_errorframes = 0, pcs_frames = 0\<rparr>),
     rx_debug = (\<lambda>_. \<lparr>pcs_bytes = 0, pcs_starts = 0, pcs_ends = 0, pcs_errorframes = 0, pcs_frames = 0\<rparr>)\<rparr>"

text \<open>A message that arrives in the first sleep is reported in the same turn.\<close>

theorem exerciser_turn_reports_card_witness:
  "\<exists>outs d. dtp_top_main (\<lambda>_ s c. if s = 0 then idle_card else c) 1 (idle_card\<lparr>regs := idle_regs\<lparr>lread_data_cycle1 := (\<lambda>_. []),
        lread_data_cycle2 := (\<lambda>_. []), lread_data_timestamp := (\<lambda>_. [])\<rparr>\<rparr>) =
     (outs @ [[Delay_resp 0 40, State_resp 0 2, Error_resp 0 0, Cnt_resp 7, Local_cnt_resp 0 10,
               Delay_resp 1 40, State_resp 1 2, Error_resp 1 0, Cnt_resp 7, Local_cnt_resp 1 10,
               Logger_read_resp 0 4 5 6, Logger_read_resp 1 4 5 6]], 101, d) \<and>
     lwrite_data_cycle2 (regs d) = [(0, 100), (1, 100)]"
proof -
  let ?env = "\<lambda>_ s c. if s = (0 :: nat) then idle_card else c"
  let ?c0 = "idle_card\<lparr>regs := idle_regs\<lparr>lread_data_cycle1 := (\<lambda>_. []), lread_data_cycle2 := (\<lambda>_. []),
    lread_data_timestamp := (\<lambda>_. [])\<rparr>\<rparr>"
  have start: "dtp_top_main ?env 0 ?c0 = ([fst (serve_all exerciser_setup ?c0)], 100, snd (serve_all exerciser_setup ?c0))"
    by (simp add: dtp_top_main_def exerciser_run_def case_prod_unfold Let_def del: serve_all.simps)
  obtain outs' count' c' where user: "user_test_main ?env 0 ?c0 = (outs', count', c')" by (metis prod_cases3)
  have "port_report (regs (snd (serve_all exerciser_setup ?c0))) i = [Delay_resp i 40, State_resp i 2, Error_resp i 0, Cnt_resp 7]"
    "local_report (regs (snd (serve_all exerciser_setup ?c0))) i = [Local_cnt_resp i 10]" for i
    by (simp_all add: exerciser_setup_def on_regs_def ctrl_method_defs ctrl_get_mode_def port_report_def local_report_def
        idle_card_def idle_regs_def Let_def)
  with exerciser_turn_reports_card [OF start user] show ?thesis
    by (simp add: log_report_def log_queue_def) (auto simp: idle_card_def idle_regs_def)
qed

text \<open>
  C33. Whatever the requests and the state of the card, the answers to a sequence of requests split
  into one group per request, in order, each of the type its request asks for.  A command gets no
  answer.  A query that asks for a port's value gets none when the port is beyond the four, otherwise exactly
  one response of its kind that carries the port, except that the reading of a log also may get none.  The queries
  whose response carries no port, which are those of the version, the mode, the global counter and the cycle count (whose port
  argument is ignored), always get exactly one response of their kind.
\<close>

theorem card_answers_are_typed:
  "\<exists>outs. fst (serve_all reqs c) = concat outs \<and> list_all2 well_typed reqs outs"
proof (induction reqs arbitrary: c)
  case (Cons r reqs)
  obtain o1 c1 where r: "serve r c = (o1, c1)" by (cases "serve r c")
  obtain outs where "fst (serve_all reqs c1) = concat outs" "list_all2 well_typed reqs outs" using Cons by blast
  with r serve_well_typed [of r c] show ?case
    by (intro exI [of _ "o1 # outs"]) (simp add: case_prod_unfold Let_def)
qed simp

end
