(* ===== verification/Lpcap.thy ===== *)
theory Lpcap
  imports C_Text Complex_Main
begin

text \<open>
  The packet library of the test programs (\<^verbatim>\<open>src/sw/lpcap.c\<close>, \<^verbatim>\<open>src/sw/lpcap.h\<close>) and the older
  copies of its \<^verbatim>\<open>mem_copy\<close>: cutting a captured packet into the 128-bit beats of the device's
  packet interface, feeding a capture file to the device, and the helpers for command lines
  and rates.  Memory is a function from byte addresses to bytes, because the last 64-bit load
  of a packet may reach past its end.  What the pcap library delivers is an argument.
\<close>

section \<open>Beats\<close>

text \<open>A little-endian 64-bit load.\<close>

definition load64 :: "(nat \<Rightarrow> u8) \<Rightarrow> nat \<Rightarrow> u64" where
  "load64 mem a = fold (\<lambda>k w. w OR push_bit (8 * k) (ucast (mem (a + k)))) [0..<8] 0"

text \<open>The arguments of \<^verbatim>\<open>device_writePacketData\<close>.\<close>

record beat =
  data0 :: u64
  data1 :: u64
  mask0 :: u8
  mask1 :: u8
  sop :: bool
  eop :: bool

definition beat_mask :: "nat \<Rightarrow> u8" where
  "beat_mask packet_size = (push_bit packet_size 1 - 1) AND 0xff"

text \<open>
  The loop of \<^verbatim>\<open>mem_copy\<close> from index \<open>i\<close>: the local arrays \<^verbatim>\<open>data\<close> and \<^verbatim>\<open>mask\<close> are pairs, the
  result is the calls of \<^verbatim>\<open>device_writePacketData\<close>.
\<close>

definition set_half :: "nat \<Rightarrow> 'a \<Rightarrow> 'a \<times> 'a \<Rightarrow> 'a \<times> 'a" where
  "set_half i v p = (if i mod 2 = 0 then (v, snd p) else (fst p, v))"

function mem_copy_loop ::
  "(nat \<Rightarrow> u8) \<Rightarrow> nat \<Rightarrow> nat \<Rightarrow> nat \<Rightarrow> u64 \<times> u64 \<Rightarrow> u8 \<times> u8 \<Rightarrow> beat list" where
  "mem_copy_loop buff numBeats i packet_size data msk =
     (if i < numBeats then
        let data = set_half i (load64 buff (8 * i)) data;
            msk = set_half i (if packet_size > 8 then 0xff else beat_mask packet_size) msk;
            packet_size = (if packet_size > 8 then packet_size - 8 else 0);
            sop' = (i div 2 = 0);
            eop' = (i div 2 = (numBeats - 1) div 2);
            out = (if i mod 2 \<noteq> 0
                   then [\<lparr>data0 = fst data, data1 = snd data, mask0 = fst msk, mask1 = snd msk, sop = sop', eop = eop'\<rparr>]
                   else []);
            last = (numBeats mod 2 \<noteq> 0 \<and> i = numBeats - 1);
            data = (if last then (fst data, 0) else data);
            msk = (if last then (fst msk, 0) else msk);
            out = out @ (if last
                   then [\<lparr>data0 = fst data, data1 = snd data, mask0 = fst msk, mask1 = snd msk, sop = sop', eop = True\<rparr>]
                   else [])
        in out @ mem_copy_loop buff numBeats (i + 1) packet_size data msk
      else [])"
  by auto
termination by (relation "measure (\<lambda>(buff, numBeats, i, packet_size, data, msk). numBeats - i)") auto

declare mem_copy_loop.simps [simp del]

definition num_beats :: "nat \<Rightarrow> nat" where
  "num_beats packet_size = packet_size div 8 + (if packet_size mod 8 \<noteq> 0 then 1 else 0)"

definition mem_copy :: "(nat \<Rightarrow> u8) \<Rightarrow> nat \<Rightarrow> beat list" where
  "mem_copy buff packet_size = mem_copy_loop buff (num_beats packet_size) 0 packet_size (0, 0) (0, 0)"

text \<open>The copies in \<^verbatim>\<open>src/p4/cpp/test.cpp\<close> and \<^verbatim>\<open>src/p4/examples/packetbuf/cpp/test.cpp\<close> send no byte masks.\<close>

function plain_copy_loop :: "(nat \<Rightarrow> u8) \<Rightarrow> nat \<Rightarrow> nat \<Rightarrow> u64 \<times> u64 \<Rightarrow> beat list" where
  "plain_copy_loop buff numBeats i data =
     (if i < numBeats then
        let data = set_half i (load64 buff (8 * i)) data;
            sop' = (i div 2 = 0);
            eop' = (i div 2 = (numBeats - 1) div 2);
            out = (if i mod 2 \<noteq> 0
                   then [\<lparr>data0 = fst data, data1 = snd data, mask0 = 0xff, mask1 = 0xff, sop = sop', eop = eop'\<rparr>]
                   else []);
            last = (numBeats mod 2 \<noteq> 0 \<and> i = numBeats - 1);
            data = (if last then (fst data, 0) else data);
            out = out @ (if last
                   then [\<lparr>data0 = fst data, data1 = snd data, mask0 = 0xff, mask1 = 0xff, sop = sop', eop = True\<rparr>]
                   else [])
        in out @ plain_copy_loop buff numBeats (i + 1) data
      else [])"
  by auto
termination by (relation "measure (\<lambda>(buff, numBeats, i, data). numBeats - i)") auto

declare plain_copy_loop.simps [simp del]

definition p4_mem_copy :: "(nat \<Rightarrow> u8) \<Rightarrow> nat \<Rightarrow> beat list" where
  "p4_mem_copy buff packet_size = plain_copy_loop buff (num_beats packet_size) 0 (0, 0)"

definition packetbuf_mem_copy :: "(nat \<Rightarrow> u8) \<Rightarrow> nat \<Rightarrow> beat list" where
  "packetbuf_mem_copy buff packet_size = plain_copy_loop buff (num_beats packet_size) 0 (0, 0)"

section \<open>Specification of the beats\<close>

fun packet_beats :: "(nat \<Rightarrow> u8) \<Rightarrow> nat \<Rightarrow> nat \<Rightarrow> bool \<Rightarrow> beat list" where
  "packet_beats buff a n first =
     (if n = 0 then []
      else if n \<le> 8
      then [\<lparr>data0 = load64 buff a, data1 = 0, mask0 = beat_mask n, mask1 = 0, sop = first, eop = True\<rparr>]
      else if n \<le> 16
      then [\<lparr>data0 = load64 buff a, data1 = load64 buff (a + 8), mask0 = 0xff, mask1 = beat_mask (n - 8),
              sop = first, eop = True\<rparr>]
      else \<lparr>data0 = load64 buff a, data1 = load64 buff (a + 8), mask0 = 0xff, mask1 = 0xff,
             sop = first, eop = False\<rparr> # packet_beats buff (a + 16) (n - 16) False)"

declare packet_beats.simps [simp del]

lemma num_beats_ge: "n \<le> 8 * num_beats n" "0 < n \<Longrightarrow> 8 * num_beats n < n + 8"
proof -
  have n: "n = 8 * (n div 8) + n mod 8" "n mod 8 < 8" by simp_all
  show "n \<le> 8 * num_beats n"
  proof (cases "n mod 8 = 0")
    case True
    with n(1) have "8 * num_beats n = n" by (simp add: num_beats_def)
    then show ?thesis by simp
  next
    case False
    then have "8 * num_beats n = 8 * (n div 8) + 8" by (simp add: num_beats_def)
    with n show ?thesis by linarith
  qed
  show "8 * num_beats n < n + 8" if "0 < n"
  proof (cases "n mod 8 = 0")
    case True
    with n(1) have "8 * num_beats n = n" by (simp add: num_beats_def)
    then show ?thesis by simp
  next
    case False
    then have "8 * num_beats n = 8 * (n div 8) + 8" "0 < n mod 8" by (simp_all add: num_beats_def)
    with n(1) show ?thesis by linarith
  qed
qed

lemma num_beats_le8: "0 < n \<Longrightarrow> n \<le> 8 \<Longrightarrow> num_beats n = 1"
  using num_beats_ge [of n] by simp

lemma num_beats_le16: "8 < n \<Longrightarrow> n \<le> 16 \<Longrightarrow> num_beats n = 2"
  using num_beats_ge [of n] by simp

lemma num_beats_add: "num_beats (k + 16) = num_beats k + 2"
proof -
  have "(k + 16) div 8 = k div 8 + 2" "(k + 16) mod 8 = k mod 8"
    using div_mult_self1 [of 8 k 2] mod_mult_self1 [of k 2 8] by simp_all
  then show ?thesis by (simp add: num_beats_def)
qed

lemma num_beats_step: "16 < n \<Longrightarrow> num_beats n = num_beats (n - 16) + 2"
  using num_beats_add [of "n - 16"] by simp

lemma mem_copy_loop_done: "\<not> i < nb \<Longrightarrow> mem_copy_loop buff nb i n d m = []"
  by (subst mem_copy_loop.simps) simp

text \<open>Two iterations of the loop inside the packet send one beat.\<close>

lemma mem_copy_loop_pair:
  assumes "n > 16" "nb > 2 * j + 2"
  shows "mem_copy_loop buff nb (2 * j) n d m =
    \<lparr>data0 = load64 buff (16 * j), data1 = load64 buff (16 * j + 8), mask0 = 0xff, mask1 = 0xff,
     sop = (j = 0), eop = False\<rparr> #
    mem_copy_loop buff nb (2 * Suc j) (n - 16) (load64 buff (16 * j), load64 buff (16 * j + 8)) (0xff, 0xff)"
proof -
  have idx: "2 * j < nb" "2 * j \<noteq> nb - 1" "2 * j \<noteq> nb - Suc 0" "Suc (2 * j) < nb" "Suc (2 * j) \<noteq> nb - 1"
    "Suc (2 * j) \<noteq> nb - Suc 0" "j \<noteq> (nb - 1) div 2" "j \<noteq> (nb - Suc 0) div 2" "8 < n" "8 < n - 8"
    using assms by linarith+
  have one: "mem_copy_loop buff nb (2 * j) n d m =
      mem_copy_loop buff nb (Suc (2 * j)) (n - 8) (load64 buff (16 * j), snd d) (0xff, snd m)"
    by (subst mem_copy_loop.simps) (simp add: idx set_half_def Let_def)
  have two: "mem_copy_loop buff nb (Suc (2 * j)) (n - 8) d m =
      \<lparr>data0 = fst d, data1 = load64 buff (16 * j + 8), mask0 = fst m, mask1 = 0xff, sop = (j = 0), eop = False\<rparr> #
      mem_copy_loop buff nb (2 * Suc j) (n - 16) (fst d, load64 buff (16 * j + 8)) (fst m, 0xff)" for d m
    by (subst mem_copy_loop.simps) (simp add: idx set_half_def Let_def add.commute)
  show ?thesis by (simp add: one two)
qed

text \<open>From an even index the loop sends the rest of the packet.\<close>

lemma mem_copy_loop_even:
  assumes "n > 0"
  shows "mem_copy_loop buff (2 * j + num_beats n) (2 * j) n d m = packet_beats buff (16 * j) n (j = 0)"
  using assms
proof (induction n arbitrary: j d m rule: less_induct)
  case (less n)
  consider "n \<le> 8" | "8 < n" "n \<le> 16" | "16 < n" by linarith
  then show ?case
  proof cases
    case 1
    with less.prems have "num_beats n = 1" "\<not> 8 < n" using num_beats_le8 by auto
    with 1 less.prems show ?thesis
      by (subst mem_copy_loop.simps)
        (simp add: set_half_def Let_def packet_beats.simps [of buff _ n] mem_copy_loop_done)
  next
    case 2
    then have n: "\<not> 8 < n - 8" "num_beats n = 2" using num_beats_le16 by auto
    with 2 have "mem_copy_loop buff (2 * j + 2) (2 * j) n d m =
        mem_copy_loop buff (2 * j + 2) (Suc (2 * j)) (n - 8) (load64 buff (16 * j), snd d) (0xff, snd m)"
      by (subst mem_copy_loop.simps) (simp add: set_half_def Let_def)
    moreover have "mem_copy_loop buff (2 * j + 2) (Suc (2 * j)) (n - 8) d m =
        [\<lparr>data0 = fst d, data1 = load64 buff (16 * j + 8), mask0 = fst m, mask1 = beat_mask (n - 8),
          sop = (j = 0), eop = True\<rparr>]" for d m
      using n(1) by (subst mem_copy_loop.simps) (simp add: set_half_def Let_def mem_copy_loop_done add.commute)
    ultimately show ?thesis
      using 2 n(2) by (simp add: packet_beats.simps [of buff _ n])
  next
    case 3
    have nb: "num_beats (n - 16) > 0" using 3 num_beats_ge(1) [of "n - 16"] by linarith
    have "mem_copy_loop buff (2 * Suc j + num_beats (n - 16)) (2 * Suc j) (n - 16) d m =
        packet_beats buff (16 * Suc j) (n - 16) False" for d m
      using less.IH [of "n - 16" "Suc j"] 3 by simp
    then show ?thesis
      using mem_copy_loop_pair [OF 3, of j "2 * j + num_beats n" buff d m] nb 3
      by (subst packet_beats.simps) (simp add: num_beats_step add.commute)
  qed
qed

lemma mem_copy_beats: "mem_copy buff n = packet_beats buff 0 n True"
proof (cases "n = 0")
  case True
  then show ?thesis
    by (simp add: mem_copy_def num_beats_def mem_copy_loop.simps packet_beats.simps)
next
  case False
  then show ?thesis using mem_copy_loop_even [of n buff 0] by (simp add: mem_copy_def)
qed

section \<open>Reassembly\<close>

text \<open>The bytes of a beat that its masks mark as valid, lowest address first.\<close>

definition byte_at :: "nat \<Rightarrow> u64 \<Rightarrow> u8" where
  "byte_at k w = ucast (drop_bit (8 * k) w)"

definition valid_bytes :: "u64 \<Rightarrow> u8 \<Rightarrow> u8 list" where
  "valid_bytes w m = map (\<lambda>k. byte_at k w) (filter (\<lambda>k. bit m k) [0..<8])"

definition beat_bytes :: "beat \<Rightarrow> u8 list" where
  "beat_bytes b = valid_bytes (data0 b) (mask0 b) @ valid_bytes (data1 b) (mask1 b)"

lemma bit_load:
  "bit (fold (\<lambda>k w. w OR push_bit (8 * k) (ucast (mem (a + k) :: u8))) [0..<m] (0 :: u64)) i \<longleftrightarrow>
     i < 64 \<and> i div 8 < m \<and> bit (mem (a + i div 8)) (i mod 8)"
proof (induction m)
  case (Suc m)
  have "bit (push_bit (8 * m) (ucast (mem (a + m)) :: u64)) i \<longleftrightarrow>
      i < 64 \<and> i div 8 = m \<and> bit (mem (a + i div 8)) (i mod 8)"
  proof (cases "i div 8 = m")
    case True
    then have "i = 8 * m + i mod 8" using mult_div_mod_eq [of 8 i] by simp
    then have "8 * m \<le> i" "i - 8 * m = i mod 8" by linarith+
    with True show ?thesis by (auto simp: bit_simps)
  next
    case False
    have "\<not> bit (mem (a + m)) (i - 8 * m)" if "8 * m \<le> i"
    proof -
      from that have "m \<le> i div 8" by (simp add: less_eq_div_iff_mult_less_eq mult.commute)
      with False have "8 * Suc m \<le> 8 * (i div 8)" by simp
      also have "8 * (i div 8) \<le> i" by simp
      finally have "8 \<le> i - 8 * m" by simp
      then show ?thesis using bit_imp_le_length [of "mem (a + m)" "i - 8 * m"] by auto
    qed
    with False show ?thesis by (auto simp: bit_simps)
  qed
  with Suc show ?case by (auto simp: bit_simps less_Suc_eq)
qed simp

lemma byte_at_load64:
  assumes "k < 8"
  shows "byte_at k (load64 mem a) = mem (a + k)"
proof (rule bit_word_eqI)
  fix n assume n: "n < LENGTH(8)"
  with assms have "(8 * k + n) div 8 = k" "(8 * k + n) mod 8 = n" "8 * k + n < 64" by auto
  with n assms show "bit (byte_at k (load64 mem a)) n = bit (mem (a + k)) n"
    unfolding load64_def byte_at_def by (simp add: bit_simps bit_load)
qed

lemma bit_full_mask: "k < 8 \<Longrightarrow> bit (0xff :: u8) k"
proof -
  assume "k < 8"
  then have "k \<in> {0, 1, 2, 3, 4, 5, 6, 7}" by auto
  then show ?thesis by (auto simp: bit_numeral_simps)
qed

lemma bit_beat_mask: "n \<le> 8 \<Longrightarrow> k < 8 \<Longrightarrow> bit (beat_mask n) k \<longleftrightarrow> k < n"
proof -
  assume k: "n \<le> 8" "k < 8"
  have "beat_mask n = mask n AND 0xff" by (simp add: beat_mask_def push_bit_of_1 mask_eq_exp_minus_1)
  then have "bit (beat_mask n) k \<longleftrightarrow> bit (mask n :: u8) k \<and> bit (0xff :: u8) k" by (simp only: bit_and_iff)
  with bit_full_mask [OF k(2)] k show ?thesis by (auto simp only: bit_mask_iff) simp
qed

lemma filter_less_upt: "n \<le> m \<Longrightarrow> filter (\<lambda>k. k < n) [0..<m] = [0..<n]"
  by (induction m) (auto simp: le_Suc_eq)

lemma upt_split: "i \<le> j \<Longrightarrow> j \<le> k \<Longrightarrow> [i..<k] = [i..<j] @ [j..<k]"
  using upt_add_eq_append [of i j "k - j"] by simp

lemma valid_bytes_mask:
  assumes "n \<le> 8"
  shows "valid_bytes (load64 mem a) (beat_mask n) = map mem [a..<a + n]"
proof -
  have "filter (\<lambda>k. bit (beat_mask n) k) [0..<8] = [0..<n]"
  proof -
    have "filter (\<lambda>k. bit (beat_mask n) k) [0..<8] = filter (\<lambda>k. k < n) [0..<8]"
      using bit_beat_mask [OF assms] by (intro filter_cong) auto
    also have "\<dots> = [0..<n]" using assms by (simp add: filter_less_upt)
    finally show ?thesis .
  qed
  then show ?thesis
    using assms by (auto simp: valid_bytes_def byte_at_load64 intro!: nth_equalityI)
qed

lemma valid_bytes_full: "valid_bytes (load64 mem a) 0xff = map mem [a..<a + 8]"
proof -
  have "filter (\<lambda>k. bit (0xff :: u8) k) [0..<8] = [0..<8]"
    using bit_full_mask by (intro filter_True) auto
  then show ?thesis
    by (auto simp: valid_bytes_def byte_at_load64 intro!: nth_equalityI)
qed

lemma valid_bytes_none [simp]: "valid_bytes w 0 = []"
  by (simp add: valid_bytes_def)

lemma packet_beats_bytes: "concat (map beat_bytes (packet_beats buff a n first)) = map buff [a..<a + n]"
proof (induction n arbitrary: a first rule: less_induct)
  case (less n)
  consider "n = 0" | "0 < n" "n \<le> 8" | "8 < n" "n \<le> 16" | "16 < n" by linarith
  then show ?case
  proof cases
    case 3
    then have "map buff [a..<a + n] = map buff [a..<a + 8] @ map buff [a + 8..<a + n]"
      using upt_split [of a "a + 8" "a + n"] by simp
    with 3 show ?thesis
      by (simp add: packet_beats.simps [of buff a n] beat_bytes_def valid_bytes_full valid_bytes_mask)
  next
    case 4
    then have "map buff [a..<a + n] = map buff [a..<a + 8] @ map buff [a + 8..<a + 16] @ map buff [a + 16..<a + n]"
      using upt_split [of a "a + 8" "a + n"] upt_split [of "a + 8" "a + 16" "a + n"] by simp
    with 4 less.IH [of "n - 16" "a + 16" False] show ?thesis
      by (simp add: packet_beats.simps [of buff a n] beat_bytes_def valid_bytes_full add.commute)
  qed (simp_all add: packet_beats.simps [of buff a n] packet_beats.simps [of buff a 0] beat_bytes_def valid_bytes_mask)
qed

lemma upt_Suc_shift: "[0..<Suc k] = 0 # map Suc [0..<k]"
  by (simp add: upt_conv_Cons map_Suc_upt del: upt_Suc)

text \<open>The framing flags: start on the first beat, end on the last.\<close>

lemma packet_beats_framing:
  "length (packet_beats buff a n first) = (n + 15) div 16 \<and>
   map sop (packet_beats buff a n first) = map (\<lambda>i. first \<and> i = 0) [0..<(n + 15) div 16] \<and>
   map eop (packet_beats buff a n first) = map (\<lambda>i. Suc i = (n + 15) div 16) [0..<(n + 15) div 16]"
proof (induction n arbitrary: a first rule: less_induct)
  case (less n)
  consider "n = 0" | "0 < n" "n \<le> 16" | "16 < n" by linarith
  then show ?case
  proof cases
    case 1
    then show ?thesis by (simp add: packet_beats.simps [of buff a 0])
  next
    case 2
    then have "(n + 15) div 16 = 1" by (simp add: div_nat_eqI)
    with 2 show ?thesis by (simp add: packet_beats.simps [of buff a n])
  next
    case 3
    then have k: "(n + 15) div 16 = Suc ((n - 16 + 15) div 16)"
      using div_add_self2 [of 16 "n - 16 + 15"] by simp
    from 3 less.IH [of "n - 16" "a + 16" False] show ?thesis
      unfolding k upt_Suc_shift by (simp add: packet_beats.simps [of buff a n])
  qed
qed

text \<open>The receiver: beats collected up to an end flag make a frame.\<close>

fun frames :: "beat list \<Rightarrow> u8 list \<Rightarrow> u8 list list" where
  "frames [] acc = []"
| "frames (b # bs) acc = (if eop b then (acc @ beat_bytes b) # frames bs [] else frames bs (acc @ beat_bytes b))"

lemma frames_packet:
  assumes "n > 0"
  shows "frames (packet_beats buff a n first @ rest) acc = (acc @ map buff [a..<a + n]) # frames rest []"
  using assms
proof (induction n arbitrary: a first acc rule: less_induct)
  case (less n)
  have bytes: "concat (map beat_bytes (packet_beats buff a n first)) = map buff [a..<a + n]"
    by (rule packet_beats_bytes)
  show ?case
  proof (cases "n \<le> 16")
    case True
    then obtain b where b: "packet_beats buff a n first = [b]" "eop b"
      using less.prems by (cases "n \<le> 8") (simp_all add: packet_beats.simps [of buff a n])
    with bytes show ?thesis by simp
  next
    case False
    then obtain b where b: "packet_beats buff a n first = b # packet_beats buff (a + 16) (n - 16) False" "\<not> eop b"
      by (simp add: packet_beats.simps [of buff a n])
    moreover have "beat_bytes b @ map buff [a + 16..<a + n] = map buff [a..<a + n]"
      using bytes packet_beats_bytes [of buff "a + 16" "n - 16" False] False by (simp add: b)
    ultimately show ?thesis
      using less.IH [of "n - 16" "a + 16" False "acc @ beat_bytes b"] False by simp
  qed
qed

section \<open>Capture files\<close>

record pcap_trace_info =
  packet_count :: u64
  byte_count :: u64

text \<open>A captured packet: its bytes (with what follows them in memory), its captured and its original length.\<close>

record capture =
  cap_data :: "nat \<Rightarrow> u8"
  caplen :: nat
  caplen_orig :: u32

fun pcap_loop :: "capture list \<Rightarrow> pcap_trace_info \<Rightarrow> beat list \<times> pcap_trace_info" where
  "pcap_loop [] info = ([], info)"
| "pcap_loop (p # ps) info =
     (let out = mem_copy (cap_data p) (caplen p);
          info = info\<lparr>byte_count := byte_count info + ucast (caplen_orig p), packet_count := packet_count info + 1\<rparr>;
          (rest, info) = pcap_loop ps info
      in (out @ rest, info))"

text \<open>\<open>None\<close> is the exit when the file cannot be opened.\<close>

definition load_pcap_file :: "capture list option \<Rightarrow> pcap_trace_info \<Rightarrow> (beat list \<times> pcap_trace_info) option" where
  "load_pcap_file pcap info = map_option (\<lambda>ps. pcap_loop ps info) pcap"

lemma pcap_loop_beats:
  "fst (pcap_loop ps info) = concat (map (\<lambda>p. mem_copy (cap_data p) (caplen p)) ps)"
  by (induction ps arbitrary: info) (auto simp: Let_def case_prod_unfold)

lemma pcap_loop_info:
  "packet_count (snd (pcap_loop ps info)) = packet_count info + of_nat (length ps)"
  "byte_count (snd (pcap_loop ps info)) = byte_count info + (\<Sum>p\<leftarrow>ps. ucast (caplen_orig p))"
  by (induction ps arbitrary: info) (auto simp: Let_def case_prod_unfold algebra_simps)

lemma frames_pcap_loop:
  "frames (concat (map (\<lambda>p. mem_copy (cap_data p) (caplen p)) ps)) [] =
     map (\<lambda>p. map (cap_data p) [0..<caplen p]) (filter (\<lambda>p. caplen p > 0) ps)"
proof (induction ps)
  case (Cons p ps)
  show ?case
  proof (cases "caplen p = 0")
    case True
    with Cons show ?thesis by (simp add: mem_copy_beats packet_beats.simps)
  next
    case False
    with Cons show ?thesis by (simp add: mem_copy_beats frames_packet)
  qed
qed simp

section \<open>Command lines\<close>

text \<open>\<^verbatim>\<open>strrchr\<close>: the index of the last occurrence.\<close>

fun strrchr :: "string \<Rightarrow> char \<Rightarrow> nat option" where
  "strrchr [] c = None"
| "strrchr (x # xs) c = (case strrchr xs c of Some i \<Rightarrow> Some (Suc i) | None \<Rightarrow> if x = c then Some 0 else None)"

definition get_exe_name :: "string \<Rightarrow> string" where
  "get_exe_name argv0 = (case strrchr argv0 (CHR ''/'') of Some last_slash \<Rightarrow> drop (last_slash + 1) argv0 | None \<Rightarrow> argv0)"

lemma strrchr_None: "strrchr s c = None \<longleftrightarrow> c \<notin> set s"
  by (induction s) (auto split: option.splits)

lemma strrchr_Some: "strrchr s c = Some i \<Longrightarrow> i < length s \<and> s ! i = c \<and> c \<notin> set (drop (Suc i) s)"
  by (induction s arbitrary: i) (auto simp: strrchr_None split: option.splits if_splits)

datatype has_arg = no_argument | required_argument | optional_argument

record option_entry =
  opt_name :: string
  opt_has_arg :: has_arg
  opt_flag_set :: bool
  opt_val :: int

definition UCHAR_MAX :: int where "UCHAR_MAX = 255"

fun long_options_to_short_options :: "option_entry list \<Rightarrow> string \<Rightarrow> string" where
  "long_options_to_short_options [] short_options = short_options"
| "long_options_to_short_options (x # xs) short_options =
     long_options_to_short_options xs
       (if \<not> opt_flag_set x \<and> opt_val x > 0 \<and> opt_val x \<le> UCHAR_MAX
        then let short_options = short_options @ [char_of (nat (opt_val x))]
             in if opt_has_arg x = required_argument then short_options @ '':''
                else if opt_has_arg x = optional_argument then short_options @ ''::''
                else short_options
        else short_options)"

text \<open>How \<^verbatim>\<open>getopt\<close> reads an option string: a letter, with one colon for a required and two for an optional argument.\<close>

fun getopt_letters :: "string \<Rightarrow> (char \<times> has_arg) list" where
  "getopt_letters [] = []"
| "getopt_letters (c # cs) =
     (if take 2 cs = ''::'' then (c, optional_argument) # getopt_letters (drop 2 cs)
      else if take 1 cs = '':'' then (c, required_argument) # getopt_letters (drop 1 cs)
      else (c, no_argument) # getopt_letters cs)"

lemma short_options_append:
  "long_options_to_short_options xs s = s @ long_options_to_short_options xs []"
proof (induction xs arbitrary: s)
  case (Cons x xs)
  show ?case
    by (simp only: long_options_to_short_options.simps Let_def)
      (subst (1 2) Cons.IH, simp)
qed simp

definition opt_ok :: "option_entry \<Rightarrow> bool" where
  "opt_ok x \<longleftrightarrow> \<not> opt_flag_set x \<and> 0 < opt_val x \<and> opt_val x \<le> UCHAR_MAX \<and> char_of (nat (opt_val x)) \<noteq> CHR '':''"

fun colons :: "has_arg \<Rightarrow> string" where
  "colons no_argument = []" | "colons required_argument = '':''" | "colons optional_argument = ''::''"

lemma short_options_Cons:
  assumes "opt_ok x"
  shows "long_options_to_short_options (x # xs) [] =
    char_of (nat (opt_val x)) # colons (opt_has_arg x) @ long_options_to_short_options xs []"
  using assms
  by (cases "opt_has_arg x") (simp add: opt_ok_def Let_def, subst short_options_append, simp)+

lemma getopt_short_options:
  assumes "\<forall>x \<in> set xs. opt_ok x"
  shows "getopt_letters (long_options_to_short_options xs []) =
    map (\<lambda>x. (char_of (nat (opt_val x)), opt_has_arg x)) xs"
  using assms
proof (induction xs)
  case (Cons x xs)
  obtain r where r: "long_options_to_short_options xs [] = r" "r = [] \<or> (\<exists>c cs. r = c # cs \<and> c \<noteq> CHR '':'')"
  proof (cases xs)
    case (Cons y ys)
    with Cons.prems have "opt_ok y" by simp
    with short_options_Cons [OF this, of ys] Cons that show ?thesis
      by (simp add: opt_ok_def del: long_options_to_short_options.simps)
  qed (use that in simp)
  then show ?case
    using Cons.IH Cons.prems short_options_Cons [of x xs]
    by (cases "opt_has_arg x") (auto simp del: long_options_to_short_options.simps)
qed simp

section \<open>Idle bytes\<close>

text \<open>
  \<^verbatim>\<open>compute_idle\<close>: the double-precision operations round their exact results by \<open>rnd\<close>; the
  conversion to \<^verbatim>\<open>int\<close> truncates, and is undefined for a value that is not in the type's range.  The
  average packet length, computed for a message, divides by the number of packets: the
  arithmetic trap of an empty trace.
\<close>

datatype idle_fault = Division_by_zero | Outside_int

definition trunc :: "real \<Rightarrow> int" where
  "trunc x = (if x < 0 then \<lceil>x\<rceil> else \<lfloor>x\<rfloor>)"

definition to_int :: "real \<Rightarrow> idle_fault + int" where
  "to_int x = (let v = trunc x in if - (2 ^ 31) \<le> v \<and> v < 2 ^ 31 then Inr v else Inl Outside_int)"

definition compute_idle :: "(real \<Rightarrow> real) \<Rightarrow> pcap_trace_info \<Rightarrow> real \<Rightarrow> real \<Rightarrow> idle_fault + int" where
  "compute_idle rnd info rate link_speed =
     (let idle_count = rnd (rnd (rnd (link_speed - rate) * rnd (real (unat (byte_count info)))) / rate);
          idle = to_int (rnd (idle_count / rnd (real (unat (packet_count info)))))
      in if packet_count info = 0 then Inl Division_by_zero else idle)"

lemma compute_idle_gap:
  assumes "0 < rate" "rate \<le> link_speed" "packet_count info \<noteq> 0"
    and "(link_speed - rate) * real (unat (byte_count info)) / rate < 2 ^ 31 * real (unat (packet_count info))"
  shows "\<exists>idle. compute_idle (\<lambda>x. x) info rate link_speed = Inr idle \<and> 0 \<le> idle \<and> idle < 2 ^ 31 \<and>
    of_int idle * real (unat (packet_count info)) \<le> (link_speed - rate) * real (unat (byte_count info)) / rate \<and>
    (link_speed - rate) * real (unat (byte_count info)) / rate < (of_int idle + 1) * real (unat (packet_count info))"
proof -
  let ?total = "(link_speed - rate) * real (unat (byte_count info)) / rate"
  let ?n = "real (unat (packet_count info))"
  have n: "0 < ?n" using assms(3) by (metis of_nat_0_less_iff unat_gt_0)
  have t: "0 \<le> ?total"
    using assms(1,2) by (intro divide_nonneg_pos mult_nonneg_nonneg of_nat_0_le_iff) simp_all
  then have q: "0 \<le> ?total / ?n" using n by (rule divide_nonneg_pos)
  have "?total / ?n < 2 ^ 31" using assms(4) unfolding pos_divide_less_eq [OF n] .
  then have small: "\<lfloor>?total / ?n\<rfloor> < 2 ^ 31" by (simp add: floor_less_iff)
  have idle: "compute_idle (\<lambda>x. x) info rate link_speed = Inr \<lfloor>?total / ?n\<rfloor>"
    using assms(3) q small by (simp add: compute_idle_def to_int_def trunc_def Let_def not_less)
  have "of_int \<lfloor>?total / ?n\<rfloor> \<le> ?total / ?n" "?total / ?n < of_int \<lfloor>?total / ?n\<rfloor> + 1" by linarith+
  then have "of_int \<lfloor>?total / ?n\<rfloor> * ?n \<le> ?total" "?total < (of_int \<lfloor>?total / ?n\<rfloor> + 1) * ?n"
    unfolding pos_le_divide_eq [OF n] pos_divide_less_eq [OF n] .
  with idle q small show ?thesis by auto
qed

section \<open>Raw capture files\<close>

text \<open>
  \<^verbatim>\<open>src/p4/examples/packetbuf/cpp/test.cpp\<close> reads a capture file itself: a file header of 24
  bytes, then for each packet a header of 16 bytes whose third little-endian word is the
  captured length.  Past the end of the file the memory is unspecified.
\<close>

definition load32 :: "(nat \<Rightarrow> u8) \<Rightarrow> nat \<Rightarrow> u32" where
  "load32 mem a = ucast (mem a) OR push_bit 8 (ucast (mem (a + 1))) OR push_bit 16 (ucast (mem (a + 2))) OR
     push_bit 24 (ucast (mem (a + 3)))"

datatype walk_error = Assert_failed | Header_past_end

definition read_pcap_file :: "u8 list option \<Rightarrow> bool \<Rightarrow> u8 list option" where
  "read_pcap_file infile calloc_ok = (case infile of None \<Rightarrow> None | Some bytes \<Rightarrow> if calloc_ok then Some bytes else None)"

definition quick_tx_send_packet :: "(nat \<Rightarrow> u8) \<Rightarrow> int \<Rightarrow> (walk_error + beat list) \<times> int" where
  "quick_tx_send_packet buffer len =
     (if len > 0 then (Inr (packetbuf_mem_copy buffer (nat len)), len) else (Inl Assert_failed, len))"

function pcap_walk :: "(nat \<Rightarrow> u8) \<Rightarrow> nat \<Rightarrow> nat \<Rightarrow> walk_error + beat list" where
  "pcap_walk mem len off =
     (if off < len
      then if off + 16 > len then Inl Header_past_end
           else let cl = sint (load32 mem (off + 8)); off = off + 16
                in case quick_tx_send_packet (\<lambda>k. mem (off + k)) cl of
                     (Inl e, _) \<Rightarrow> Inl e
                   | (Inr out, _) \<Rightarrow>
                       (case pcap_walk mem len (off + nat cl) of Inl e \<Rightarrow> Inl e | Inr rest \<Rightarrow> Inr (out @ rest))
      else Inr [])"
  by auto
termination by (relation "measure (\<lambda>(mem, len, off). len - off)") auto

declare pcap_walk.simps [simp del]

definition sizeof_file_header :: nat where "sizeof_file_header = 24"

text \<open>A file as the format has it, and the bytes that follow it in memory.\<close>

definition le32 :: "u32 \<Rightarrow> u8 list" where
  "le32 w = [ucast w, ucast (drop_bit 8 w), ucast (drop_bit 16 w), ucast (drop_bit 24 w)]"

definition pcap_record :: "u8 list \<Rightarrow> u8 list" where
  "pcap_record p = replicate 8 0 @ le32 (of_nat (length p)) @ le32 (of_nat (length p)) @ p"

definition in_memory :: "u8 list \<Rightarrow> (nat \<Rightarrow> u8) \<Rightarrow> nat \<Rightarrow> u8" where
  "in_memory bytes junk a = (if a < length bytes then bytes ! a else junk a)"

fun locate :: "nat \<Rightarrow> u8 list list \<Rightarrow> (nat \<times> nat) list" where
  "locate off [] = []"
| "locate off (p # ps) = (off + 16, length p) # locate (off + 16 + length p) ps"

lemma length_le32: "length (le32 w) = 4"
  by (simp add: le32_def)

lemma length_pcap_record: "length (pcap_record p) = 16 + length p"
  by (simp add: pcap_record_def le32_def)

lemma load32_le32:
  assumes "\<And>k. k < 4 \<Longrightarrow> mem (a + k) = le32 w ! k"
  shows "load32 mem a = w"
proof -
  have "mem a = le32 w ! 0" "mem (a + 1) = le32 w ! 1" "mem (a + 2) = le32 w ! 2" "mem (a + 3) = le32 w ! 3"
    using assms [of 0] assms [of 1] assms [of 2] assms [of 3] by simp_all
  then have m: "mem a = ucast w" "mem (a + 1) = ucast (drop_bit 8 w)" "mem (a + 2) = ucast (drop_bit 16 w)"
    "mem (a + 3) = ucast (drop_bit 24 w)"
    by (simp_all add: le32_def)
  show ?thesis
    unfolding load32_def m
  proof (rule bit_word_eqI)
    fix n assume "n < LENGTH(32)"
    then consider "n < 8" | "8 \<le> n" "n < 16" | "16 \<le> n" "n < 24" | "24 \<le> n" "n < 32" by fastforce
    then show "bit (ucast (ucast w :: u8) OR push_bit 8 (ucast (ucast (drop_bit 8 w) :: u8)) OR
        push_bit 16 (ucast (ucast (drop_bit 16 w) :: u8)) OR push_bit 24 (ucast (ucast (drop_bit 24 w) :: u8)) :: u32) n =
      bit w n"
      by cases (auto simp: bit_simps)
  qed
qed

lemma in_memory_at:
  "k < length xs \<Longrightarrow> in_memory (pre @ xs @ post) junk (length pre + k) = xs ! k"
  by (simp add: in_memory_def nth_append)

lemma caplen_field:
  assumes "length p < 2 ^ 31"
  shows "sint (load32 (in_memory (pre @ pcap_record p @ post) junk) (length pre + 8)) = int (length p)"
proof -
  let ?mem = "in_memory (pre @ pcap_record p @ post) junk"
  have "?mem (length pre + 8 + k) = le32 (of_nat (length p)) ! k" if "k < 4" for k
  proof -
    have "?mem (length pre + (8 + k)) = pcap_record p ! (8 + k)"
      using that by (intro in_memory_at) (simp add: length_pcap_record)
    also have "\<dots> = le32 (of_nat (length p)) ! k"
      using that by (simp add: pcap_record_def nth_append length_le32)
    finally show ?thesis by (simp add: add.assoc)
  qed
  then have "load32 ?mem (length pre + 8) = of_nat (length p)" by (rule load32_le32)
  with assms show ?thesis by (simp add: signed_of_nat signed_take_bit_int_eq_self)
qed

lemma pcap_walk_records:
  assumes "\<forall>p\<in>set ps. p \<noteq> [] \<and> length p < 2 ^ 31"
  shows "let bytes = pre @ concat (map pcap_record ps); mem = in_memory bytes junk
    in pcap_walk mem (length bytes) (length pre) =
         Inr (concat (map (\<lambda>(a, n). packetbuf_mem_copy (\<lambda>k. mem (a + k)) n) (locate (length pre) ps))) \<and>
       map (\<lambda>(a, n). map mem [a..<a + n]) (locate (length pre) ps) = ps"
  using assms
proof (induction ps arbitrary: pre)
  case Nil
  then show ?case by (simp add: pcap_walk.simps)
next
  case (Cons p ps)
  let ?bytes = "pre @ concat (map pcap_record (p # ps))"
  let ?mem = "in_memory ?bytes junk"
  have p: "p \<noteq> []" "length p < 2 ^ 31" using Cons.prems by simp_all
  have cl: "sint (load32 ?mem (length pre + 8)) = int (length p)"
    using caplen_field [OF p(2), of pre "concat (map pcap_record ps)" junk] by simp
  have eq: "(pre @ pcap_record p) @ concat (map pcap_record ps) = ?bytes" by simp
  have len: "length (pre @ pcap_record p) = length pre + 16 + length p" by (simp add: length_pcap_record)
  have IH: "pcap_walk ?mem (length ?bytes) (length pre + 16 + length p) =
      Inr (concat (map (\<lambda>(a, n). packetbuf_mem_copy (\<lambda>k. ?mem (a + k)) n) (locate (length pre + 16 + length p) ps)))"
    "map (\<lambda>(a, n). map ?mem [a..<a + n]) (locate (length pre + 16 + length p) ps) = ps"
    using Cons.IH [of "pre @ pcap_record p"] Cons.prems unfolding Let_def eq len by simp_all
  have bound: "length pre < length ?bytes" "\<not> length pre + 16 > length ?bytes" by (simp_all add: length_pcap_record)
  have "pcap_walk ?mem (length ?bytes) (length pre) =
      Inr (packetbuf_mem_copy (\<lambda>k. ?mem (length pre + 16 + k)) (length p) @
        concat (map (\<lambda>(a, n). packetbuf_mem_copy (\<lambda>k. ?mem (a + k)) n) (locate (length pre + 16 + length p) ps)))"
    by (subst pcap_walk.simps)
      (simp only: bound if_True if_False cl Let_def quick_tx_send_packet_def IH(1) nat_int sum.case split
        of_nat_0_less_iff length_greater_0_conv p(1) simp_thms)
  moreover have "map ?mem [length pre + 16..<length pre + 16 + length p] = p"
  proof (rule nth_equalityI)
    fix i assume "i < length (map ?mem [length pre + 16..<length pre + 16 + length p])"
    then have i: "i < length p" by simp
    have "?mem (length pre + (16 + i)) = pcap_record p ! (16 + i)"
      using i in_memory_at [of "16 + i" "pcap_record p" pre "concat (map pcap_record ps)" junk]
      by (simp add: length_pcap_record)
    also have "\<dots> = p ! i" using i by (simp add: pcap_record_def nth_append le32_def)
    finally show "map ?mem [length pre + 16..<length pre + 16 + length p] ! i = p ! i"
      using i by (simp add: add.assoc)
  qed simp
  ultimately show ?case using IH(2) by (simp add: Let_def)
qed

text \<open>The unmasked copies send the same beats with every byte marked valid.\<close>

lemma plain_copy_loop_eq:
  "plain_copy_loop buff nb i d = map (\<lambda>b. b\<lparr>mask0 := 0xff, mask1 := 0xff\<rparr>) (mem_copy_loop buff nb i n d m)"
proof (induction "nb - i" arbitrary: i n d m)
  case 0
  then show ?case by (simp add: plain_copy_loop.simps [of buff nb i] mem_copy_loop_done)
next
  case (Suc x)
  then have "i < nb" "x = nb - (i + 1)" by simp_all
  with Suc.hyps(1) [of "i + 1"] show ?case
    by (simp add: plain_copy_loop.simps [of buff nb i] mem_copy_loop.simps [of buff nb i] Let_def)
qed

section \<open>Properties\<close>

text \<open>
  C8. The beats of a packet carry exactly its bytes: reading the valid bytes of the beats in
  order gives the packet; there are as many beats as sixteen-byte pieces, the first alone
  starts and the last alone ends the packet; and a receiver that splits a whole trace's beats
  at the end flags gets the non-empty packets back.
\<close>

theorem mem_copy_carries_packet:
  "concat (map beat_bytes (mem_copy buff n)) = map buff [0..<n] \<and>
   length (mem_copy buff n) = (n + 15) div 16 \<and>
   map sop (mem_copy buff n) = map (\<lambda>i. i = 0) [0..<(n + 15) div 16] \<and>
   map eop (mem_copy buff n) = map (\<lambda>i. Suc i = (n + 15) div 16) [0..<(n + 15) div 16] \<and>
   frames (concat (map (\<lambda>p. mem_copy (cap_data p) (caplen p)) ps)) [] =
     map (\<lambda>p. map (cap_data p) [0..<caplen p]) (filter (\<lambda>p. caplen p > 0) ps)"
  using packet_beats_bytes [of buff 0 n True] packet_beats_framing [of buff 0 n True] frames_pcap_loop
  by (simp add: mem_copy_beats)

text \<open>
  The copies of the routine in the P4 test programs send the same words and framing as the
  library's, with every byte mask set: they differ from it only in not marking the padding.
\<close>

theorem plain_copies_agree:
  "p4_mem_copy buff n = map (\<lambda>b. b\<lparr>mask0 := 0xff, mask1 := 0xff\<rparr>) (mem_copy buff n) \<and>
   packetbuf_mem_copy buff n = p4_mem_copy buff n"
  using plain_copy_loop_eq by (auto simp: p4_mem_copy_def packetbuf_mem_copy_def mem_copy_def)

text \<open>
  Loading a capture file sends the beats of its packets in order and counts the packets
  and their original lengths modulo $2^{64}$; a file that cannot be opened sends nothing.
\<close>

theorem load_pcap_file_sends_and_counts:
  "load_pcap_file (Some ps) info = Some (concat (map (\<lambda>p. mem_copy (cap_data p) (caplen p)) ps),
     info\<lparr>packet_count := packet_count info + of_nat (length ps),
          byte_count := byte_count info + (\<Sum>p\<leftarrow>ps. ucast (caplen_orig p))\<rparr>) \<and>
   load_pcap_file None info = None"
proof -
  have "pcap_loop ps info = (concat (map (\<lambda>p. mem_copy (cap_data p) (caplen p)) ps),
     info\<lparr>packet_count := packet_count info + of_nat (length ps),
          byte_count := byte_count info + (\<Sum>p\<leftarrow>ps. ucast (caplen_orig p))\<rparr>)"
    by (induction ps arbitrary: info) (simp_all add: Let_def algebra_simps)
  then show ?thesis by (simp add: load_pcap_file_def)
qed

text \<open>
  On a capture file whose packets are not empty, the raw reader visits every packet
  exactly once, in order, at the place where its bytes are, and stops at the end of the file.
\<close>

theorem raw_reader_visits_every_packet:
  assumes "length file_header = sizeof_file_header" "\<forall>p\<in>set ps. p \<noteq> [] \<and> length p < 2 ^ 31"
  shows "let bytes = file_header @ concat (map pcap_record ps); mem = in_memory bytes junk
    in pcap_walk mem (length bytes) sizeof_file_header =
         Inr (concat (map (\<lambda>(a, n). packetbuf_mem_copy (\<lambda>k. mem (a + k)) n) (locate sizeof_file_header ps))) \<and>
       map (\<lambda>(a, n). map mem [a..<a + n]) (locate sizeof_file_header ps) = ps"
  using pcap_walk_records [OF assms(2), of file_header junk] assms(1) by simp

theorem raw_reader_visits_every_packet_witness:
  "map (\<lambda>(a, n). map (in_memory (replicate 24 0 @ concat (map pcap_record [[1, 2, 3], [4]])) (\<lambda>_. 0)) [a..<a + n])
     (locate 24 [[1, 2, 3], [4]]) = [[1, 2, 3], [4]]"
  using raw_reader_visits_every_packet [of "replicate 24 0" "[[1, 2, 3], [4]]" "\<lambda>_. 0"]
  by (simp only: sizeof_file_header_def Let_def length_replicate) simp

text \<open>
  The program name is what follows the last slash: it has no slash and the rest of the
  path ends in one; and the option string built from a table of single-letter options is read
  by \<^verbatim>\<open>getopt\<close> as exactly that table.
\<close>

theorem command_line_helpers:
  assumes "\<forall>x \<in> set xs. opt_ok x"
  shows "CHR ''/'' \<notin> set (get_exe_name s) \<and>
    (\<exists>path. s = path @ get_exe_name s \<and> (path = [] \<or> last path = CHR ''/'')) \<and>
    getopt_letters (long_options_to_short_options xs []) = map (\<lambda>x. (char_of (nat (opt_val x)), opt_has_arg x)) xs"
proof -
  have "CHR ''/'' \<notin> set (get_exe_name s) \<and>
    (\<exists>path. s = path @ get_exe_name s \<and> (path = [] \<or> last path = CHR ''/''))"
  proof (cases "strrchr s (CHR ''/'')")
    case None
    then have "CHR ''/'' \<notin> set s" by (simp add: strrchr_None)
    with None show ?thesis by (simp add: get_exe_name_def del: strrchr.simps)
  next
    case (Some i)
    from strrchr_Some [OF this] have i: "i < length s" "s ! i = CHR ''/''" "CHR ''/'' \<notin> set (drop (Suc i) s)" by auto
    then have "last (take (Suc i) s) = CHR ''/''" by (simp add: take_Suc_conv_app_nth)
    with Some i(3) show ?thesis
      by (auto simp: get_exe_name_def intro!: exI [of _ "take (Suc i) s"])
  qed
  with getopt_short_options [OF assms] show ?thesis by blast
qed

definition example_options :: "option_entry list" where
  "example_options =
     [\<lparr>opt_name = ''help'', opt_has_arg = no_argument, opt_flag_set = False, opt_val = 104\<rparr>,
      \<lparr>opt_name = ''parser-test'', opt_has_arg = required_argument, opt_flag_set = False, opt_val = 112\<rparr>]"

theorem command_line_helpers_witness:
  "CHR ''/'' \<notin> set (get_exe_name ''/usr/bin/pktgen'') \<and>
   getopt_letters (long_options_to_short_options example_options []) =
     [(char_of (104 :: nat), no_argument), (char_of (112 :: nat), required_argument)]"
proof -
  have "\<forall>x \<in> set example_options. opt_ok x"
    by (simp add: example_options_def opt_ok_def UCHAR_MAX_def char_of_def bit_0)
  from command_line_helpers [OF this, of "''/usr/bin/pktgen''"] show ?thesis
    by (simp add: example_options_def)
qed

text \<open>
  With exact arithmetic the idle count is the number of idle bytes per packet that slows
  the trace from the link's speed to the wanted rate, rounded down, as long as it is in the range
  of \<^verbatim>\<open>int\<close>: the idle bytes of the whole trace lie between the computed count and one more per packet.
\<close>

theorem compute_idle_is_per_packet_gap:
  assumes "0 < rate" "rate \<le> link_speed" "packet_count info \<noteq> 0"
    and "(link_speed - rate) * real (unat (byte_count info)) / rate < 2 ^ 31 * real (unat (packet_count info))"
  shows "\<exists>idle. compute_idle (\<lambda>x. x) info rate link_speed = Inr idle \<and> 0 \<le> idle \<and> idle < 2 ^ 31 \<and>
    of_int idle * real (unat (packet_count info)) \<le> (link_speed - rate) * real (unat (byte_count info)) / rate \<and>
    (link_speed - rate) * real (unat (byte_count info)) / rate < (of_int idle + 1) * real (unat (packet_count info))"
  using compute_idle_gap [OF assms] .

theorem compute_idle_is_per_packet_gap_witness:
  "\<exists>idle. compute_idle (\<lambda>x. x) \<lparr>packet_count = 2, byte_count = 200\<rparr> 5 10 = Inr idle \<and> 0 \<le> idle"
  using compute_idle_is_per_packet_gap [of 5 10 "\<lparr>packet_count = 2, byte_count = 200\<rparr>"] by auto

end
