(* ===== verification/Pktgen.thy ===== *)
theory Pktgen
  imports Lpcap
begin

text \<open>
  The packet generators of the DTP examples (\<^verbatim>\<open>src/dtp/examples/pktgen/pktgen.cpp\<close> and
  \<^verbatim>\<open>src/dtp/examples/pktgen_forwarding/pktgen.cpp\<close>): options, loading of a trace, and the start
  and stop of the generator with the computed idle gap.  What \<^verbatim>\<open>getopt_long\<close> reports, the files,
  \<^verbatim>\<open>strtod\<close> and the rounding of doubles are arguments, the copies each program has of the option
  parser and of \<^verbatim>\<open>compute_idle\<close> are modelled beside each other and shown to agree; the requests made of the device are
  recorded in order.  Messages and sleeps are not modelled.
\<close>

section \<open>Options\<close>

record arg_info =
  rate :: real
  tracelen :: int

text \<open>\<^verbatim>\<open>strtol\<close> with base 0: the value is cut to the range of \<^verbatim>\<open>long\<close>.\<close>

definition strtol :: "string \<Rightarrow> int" where
  "strtol p =
     (let s = dropWhile is_space p;
          neg = (take 1 s = ''-'');
          s = (if take 1 s \<in> {''-'', ''+''} then drop 1 s else s)
      in case scan_unsigned s of
           None \<Rightarrow> 0
         | Some (n, rest) \<Rightarrow> if neg then max (- (2 ^ 63)) (- int n) else min (2 ^ 63 - 1) (int n))"

definition long_to_int :: "int \<Rightarrow> int" where
  "long_to_int v = sint (of_int v :: u32)"

text \<open>One report of \<^verbatim>\<open>getopt_long\<close>; \<open>None\<close> is the exit on an unknown option.\<close>

definition parse_option ::
  "(string \<Rightarrow> real) \<Rightarrow> char \<times> string \<Rightarrow> string option \<times> arg_info \<Rightarrow> (string option \<times> arg_info) option" where
  "parse_option strtod x st =
     (let (c, optarg) = x; (pcap_file, info) = st
      in if c = CHR ''h'' then Some (pcap_file, info)
         else if c = CHR ''p'' then Some (Some optarg, info)
         else if c = CHR ''r'' then Some (pcap_file, info\<lparr>rate := strtod optarg\<rparr>)
         else if c = CHR ''n'' then Some (pcap_file, info\<lparr>tracelen := long_to_int (strtol optarg)\<rparr>)
         else None)"

fun parse_options ::
  "(string \<Rightarrow> real) \<Rightarrow> (char \<times> string) list \<Rightarrow> string option \<times> arg_info \<Rightarrow> (string option \<times> arg_info) option" where
  "parse_options strtod [] st = Some st"
| "parse_options strtod (x # xs) st = Option.bind (parse_option strtod x st) (parse_options strtod xs)"

text \<open>The forwarding example has a parser of its own.\<close>

fun forwarding_parse_options ::
  "(string \<Rightarrow> real) \<Rightarrow> (char \<times> string) list \<Rightarrow> string option \<times> arg_info \<Rightarrow> (string option \<times> arg_info) option" where
  "forwarding_parse_options strtod [] (pcap_file, info) = Some (pcap_file, info)"
| "forwarding_parse_options strtod ((c, optarg) # xs) (pcap_file, info) =
     (if c = CHR ''h'' then forwarding_parse_options strtod xs (pcap_file, info)
      else if c = CHR ''p'' then forwarding_parse_options strtod xs (Some optarg, info)
      else if c = CHR ''r'' then forwarding_parse_options strtod xs (pcap_file, info\<lparr>rate := strtod optarg\<rparr>)
      else if c = CHR ''n'' then forwarding_parse_options strtod xs (pcap_file, info\<lparr>tracelen := long_to_int (strtol optarg)\<rparr>)
      else None)"

section \<open>The programs\<close>

text \<open>
  Each program defines its own \<^verbatim>\<open>compute_idle\<close>, which faults where that of \<^verbatim>\<open>lpcap.cpp\<close> does.
\<close>

definition pktgen_compute_idle :: "(real \<Rightarrow> real) \<Rightarrow> pcap_trace_info \<Rightarrow> real \<Rightarrow> real \<Rightarrow> idle_fault + int" where
  "pktgen_compute_idle rnd info r link_speed =
     (let idle_count = rnd (rnd (rnd (link_speed - r) * rnd (real (unat (byte_count info)))) / r);
          idle = to_int (rnd (idle_count / rnd (real (unat (packet_count info)))))
      in if packet_count info = 0 then Inl Division_by_zero else idle)"

definition forwarding_compute_idle :: "(real \<Rightarrow> real) \<Rightarrow> pcap_trace_info \<Rightarrow> real \<Rightarrow> real \<Rightarrow> idle_fault + int" where
  "forwarding_compute_idle rnd info r link_speed =
     (let idle_count = rnd (rnd (rnd (link_speed - r) * rnd (real (unat (byte_count info)))) / r);
          idle = to_int (rnd (idle_count / rnd (real (unat (packet_count info)))))
      in if packet_count info = 0 then Inl Division_by_zero else idle)"

datatype gen_request = Write_packet beat | Start int int | Stop | Read_pktbuf_debug nat

text \<open>A program that converts a number outside the range of \<^verbatim>\<open>int\<close> has no defined behaviour from there on.\<close>

datatype gen_end = Returned | Exited | Trapped | Undefined

fun fault_end :: "idle_fault \<Rightarrow> gen_end" where
  "fault_end Division_by_zero = Trapped"
| "fault_end Outside_int = Undefined"

definition LINK_SPEED :: real where "LINK_SPEED = 10"

text \<open>The part after the options: the trace, then the generator; \<open>idle_of\<close> is the program's
  \<^verbatim>\<open>compute_idle\<close> and \<open>after\<close> are the requests that follow \<^verbatim>\<open>stop\<close>.\<close>

definition generate ::
  "(pcap_trace_info \<Rightarrow> real \<Rightarrow> real \<Rightarrow> idle_fault + int) \<Rightarrow> (string \<Rightarrow> capture list option) \<Rightarrow> gen_request list \<Rightarrow> string option \<Rightarrow> arg_info \<Rightarrow>
     gen_request list \<times> gen_end" where
  "generate idle_of files after pcap_file info =
     (case (case pcap_file of
              None \<Rightarrow> Some ([], \<lparr>packet_count = 0, byte_count = 0\<rparr>)
            | Some f \<Rightarrow> load_pcap_file (files f) \<lparr>packet_count = 0, byte_count = 0\<rparr>) of
        None \<Rightarrow> ([], Exited)
      | Some (beats, pcap_info) \<Rightarrow>
          let out = map Write_packet beats
          in if rate info \<noteq> 0 \<and> tracelen info \<noteq> 0
             then (case idle_of pcap_info (rate info) LINK_SPEED of
                     Inl e \<Rightarrow> (out, fault_end e)
                   | Inr idle \<Rightarrow> (out @ [Start (tracelen info) idle, Stop] @ after, Returned))
             else (out, Returned))"

definition pktgen_main ::
  "(string \<Rightarrow> real) \<Rightarrow> (real \<Rightarrow> real) \<Rightarrow> (string \<Rightarrow> capture list option) \<Rightarrow> (char \<times> string) list \<Rightarrow>
     gen_request list \<times> gen_end" where
  "pktgen_main strtod rnd files opts =
     (case parse_options strtod opts (None, \<lparr>rate = 1, tracelen = 200\<rparr>) of
        None \<Rightarrow> ([], Exited)
      | Some (pcap_file, info) \<Rightarrow> generate (pktgen_compute_idle rnd) files [] pcap_file info)"

definition forwarding_main ::
  "(string \<Rightarrow> real) \<Rightarrow> (real \<Rightarrow> real) \<Rightarrow> (string \<Rightarrow> capture list option) \<Rightarrow> (char \<times> string) list \<Rightarrow>
     gen_request list \<times> gen_end" where
  "forwarding_main strtod rnd files opts =
     (case forwarding_parse_options strtod opts (None, \<lparr>rate = 1, tracelen = 200\<rparr>) of
        None \<Rightarrow> ([], Exited)
      | Some (pcap_file, info) \<Rightarrow> generate (forwarding_compute_idle rnd) files (map Read_pktbuf_debug [0..<4]) pcap_file info)"

section \<open>The copies agree\<close>

lemma forwarding_parse_options_eq [simp]: "forwarding_parse_options strtod opts st = parse_options strtod opts st"
proof (induction opts arbitrary: st)
  case Nil
  show ?case by (cases st) simp
next
  case (Cons x xs)
  then show ?case by (cases x; cases st) (simp add: parse_option_def Let_def)
qed

lemma compute_idle_copies [simp]:
  "pktgen_compute_idle = compute_idle" "forwarding_compute_idle = compute_idle"
  by (simp_all add: fun_eq_iff pktgen_compute_idle_def forwarding_compute_idle_def compute_idle_def)

section \<open>What the options select\<close>

text \<open>The last occurrence of an option counts.\<close>

definition last_arg :: "char \<Rightarrow> (char \<times> string) list \<Rightarrow> string option" where
  "last_arg c xs = map_of (rev xs) c"

lemma last_arg_simps [simp]:
  "last_arg c [] = None"
  "last_arg c ((d, a) # xs) = (case last_arg c xs of Some b \<Rightarrow> Some b | None \<Rightarrow> if c = d then Some a else None)"
  by (auto simp: last_arg_def map_add_def split: option.split)

definition known :: "char \<times> string \<Rightarrow> bool" where
  "known x \<longleftrightarrow> fst x \<in> {CHR ''h'', CHR ''p'', CHR ''r'', CHR ''n''}"

lemma parse_options_last:
  "parse_options strtod xs (f, info) =
     (if \<forall>x \<in> set xs. known x
      then Some (case last_arg (CHR ''p'') xs of None \<Rightarrow> f | Some g \<Rightarrow> Some g,
                 \<lparr>rate = (case last_arg (CHR ''r'') xs of None \<Rightarrow> rate info | Some a \<Rightarrow> strtod a),
                  tracelen = (case last_arg (CHR ''n'') xs of None \<Rightarrow> tracelen info | Some a \<Rightarrow> long_to_int (strtol a))\<rparr>)
      else None)"
proof (induction xs arbitrary: f info)
  case (Cons x xs)
  obtain c a where x: "x = (c, a)" by force
  consider "c = CHR ''h''" | "c = CHR ''p''" | "c = CHR ''r''" | "c = CHR ''n''" | "\<not> known x" using x by (auto simp: known_def)
  then show ?case
    by cases (auto simp: x known_def parse_option_def Cons.IH split: option.splits)
qed simp

lemma generate_trace:
  assumes "files f = Some ps" "ps \<noteq> []" "length ps < 2 ^ 64" "0 < rate info" "rate info \<le> LINK_SPEED" "tracelen info \<noteq> 0"
    and "(LINK_SPEED - rate info) * real (unat (\<Sum>p\<leftarrow>ps. ucast (caplen_orig p) :: u64)) / rate info < 2 ^ 31 * real (length ps)"
  shows "\<exists>beats idle. (\<forall>after. generate (compute_idle (\<lambda>x. x)) files after (Some f) info =
      (map Write_packet beats @ [Start (tracelen info) idle, Stop] @ after, Returned)) \<and>
    frames beats [] = map (\<lambda>p. map (cap_data p) [0..<caplen p]) (filter (\<lambda>p. caplen p > 0) ps) \<and>
    0 \<le> idle \<and> idle < 2 ^ 31 \<and>
    of_int idle * real (length ps) \<le>
      (LINK_SPEED - rate info) * real (unat (\<Sum>p\<leftarrow>ps. ucast (caplen_orig p) :: u64)) / rate info \<and>
    (LINK_SPEED - rate info) * real (unat (\<Sum>p\<leftarrow>ps. ucast (caplen_orig p) :: u64)) / rate info <
      (of_int idle + 1) * real (length ps)"
proof -
  let ?i = "\<lparr>packet_count = 0, byte_count = 0\<rparr>"
  obtain beats pi where l: "pcap_loop ps ?i = (beats, pi)" by force
  have pi: "packet_count pi = of_nat (length ps)" "byte_count pi = (\<Sum>p\<leftarrow>ps. ucast (caplen_orig p))"
    using pcap_loop_info [of ps ?i] l by simp_all
  have n: "unat (packet_count pi) = length ps" using assms(3) pi(1) by (simp add: unsigned_of_nat take_bit_nat_eq_self)
  then have "packet_count pi \<noteq> 0" using assms(2) by auto
  from compute_idle_gap [OF assms(4,5) this] assms(7) pi(2) n obtain idle where
    idle: "compute_idle (\<lambda>x. x) pi (rate info) LINK_SPEED = Inr idle" "0 \<le> idle \<and> idle < 2 ^ 31"
      "of_int idle * real (length ps) \<le> (LINK_SPEED - rate info) * real (unat (byte_count pi)) / rate info"
      "(LINK_SPEED - rate info) * real (unat (byte_count pi)) / rate info < (of_int idle + 1) * real (length ps)"
    by auto
  have g: "\<forall>after. generate (compute_idle (\<lambda>x. x)) files after (Some f) info =
      (map Write_packet beats @ [Start (tracelen info) idle, Stop] @ after, Returned)"
    using assms(1,4,6) idle(1) l by (simp add: generate_def load_pcap_file_def Let_def)
  have "frames beats [] = map (\<lambda>p. map (cap_data p) [0..<caplen p]) (filter (\<lambda>p. caplen p > 0) ps)"
    using frames_pcap_loop [of ps] pcap_loop_beats [of ps ?i] l by simp
  with g idle(2-4) pi(2) show ?thesis by auto
qed

section \<open>Properties\<close>

text \<open>
  C25. A generator started with a readable, non-empty trace, a rate above zero and up to the
  link's, and a count: it sends beats from which the device recovers exactly the trace's
  non-empty packets in order, then starts the generator with that count and with the largest
  whole number of idle bytes per packet that does not exceed the slowdown to the rate (the
  code truncates, although its comment speaks of rounding to 16), and
  stops it; the forwarding example then asks for the four ports' buffer counters.  The last
  occurrence of an option counts.  The arithmetic on doubles is taken to be exact, and the
  idle bytes per packet to be below $2^{31}$, since converting a larger number to \<^verbatim>\<open>int\<close> is undefined.
\<close>

theorem pktgen_replays_trace:
  assumes "\<forall>x \<in> set opts. known x" "last_arg (CHR ''p'') opts = Some f" "last_arg (CHR ''r'') opts = Some a"
    and "last_arg (CHR ''n'') opts = Some b" "long_to_int (strtol b) \<noteq> 0" "0 < strtod a" "strtod a \<le> LINK_SPEED"
    and "files f = Some ps" "ps \<noteq> []" "length ps < 2 ^ 64"
    and "(LINK_SPEED - strtod a) * real (unat (\<Sum>p\<leftarrow>ps. ucast (caplen_orig p) :: u64)) / strtod a < 2 ^ 31 * real (length ps)"
  shows "\<exists>beats idle.
    pktgen_main strtod (\<lambda>x. x) files opts = (map Write_packet beats @ [Start (long_to_int (strtol b)) idle, Stop], Returned) \<and>
    forwarding_main strtod (\<lambda>x. x) files opts =
      (map Write_packet beats @ [Start (long_to_int (strtol b)) idle, Stop] @ map Read_pktbuf_debug [0..<4], Returned) \<and>
    frames beats [] = map (\<lambda>p. map (cap_data p) [0..<caplen p]) (filter (\<lambda>p. caplen p > 0) ps) \<and>
    0 \<le> idle \<and> idle < 2 ^ 31 \<and>
    of_int idle * real (length ps) \<le>
      (LINK_SPEED - strtod a) * real (unat (\<Sum>p\<leftarrow>ps. ucast (caplen_orig p) :: u64)) / strtod a \<and>
    (LINK_SPEED - strtod a) * real (unat (\<Sum>p\<leftarrow>ps. ucast (caplen_orig p) :: u64)) / strtod a <
      (of_int idle + 1) * real (length ps)"
proof -
  let ?info = "\<lparr>rate = strtod a, tracelen = long_to_int (strtol b)\<rparr>"
  have opts: "parse_options strtod opts (None, \<lparr>rate = 1, tracelen = 200\<rparr>) = Some (Some f, ?info)"
    using assms(1-4) by (simp add: parse_options_last)
  obtain beats idle where gen: "\<forall>after. generate (compute_idle (\<lambda>x. x)) files after (Some f) ?info =
      (map Write_packet beats @ [Start (long_to_int (strtol b)) idle, Stop] @ after, Returned)"
    and facts: "frames beats [] = map (\<lambda>p. map (cap_data p) [0..<caplen p]) (filter (\<lambda>p. caplen p > 0) ps)" "0 \<le> idle" "idle < 2 ^ 31"
      "of_int idle * real (length ps) \<le>
        (LINK_SPEED - strtod a) * real (unat (\<Sum>p\<leftarrow>ps. ucast (caplen_orig p) :: u64)) / strtod a"
      "(LINK_SPEED - strtod a) * real (unat (\<Sum>p\<leftarrow>ps. ucast (caplen_orig p) :: u64)) / strtod a <
        (of_int idle + 1) * real (length ps)"
    using generate_trace [of files f ps ?info] assms(5-11) by auto
  show ?thesis
    unfolding pktgen_main_def forwarding_main_def forwarding_parse_options_eq compute_idle_copies opts option.case prod.case gen [rule_format] append_Nil2
    by (rule exI [of _ beats], rule exI [of _ idle]) (intro conjI refl facts)
qed

definition example_capture :: capture where
  "example_capture = \<lparr>cap_data = (\<lambda>i. of_nat i), caplen = 60, caplen_orig = 60\<rparr>"

theorem pktgen_replays_trace_witness:
  "\<exists>beats idle.
     pktgen_main (\<lambda>s. real (length s)) (\<lambda>x. x) (\<lambda>f. if f = ''t.pcap'' then Some [example_capture] else None)
       [(CHR ''p'', ''t.pcap''), (CHR ''r'', ''5.0''), (CHR ''n'', ''100'')] =
       (map Write_packet beats @ [Start 100 idle, Stop], Returned) \<and>
     frames beats [] = [map of_nat [0..<60]]"
proof -
  have n: "long_to_int (strtol ''100'') = 100" "last_arg (CHR ''n'') [(CHR ''p'', ''t.pcap''), (CHR ''r'', ''5.0''), (CHR ''n'', ''100'')] = Some ''100''"
    by (simp_all add: long_to_int_def strtol_def is_space_def scan_unsigned_def scan_digits_def scan_base_def digit_val_def Let_def)
  show ?thesis
    using pktgen_replays_trace [of "[(CHR ''p'', ''t.pcap''), (CHR ''r'', ''5.0''), (CHR ''n'', ''100'')]" "''t.pcap''" "''5.0''" "''100''"
        "\<lambda>s. real (length s)" "\<lambda>f. if f = ''t.pcap'' then Some [example_capture] else None" "[example_capture]"]
    by (simp add: n known_def LINK_SPEED_def example_capture_def) blast
qed

text \<open>
  Without a trace the generators do not get as far as starting the hardware: with the
  default arguments, or any rate and count other than zero, they divide by the packet count of
  zero and trap before any request; only a rate or count of zero makes them return, idle.  An
  unknown option or a trace that cannot be read exits before any request.
\<close>

theorem pktgen_without_trace:
  "let r = (case last_arg (CHR ''r'') opts of None \<Rightarrow> 1 | Some a \<Rightarrow> strtod a);
       n = (case last_arg (CHR ''n'') opts of None \<Rightarrow> 200 | Some b \<Rightarrow> long_to_int (strtol b));
       out = (if \<not> (\<forall>x \<in> set opts. known x) then Exited else if r \<noteq> 0 \<and> n \<noteq> 0 then Trapped else Returned)
   in (last_arg (CHR ''p'') opts = None \<longrightarrow>
        pktgen_main strtod rnd files opts = ([], out) \<and> forwarding_main strtod rnd files opts = ([], out)) \<and>
      (last_arg (CHR ''p'') opts = Some f \<and> files f = None \<longrightarrow>
        pktgen_main strtod rnd files opts = ([], Exited) \<and> forwarding_main strtod rnd files opts = ([], Exited))"
  by (simp add: pktgen_main_def forwarding_main_def parse_options_last generate_def load_pcap_file_def
      compute_idle_def Let_def split: option.splits)

theorem pktgen_without_trace_witness:
  "pktgen_main (\<lambda>_. 0) (\<lambda>x. x) (\<lambda>_. None) [] = ([], Trapped)"
  using pktgen_without_trace [where opts = "[]" and strtod = "\<lambda>_. 0" and rnd = "\<lambda>x. x" and files = "\<lambda>_. None"] by (simp add: Let_def)

end
