(* ===== verification/Cmd_Handshake.thy ===== *)
theory Cmd_Handshake
  imports Sonic_Prelude
begin

text \<open>
  The way the test programs talk to a card: a request is sent through the portal, the card
  answers some of them later, and the handler of the answer posts a semaphore the program waits
  on.  The program is a list of actions; the card and the program take turns in any order.  The
  theory says which programs keep in step with their card, and what then holds of every run.
\<close>

section \<open>Programs and runs\<close>

datatype 'r action = Send 'r | Wait

text \<open>
  What is left to do, the requests whose answer is still to come, oldest first, the semaphore, and
  the requests made and answered so far.
\<close>

record 'r dialogue =
  todo :: "'r action list"
  pending :: "'r list"
  cmdCompleted :: nat
  made :: "'r list"
  answered :: "'r list"

definition dialogue_start :: "'r action list \<Rightarrow> 'r dialogue" where
  "dialogue_start prog = \<lparr>todo = prog, pending = [], cmdCompleted = 0, made = [], answered = []\<rparr>"

text \<open>\<open>posts r\<close>: the card answers \<open>r\<close> with an indication whose handler posts the semaphore.\<close>

inductive dialogue_step :: "('r \<Rightarrow> bool) \<Rightarrow> 'r dialogue \<Rightarrow> 'r dialogue \<Rightarrow> bool" for posts :: "'r \<Rightarrow> bool" where
  send: "todo s = Send r # rest \<Longrightarrow>
    dialogue_step posts s (s\<lparr>todo := rest, pending := if posts r then pending s @ [r] else pending s, made := made s @ [r]\<rparr>)"
| wait: "todo s = Wait # rest \<Longrightarrow> 0 < cmdCompleted s \<Longrightarrow>
    dialogue_step posts s (s\<lparr>todo := rest, cmdCompleted := cmdCompleted s - 1\<rparr>)"
| answer: "pending s = r # rest \<Longrightarrow>
    dialogue_step posts s (s\<lparr>pending := rest, cmdCompleted := Suc (cmdCompleted s), answered := answered s @ [r]\<rparr>)"

abbreviation dialogue_steps :: "('r \<Rightarrow> bool) \<Rightarrow> 'r dialogue \<Rightarrow> 'r dialogue \<Rightarrow> bool" where
  "dialogue_steps posts \<equiv> (dialogue_step posts)\<^sup>*\<^sup>*"

inductive_cases stepE: "dialogue_step posts s s'"

fun requests :: "'r action list \<Rightarrow> 'r list" where
  "requests [] = []"
| "requests (Send r # as) = r # requests as"
| "requests (Wait # as) = requests as"

fun waits :: "'r action list \<Rightarrow> nat" where
  "waits [] = 0"
| "waits (Send r # as) = waits as"
| "waits (Wait # as) = Suc (waits as)"

lemma requests_append [simp]: "requests (as @ bs) = requests as @ requests bs"
  by (induction as rule: requests.induct) simp_all

lemma waits_append [simp]: "waits (as @ bs) = waits as + waits bs"
  by (induction as rule: waits.induct) simp_all

lemma requests_sends [simp]: "requests (map Send rs) = rs" "requests (map (\<lambda>x. Send (f x)) xs) = map f xs"
  by (induction rs, simp_all) (induction xs, simp_all)

text \<open>The requests at the beginning of a program can all be sent before the first answer comes.\<close>

lemma sends_run:
  "dialogue_steps posts (dialogue_start (map Send rs @ as))
     \<lparr>todo = as, pending = filter posts rs, cmdCompleted = 0, made = rs, answered = []\<rparr>"
proof (induction rs arbitrary: as rule: rev_induct)
  case Nil
  show ?case by (simp add: dialogue_start_def)
next
  case (snoc r rs)
  let ?s = "\<lparr>todo = Send r # as, pending = filter posts rs, cmdCompleted = 0, made = rs, answered = []\<rparr>"
  have "dialogue_step posts ?s (?s\<lparr>todo := as, pending := filter posts (rs @ [r]), made := rs @ [r]\<rparr>)"
    using dialogue_step.send [of ?s r as posts] by (cases "posts r") simp_all
  with snoc.IH [of "Send r # as"] show ?case by (simp add: rtranclp.rtrancl_into_rtrancl)
qed

section \<open>Every run ends\<close>

definition work :: "'r dialogue \<Rightarrow> nat" where
  "work s = 2 * length (todo s) + length (pending s)"

lemma step_works: "dialogue_step posts s s' \<Longrightarrow> work s' < work s"
  by (erule stepE) (auto simp: work_def)

lemma no_infinite_run: "\<nexists>f. \<forall>i. dialogue_step posts (f i) (f (Suc i))"
proof
  assume "\<exists>f. \<forall>i. dialogue_step posts (f i) (f (Suc i))"
  then obtain f where f: "\<And>i. dialogue_step posts (f i) (f (Suc i))" by blast
  have "work (f i) + i \<le> work (f 0)" for i
  proof (induction i)
    case (Suc i)
    with step_works [OF f [of i]] show ?case by linarith
  qed simp
  from this [of "Suc (work (f 0))"] show False by simp
qed

text \<open>A run that cannot go on.\<close>

definition stuck :: "('r \<Rightarrow> bool) \<Rightarrow> 'r dialogue \<Rightarrow> bool" where
  "stuck posts s \<longleftrightarrow> pending s = [] \<and> (todo s = [] \<or> (\<exists>rest. todo s = Wait # rest) \<and> cmdCompleted s = 0)"

lemma stuck_iff: "stuck posts s \<longleftrightarrow> \<not> (\<exists>s'. dialogue_step posts s s')"
proof
  assume "stuck posts s"
  then show "\<not> (\<exists>s'. dialogue_step posts s s')" by (auto simp: stuck_def elim!: stepE)
next
  assume no: "\<not> (\<exists>s'. dialogue_step posts s s')"
  then have "pending s = []" by (cases "pending s") (auto intro: dialogue_step.answer)
  moreover have "todo s = [] \<or> (\<exists>rest. todo s = Wait # rest) \<and> cmdCompleted s = 0"
  proof (cases "todo s")
    case (Cons a rest)
    with no show ?thesis by (cases a) (auto intro: dialogue_step.send dialogue_step.wait)
  qed simp
  ultimately show "stuck posts s" by (simp add: stuck_def)
qed

lemma reaches_stuck: "\<exists>s'. dialogue_steps posts s s' \<and> stuck posts s'"
proof (induction "work s" arbitrary: s rule: less_induct)
  case less
  show ?case
  proof (cases "stuck posts s")
    case False
    then obtain s1 where s1: "dialogue_step posts s s1" using stuck_iff by blast
    from less [OF step_works [OF s1]] s1 show ?thesis by (meson converse_rtranclp_into_rtranclp)
  qed auto
qed

section \<open>Answers and waits balance\<close>

text \<open>The actions taken so far, and what they have to do with the answers.\<close>

definition balanced :: "('r \<Rightarrow> bool) \<Rightarrow> 'r action list \<Rightarrow> 'r dialogue \<Rightarrow> bool" where
  "balanced posts prog s \<longleftrightarrow> (\<exists>past. prog = past @ todo s \<and> made s = requests past \<and>
     filter posts (made s) = answered s @ pending s \<and> length (answered s) = waits past + cmdCompleted s \<and>
     (\<forall>p q. past = p @ Wait # q \<longrightarrow> waits p < length (filter posts (requests p))))"

lemma balanced_step:
  assumes "dialogue_step posts s s'" "balanced posts prog s"
  shows "balanced posts prog s'"
proof -
  obtain past where past: "prog = past @ todo s" "made s = requests past"
    "filter posts (made s) = answered s @ pending s" "length (answered s) = waits past + cmdCompleted s"
    "\<And>p q. past = p @ Wait # q \<Longrightarrow> waits p < length (filter posts (requests p))"
    using assms(2) by (auto simp: balanced_def)
  have last: "waits p < length (filter posts (requests p))"
    if "past @ [a] = p @ Wait # q" "a = Wait \<Longrightarrow> waits past < length (filter posts (requests past))" for a p q
    using that past(5) by (cases q rule: rev_cases) auto
  from assms(1) show ?thesis
  proof cases
    case (send r rest)
    then show ?thesis unfolding balanced_def
      using past last [of "Send r"] by (intro exI [of _ "past @ [Send r]"]) auto
  next
    case (wait rest)
    then have "waits past < length (filter posts (requests past))" using past(2-4) by simp
    with wait show ?thesis unfolding balanced_def
      using past last [of Wait] by (intro exI [of _ "past @ [Wait]"]) auto
  next
    case (answer r rest)
    then show ?thesis unfolding balanced_def using past by (intro exI [of _ past]) auto
  qed
qed

lemma balanced_reachable: "dialogue_steps posts (dialogue_start prog) s \<Longrightarrow> balanced posts prog s"
proof (induction rule: rtranclp_induct)
  case base
  show ?case by (auto simp: balanced_def dialogue_start_def)
qed (rule balanced_step)

text \<open>A wait with more waits up to it than answers that can have come is never passed.\<close>

lemma never_passes:
  assumes "dialogue_steps posts (dialogue_start (p @ Wait # q)) s" "length (filter posts (requests p)) \<le> waits p"
  shows "length q < length (todo s)"
proof (rule ccontr)
  assume "\<not> ?thesis"
  then have le: "length (todo s) \<le> length q" by simp
  obtain past where past: "p @ Wait # q = past @ todo s"
    "\<And>p q. past = p @ Wait # q \<Longrightarrow> waits p < length (filter posts (requests p))"
    using balanced_reachable [OF assms(1)] by (auto simp: balanced_def)
  have "\<exists>us. past = p @ Wait # us"
    using past(1) le arg_cong [OF past(1), of length]
    by (auto simp: append_eq_append_conv2 Cons_eq_append_conv dest: arg_cong [where f = length])
  then obtain us where "past = p @ Wait # us" ..
  from past(2) [OF this] assms(2) show False by simp
qed

section \<open>Programs in step with their card\<close>

text \<open>Every request that is answered is waited for at once, and there is no other wait.\<close>

fun in_step :: "('r \<Rightarrow> bool) \<Rightarrow> 'r action list \<Rightarrow> bool" where
  "in_step posts [] = True"
| "in_step posts (Send r # Wait # as) = (posts r \<and> in_step posts as)"
| "in_step posts (Send r # as) = (\<not> posts r \<and> in_step posts as)"
| "in_step posts (Wait # as) = False"

lemma in_step_Send:
  "in_step posts (Send r # as) \<longleftrightarrow> (if posts r then \<exists>bs. as = Wait # bs \<and> in_step posts bs else in_step posts as)"
  by (cases "(posts, Send r # as)" rule: in_step.cases) auto

lemma in_step_append [simp]: "in_step posts as \<Longrightarrow> in_step posts (as @ bs) \<longleftrightarrow> in_step posts bs"
  by (induction posts as rule: in_step.induct) (auto simp: in_step_Send)

lemma in_step_sends [simp]: "list_all (\<lambda>r. \<not> posts r) rs \<Longrightarrow> in_step posts (map Send rs)"
  by (induction rs) (auto simp: in_step_Send)

text \<open>Between requests nothing is open; after an answered request one answer is, or its post.\<close>

definition tight :: "('r \<Rightarrow> bool) \<Rightarrow> 'r dialogue \<Rightarrow> bool" where
  "tight posts s \<longleftrightarrow> in_step posts (todo s) \<and> pending s = [] \<and> cmdCompleted s = 0 \<or>
     (\<exists>rest. todo s = Wait # rest \<and> in_step posts rest \<and> length (pending s) + cmdCompleted s = 1)"

lemma tight_step:
  assumes "dialogue_step posts s s'" "tight posts s"
  shows "tight posts s'"
  using assms(1)
proof cases
  case (send r rest)
  with assms(2) show ?thesis by (cases "posts r") (auto simp: tight_def in_step_Send)
next
  case (wait rest)
  with assms(2) show ?thesis by (cases "pending s") (auto simp: tight_def)
next
  case (answer r rest)
  with assms(2) show ?thesis by (auto simp: tight_def)
qed

text \<open>
  What is promised of a program in step with its card, for every interleaving: there is at most
  one answer or one post outstanding, a request is sent only when all earlier ones have been answered,
  a run that cannot go on has done everything and lost no answer, and from anywhere the end can
  be reached (that every run ends is \<open>no_infinite_run\<close>).
\<close>

definition served :: "('r \<Rightarrow> bool) \<Rightarrow> 'r action list \<Rightarrow> bool" where
  "served posts prog \<longleftrightarrow> (\<forall>s. dialogue_steps posts (dialogue_start prog) s \<longrightarrow>
     length (pending s) + cmdCompleted s \<le> 1 \<and>
     (\<forall>r rest. todo s = Send r # rest \<longrightarrow> answered s = filter posts (made s)) \<and>
     (\<not> (\<exists>s'. dialogue_step posts s s') \<longrightarrow>
        todo s = [] \<and> made s = requests prog \<and> answered s = filter posts (requests prog) \<and> cmdCompleted s = 0) \<and>
     (\<exists>s'. dialogue_steps posts s s' \<and> todo s' = []))"

text \<open>The contract of such a program and what follows from it.\<close>

locale stepping_program =
  fixes posts :: "'r \<Rightarrow> bool" and prog :: "'r action list"
  assumes prog_in_step: "in_step posts prog"
begin

lemma tight_reachable: "dialogue_steps posts (dialogue_start prog) s \<Longrightarrow> tight posts s"
proof (induction rule: rtranclp_induct)
  case base
  show ?case using prog_in_step by (simp add: tight_def dialogue_start_def)
qed (rule tight_step)

lemma one_open: "dialogue_steps posts (dialogue_start prog) s \<Longrightarrow> length (pending s) + cmdCompleted s \<le> 1"
  using tight_reachable [of s] by (auto simp: tight_def)

lemma sends_when_answered:
  "dialogue_steps posts (dialogue_start prog) s \<Longrightarrow> todo s = Send r # rest \<Longrightarrow> answered s = filter posts (made s)"
  using tight_reachable [of s] balanced_reachable [of posts prog s] by (auto simp: tight_def balanced_def)

lemma stuck_is_done:
  assumes "dialogue_steps posts (dialogue_start prog) s" "stuck posts s"
  shows "todo s = [] \<and> made s = requests prog \<and> answered s = filter posts (requests prog) \<and> cmdCompleted s = 0"
proof -
  from tight_reachable [OF assms(1)] assms(2) have "todo s = []" "pending s = []" "cmdCompleted s = 0"
    by (auto simp: tight_def stuck_def)
  with balanced_reachable [OF assms(1)] show ?thesis by (auto simp: balanced_def)
qed

lemma runs_complete: "dialogue_steps posts (dialogue_start prog) s \<Longrightarrow> \<exists>s'. dialogue_steps posts s s' \<and> todo s' = []"
  using reaches_stuck [of posts s] stuck_is_done by (meson rtranclp_trans)

lemma is_served: "served posts prog"
  unfolding served_def stuck_iff [symmetric]
  using one_open sends_when_answered stuck_is_done runs_complete by blast

end

text \<open>A program that is a request and its wait, and one that is put together.\<close>

definition call :: "'r \<Rightarrow> 'r action list" where
  "call r = [Send r, Wait]"

lemma in_step_call [simp]:
  "in_step posts (call r) \<longleftrightarrow> posts r" "in_step posts (call r @ as) \<longleftrightarrow> posts r \<and> in_step posts as"
  by (simp_all add: call_def)

lemma requests_call [simp]: "requests (call r) = [r]"
  by (simp add: call_def)

lemma waits_call [simp]: "waits (call r) = 1" "waits (map Send rs) = 0"
  by (simp add: call_def) (induction rs, simp_all)

end
