(* ===== verification/P4_Drivers.thy ===== *)
theory P4_Drivers
  imports Pktgen Cmd_Handshake
begin

text \<open>
  The drivers of the P4 designs that command a card and wait for its answers on a semaphore:
  \<^verbatim>\<open>src/p4/examples/tdm/test.cpp\<close>, \<^verbatim>\<open>src/p4/benchmark/fwd/test.cpp\<close>, \<^verbatim>\<open>src/p4/examples/match/test.cpp\<close>,
  \<^verbatim>\<open>src/p4/examples/parameterized_match/test.cpp\<close> and \<^verbatim>\<open>src/p4/examples/asymmetricRam/test.cpp\<close>, and those that
  only replay a trace (\<^verbatim>\<open>null\<close>, \<^verbatim>\<open>memory\<close>, \<^verbatim>\<open>compiler\<close>, \<^verbatim>\<open>parser\<close>, \<^verbatim>\<open>pktgen\<close>).  A driver is the list of its
  actions and the way it ends.  Which requests a card answers is read off its design in
  Bluespec, and which answers post the semaphore off the driver's handlers.  Options are what
  \<^verbatim>\<open>getopt_long\<close> reports; messages and sleeps are not modelled.
\<close>

section \<open>Parts the drivers share\<close>

datatype driver_end = Returns | Exits | Traps | Undefined_conversion | Sleeps_forever

fun idle_end :: "idle_fault \<Rightarrow> driver_end" where
  "idle_end Division_by_zero = Traps"
| "idle_end Outside_int = Undefined_conversion"

definition no_trace :: pcap_trace_info where
  "no_trace = \<lparr>packet_count = 0, byte_count = 0\<rparr>"

text \<open>The capture file of the options, if there is one; \<open>None\<close> is the exit when it cannot be read.\<close>

definition load_trace :: "(string \<Rightarrow> capture list option) \<Rightarrow> string option \<Rightarrow> (beat list \<times> pcap_trace_info) option" where
  "load_trace files pcap_file = (case pcap_file of None \<Rightarrow> Some ([], no_trace) | Some f \<Rightarrow> load_pcap_file (files f) no_trace)"

section \<open>The time-division switch\<close>

datatype tdm_request =
    Tdm_read_version | Tdm_packet beat | Tdm_start int int | Tdm_stop | Tdm_add u32 u32 | Tdm_delete u32 u16
  | Tdm_ring u8 | Tdm_mem | Tdm_tdm | Tdm_match

datatype tdm_ind = Tdm_version_resp | Tdm_add_resp | Tdm_del_resp | Tdm_ring_resp | Tdm_mem_resp | Tdm_tdm_resp | Tdm_match_resp | Tdm_thru_resp

text \<open>The answer of the design to a request, and whether its handler posts the semaphore.\<close>

fun tdm_answer :: "tdm_request \<Rightarrow> tdm_ind option" where
  "tdm_answer Tdm_read_version = Some Tdm_version_resp"
| "tdm_answer (Tdm_add nm dstip) = Some Tdm_add_resp"
| "tdm_answer (Tdm_ring i) = Some Tdm_ring_resp"
| "tdm_answer Tdm_mem = Some Tdm_mem_resp"
| "tdm_answer Tdm_tdm = Some Tdm_tdm_resp"
| "tdm_answer Tdm_match = Some Tdm_match_resp"
| "tdm_answer _ = None"

fun tdm_handler_posts :: "tdm_ind \<Rightarrow> bool" where
  "tdm_handler_posts i = True"

definition tdm_posts :: "tdm_request \<Rightarrow> bool" where
  "tdm_posts r = (case tdm_answer r of None \<Rightarrow> False | Some i \<Rightarrow> tdm_handler_posts i)"

record tdm_args = arg_info +
  tableadd :: bool
  tabledel :: bool
  checkStatus :: bool

fun tdm_parse_options ::
  "(string \<Rightarrow> real) \<Rightarrow> (char \<times> string) list \<Rightarrow> string option \<times> tdm_args \<Rightarrow> (string option \<times> tdm_args) option" where
  "tdm_parse_options strtod [] (pcap_file, info) = Some (pcap_file, info)"
| "tdm_parse_options strtod ((c, optarg) # xs) (pcap_file, info) =
     (if c = CHR ''h'' then tdm_parse_options strtod xs (pcap_file, info)
      else if c = CHR ''p'' then tdm_parse_options strtod xs (Some optarg, info)
      else if c = CHR ''r'' then tdm_parse_options strtod xs (pcap_file, info\<lparr>rate := strtod optarg\<rparr>)
      else if c = CHR ''n'' then tdm_parse_options strtod xs (pcap_file, info\<lparr>tracelen := long_to_int (strtol optarg)\<rparr>)
      else if c = CHR ''a'' then tdm_parse_options strtod xs (pcap_file, info\<lparr>tableadd := True\<rparr>)
      else if c = CHR ''d'' then tdm_parse_options strtod xs (pcap_file, info\<lparr>tabledel := True\<rparr>)
      else if c = CHR ''s'' then tdm_parse_options strtod xs (pcap_file, info\<lparr>checkStatus := True\<rparr>)
      else None)"

definition tdm_erase_table :: "tdm_request action list" where
  "tdm_erase_table = map Send (map (\<lambda>i. Tdm_delete 0 (of_nat i)) [0..<256])"

definition tdm_add_entry :: "u32 \<Rightarrow> tdm_request action list" where
  "tdm_add_entry dstip = call (Tdm_add 0 dstip)"

definition tdm_read_status :: "tdm_request action list" where
  "tdm_read_status = call (Tdm_ring 0) @ call (Tdm_ring 1) @ call (Tdm_ring 2) @ call Tdm_tdm @ call Tdm_mem @ call Tdm_match"

definition tdm_table :: "tdm_request action list" where
  "tdm_table = tdm_add_entry 0x0300000a @ tdm_add_entry 0x0400000a @ tdm_add_entry 0x0100000a @ tdm_add_entry 0x0200000a"

definition no_tdm_args :: tdm_args where
  "no_tdm_args = \<lparr>rate = 0, tracelen = 0, tableadd = False, tabledel = False, checkStatus = False\<rparr>"

definition tdm_main ::
  "(string \<Rightarrow> real) \<Rightarrow> (real \<Rightarrow> real) \<Rightarrow> (string \<Rightarrow> capture list option) \<Rightarrow> (char \<times> string) list \<Rightarrow> tdm_request action list \<times> driver_end" where
  "tdm_main strtod rnd files opts =
     (case tdm_parse_options strtod opts (None, no_tdm_args) of
        None \<Rightarrow> ([], Exits)
      | Some (pcap_file, info) \<Rightarrow>
          let version = call Tdm_read_version
          in case load_trace files pcap_file of
               None \<Rightarrow> (version, Exits)
             | Some (beats, pcap_info) \<Rightarrow>
                 let acts = version @ map Send (map Tdm_packet beats) @
                       (if tableadd info then tdm_table else []) @
                       (if tabledel info then tdm_erase_table else []) @
                       (if tableadd info then tdm_table else []);
                     status = (if checkStatus info then tdm_read_status else [])
                 in if rate info \<noteq> 0 \<and> tracelen info \<noteq> 0
                    then (case compute_idle rnd pcap_info (rate info) LINK_SPEED of
                            Inl e \<Rightarrow> (acts, idle_end e)
                          | Inr idle \<Rightarrow> (acts @ map Send [Tdm_start (tracelen info) idle, Tdm_stop] @ status, Returns))
                    else (acts @ status, Returns))"

section \<open>The forwarding benchmark\<close>

datatype fwd_request = Fwd_read_version | Fwd_packet beat | Fwd_rx_ring | Fwd_tx_ring | Fwd_mem | Fwd_ingress | Fwd_host_chan | Fwd_rx_chan

fun fwd_answered :: "fwd_request \<Rightarrow> bool" where
  "fwd_answered (Fwd_packet b) = False"
| "fwd_answered _ = True"

text \<open>All seven handlers post.\<close>

definition fwd_posts :: "fwd_request \<Rightarrow> bool" where
  "fwd_posts r = fwd_answered r"

text \<open>The option parser of the drivers that only take a trace: anything else is ignored.\<close>

fun trace_option :: "(char \<times> string) list \<Rightarrow> string option \<Rightarrow> string option" where
  "trace_option [] pcap_file = pcap_file"
| "trace_option ((c, optarg) # xs) pcap_file = trace_option xs (if c = CHR ''p'' then Some optarg else pcap_file)"

definition fwd_read_status :: "fwd_request action list" where
  "fwd_read_status = call Fwd_rx_ring @ call Fwd_tx_ring @ call Fwd_mem @ call Fwd_ingress @ call Fwd_host_chan @ call Fwd_rx_chan"

definition fwd_main :: "(string \<Rightarrow> capture list option) \<Rightarrow> (char \<times> string) list \<Rightarrow> fwd_request action list \<times> driver_end" where
  "fwd_main files opts =
     (let version = call Fwd_read_version
      in case load_trace files (trace_option opts None) of
           None \<Rightarrow> (version, Exits)
         | Some (beats, pcap_info) \<Rightarrow> (version @ map Send (map Fwd_packet beats) @ fwd_read_status, Returns))"

section \<open>The match tables\<close>

datatype match_request = Mt_read_version | Mt_add u32 u64 | Mt_delete u32 u16 | Mt_lookup u64 | Mt_counters

datatype match_ind = Mt_version_resp | Mt_add_resp | Mt_match_resp | Mt_counters_resp

text \<open>
  Both designs answer a lookup and the version; the rule that would answer an added entry and the
  method that would read the counters are commented out.
\<close>

fun match_answer :: "match_request \<Rightarrow> match_ind option" where
  "match_answer Mt_read_version = Some Mt_version_resp"
| "match_answer (Mt_lookup k) = Some Mt_match_resp"
| "match_answer _ = None"

fun match_handler_posts :: "match_ind \<Rightarrow> bool" where
  "match_handler_posts Mt_version_resp = False"
| "match_handler_posts Mt_add_resp = True"
| "match_handler_posts Mt_match_resp = True"
| "match_handler_posts Mt_counters_resp = True"

definition match_posts :: "match_request \<Rightarrow> bool" where
  "match_posts r = (case match_answer r of None \<Rightarrow> False | Some i \<Rightarrow> match_handler_posts i)"

record match_args =
  m_add :: bool
  m_del :: bool
  m_status :: bool
  m_lookup :: bool

fun match_parse_options :: "char list \<Rightarrow> match_args \<Rightarrow> match_args option" where
  "match_parse_options [] info = Some info"
| "match_parse_options (c # cs) info =
     (if c = CHR ''h'' then match_parse_options cs info
      else if c = CHR ''a'' then match_parse_options cs (info\<lparr>m_add := True\<rparr>)
      else if c = CHR ''d'' then match_parse_options cs (info\<lparr>m_del := True\<rparr>)
      else if c = CHR ''s'' then match_parse_options cs (info\<lparr>m_status := True\<rparr>)
      else if c = CHR ''l'' then match_parse_options cs (info\<lparr>m_lookup := True\<rparr>)
      else None)"

definition no_match_args :: match_args where
  "no_match_args = \<lparr>m_add = False, m_del = False, m_status = False, m_lookup = False\<rparr>"

definition match_erase_table :: "match_request action list" where
  "match_erase_table = map Send (map (\<lambda>i. Mt_delete 0 (of_nat i)) [0..<256])"

text \<open>The first driver does not wait for an added entry, the second does.\<close>

definition match_add_entry :: "u64 \<Rightarrow> match_request action list" where
  "match_add_entry dstip = [Send (Mt_add 0 dstip)]"

definition param_add_entry :: "u64 \<Rightarrow> match_request action list" where
  "param_add_entry key_field = call (Mt_add 0 key_field)"

definition match_main :: "char list \<Rightarrow> match_request action list \<times> driver_end" where
  "match_main opts =
     (case match_parse_options opts no_match_args of
        None \<Rightarrow> ([], Exits)
      | Some info \<Rightarrow>
          (Send Mt_read_version #
           (if m_del info then match_erase_table else []) @
           (if m_add info
            then match_add_entry 0x0300000a @ match_add_entry 0x0400000a @ match_add_entry 0x0500000a @ match_add_entry 0x0600000a
            else []) @
           (if m_lookup info then call (Mt_lookup 0x0400000a) else []) @
           (if m_lookup info then call (Mt_lookup 0x0400000a) else []) @
           (if m_status info then call Mt_counters else []), Sleeps_forever))"

definition param_match_main :: "char list \<Rightarrow> match_request action list \<times> driver_end" where
  "param_match_main opts =
     (case match_parse_options opts no_match_args of
        None \<Rightarrow> ([], Exits)
      | Some info \<Rightarrow>
          (Send Mt_read_version #
           (if m_del info then match_erase_table else []) @
           (if m_add info
            then param_add_entry 0x03 @ param_add_entry 0x04 @ param_add_entry 0x05 @ param_add_entry 0x06
            else []) @
           (if m_lookup info then call (Mt_lookup 0x04) else []) @
           (if m_lookup info then call (Mt_lookup 0x04) else []) @
           (if m_status info then call Mt_counters else []), Sleeps_forever))"

section \<open>The asymmetric memory\<close>

datatype asym_request = As_read_version | As_mem_read u64 | As_mem_write u64 u64

text \<open>A write is not answered; both handlers post.\<close>

fun asym_posts :: "asym_request \<Rightarrow> bool" where
  "asym_posts As_read_version = True"
| "asym_posts (As_mem_read a) = True"
| "asym_posts (As_mem_write a d) = False"

record asym_args =
  as_mode :: nat
  as_data :: int
  as_address :: int

fun asym_parse_options :: "(char \<times> string) list \<Rightarrow> asym_args \<Rightarrow> asym_args option" where
  "asym_parse_options [] info = Some info"
| "asym_parse_options ((c, optarg) # xs) info =
     (if c = CHR ''h'' then asym_parse_options xs info
      else if c = CHR ''r'' then asym_parse_options xs (info\<lparr>as_mode := 1\<rparr>)
      else if c = CHR ''w'' then asym_parse_options xs (info\<lparr>as_mode := 2\<rparr>)
      else if c = CHR ''d'' then asym_parse_options xs (info\<lparr>as_data := strtol optarg\<rparr>)
      else if c = CHR ''a'' then asym_parse_options xs (info\<lparr>as_address := strtol optarg\<rparr>)
      else None)"

definition asym_main :: "(char \<times> string) list \<Rightarrow> asym_request action list \<times> driver_end" where
  "asym_main opts =
     (case asym_parse_options opts \<lparr>as_mode = 0, as_data = 0, as_address = 0\<rparr> of
        None \<Rightarrow> ([], Exits)
      | Some info \<Rightarrow>
          (Send As_read_version #
           (if as_mode info = 1 then call (As_mem_read (of_int (as_address info))) else []) @
           (if as_mode info = 2 then call (As_mem_write (of_int (as_address info)) (of_int (as_data info))) else []), Returns))"

section \<open>Drivers that replay a trace\<close>

datatype replay_request = Rp_read_version | Rp_packet beat | Rp_start int int

definition null_main :: "(string \<Rightarrow> capture list option) \<Rightarrow> (char \<times> string) list \<Rightarrow> replay_request list \<times> driver_end" where
  "null_main files opts =
     (case load_trace files (trace_option opts None) of
        None \<Rightarrow> ([Rp_read_version], Exits)
      | Some (beats, pcap_info) \<Rightarrow> (Rp_read_version # map Rp_packet beats, Returns))"

definition memory_main :: "(string \<Rightarrow> capture list option) \<Rightarrow> (char \<times> string) list \<Rightarrow> replay_request list \<times> driver_end" where
  "memory_main files opts =
     (case load_trace files (trace_option opts None) of
        None \<Rightarrow> ([Rp_read_version], Exits)
      | Some (beats, pcap_info) \<Rightarrow> (Rp_read_version # map Rp_packet beats, Returns))"

definition parser_main :: "(string \<Rightarrow> capture list option) \<Rightarrow> (char \<times> string) list \<Rightarrow> replay_request list \<times> driver_end" where
  "parser_main files opts =
     (case load_trace files (trace_option opts None) of
        None \<Rightarrow> ([Rp_read_version], Exits)
      | Some (beats, pcap_info) \<Rightarrow> (Rp_read_version # map Rp_packet beats, Returns))"

definition compiler_main :: "(string \<Rightarrow> capture list option) \<Rightarrow> (char \<times> string) list \<Rightarrow> replay_request list \<times> driver_end" where
  "compiler_main files opts =
     (case load_trace files (trace_option opts None) of
        None \<Rightarrow> ([Rp_read_version], Exits)
      | Some (beats, pcap_info) \<Rightarrow> (Rp_read_version # map Rp_packet beats, Sleeps_forever))"

text \<open>The generator of the P4 pipeline ignores options it does not know, and never stops.\<close>

fun gen_parse_options :: "(string \<Rightarrow> real) \<Rightarrow> (char \<times> string) list \<Rightarrow> string option \<times> arg_info \<Rightarrow> string option \<times> arg_info" where
  "gen_parse_options strtod [] (pcap_file, info) = (pcap_file, info)"
| "gen_parse_options strtod ((c, optarg) # xs) (pcap_file, info) =
     (if c = CHR ''p'' then gen_parse_options strtod xs (Some optarg, info)
      else if c = CHR ''r'' then gen_parse_options strtod xs (pcap_file, info\<lparr>rate := strtod optarg\<rparr>)
      else if c = CHR ''n'' then gen_parse_options strtod xs (pcap_file, info\<lparr>tracelen := long_to_int (strtol optarg)\<rparr>)
      else gen_parse_options strtod xs (pcap_file, info))"

definition p4_pktgen_main ::
  "(string \<Rightarrow> real) \<Rightarrow> (real \<Rightarrow> real) \<Rightarrow> (string \<Rightarrow> capture list option) \<Rightarrow> (char \<times> string) list \<Rightarrow> replay_request list \<times> driver_end" where
  "p4_pktgen_main strtod rnd files opts =
     (let (pcap_file, info) = gen_parse_options strtod opts (None, \<lparr>rate = 0, tracelen = 0\<rparr>)
      in case load_trace files pcap_file of
           None \<Rightarrow> ([Rp_read_version], Exits)
         | Some (beats, pcap_info) \<Rightarrow>
             let reqs = Rp_read_version # map Rp_packet beats
             in if rate info \<noteq> 0 \<and> tracelen info \<noteq> 0
                then (case compute_idle rnd pcap_info (rate info) LINK_SPEED of
                        Inl e \<Rightarrow> (reqs, idle_end e)
                      | Inr idle \<Rightarrow> (reqs @ [Rp_start (tracelen info) idle], Returns))
                else (reqs, Returns))"

text \<open>
  A driver that is given a readable trace sends beats from which the pipeline recovers exactly the
  packets of the trace, empty ones left out.
\<close>

lemma replay_delivers_trace:
  assumes "trace_option opts None = Some f" "files f = Some ps"
  shows "\<exists>beats. frames beats [] = map (\<lambda>p. map (cap_data p) [0..<caplen p]) (filter (\<lambda>p. caplen p > 0) ps) \<and>
    null_main files opts = (Rp_read_version # map Rp_packet beats, Returns) \<and>
    memory_main files opts = (Rp_read_version # map Rp_packet beats, Returns) \<and>
    parser_main files opts = (Rp_read_version # map Rp_packet beats, Returns) \<and>
    compiler_main files opts = (Rp_read_version # map Rp_packet beats, Sleeps_forever) \<and>
    fwd_main files opts = (call Fwd_read_version @ map Send (map Fwd_packet beats) @ fwd_read_status, Returns)"
proof -
  obtain beats pi where l: "pcap_loop ps no_trace = (beats, pi)" by force
  have "frames beats [] = map (\<lambda>p. map (cap_data p) [0..<caplen p]) (filter (\<lambda>p. caplen p > 0) ps)"
    using frames_pcap_loop [of ps] pcap_loop_beats [of ps no_trace] l by simp
  with l assms show ?thesis
    by (intro exI [of _ beats])
      (simp add: null_main_def memory_main_def parser_main_def compiler_main_def fwd_main_def load_trace_def load_pcap_file_def)
qed

section \<open>Drivers in step with their card\<close>

lemma tdm_in_step: "in_step tdm_posts (fst (tdm_main strtod rnd files opts))"
proof -
  have tbl: "in_step tdm_posts tdm_table" "in_step tdm_posts tdm_read_status" "in_step tdm_posts tdm_erase_table"
    by (simp_all add: tdm_table_def tdm_add_entry_def tdm_read_status_def tdm_erase_table_def tdm_posts_def list_all_iff
        del: map_map)
  have pkts: "in_step tdm_posts (map Send (map Tdm_packet beats))" for beats
    by (rule in_step_sends) (simp add: list_all_iff tdm_posts_def)
  show ?thesis
    by (simp add: tdm_main_def Let_def tbl pkts tdm_posts_def in_step_Send del: map_map split: option.splits prod.splits sum.splits)
qed

lemma tdm_without_trace:
  assumes "tdm_parse_options strtod opts (None, no_tdm_args) = Some (None, info)" "rate info \<noteq> 0" "tracelen info \<noteq> 0"
  shows "snd (tdm_main strtod rnd files opts) = Traps"
    and "\<forall>r \<in> set (requests (fst (tdm_main strtod rnd files opts))). r = Tdm_read_version \<or>
      (\<exists>ip. r = Tdm_add 0 ip) \<or> (\<exists>i. r = Tdm_delete 0 i)"
  using assms
  by (auto simp: tdm_main_def load_trace_def no_trace_def compute_idle_def Let_def tdm_table_def tdm_add_entry_def
      tdm_erase_table_def call_def simp del: map_map upt_rec_numeral)

interpretation tdm: stepping_program tdm_posts "fst (tdm_main strtod rnd files opts)" for strtod rnd files opts
  by unfold_locales (rule tdm_in_step)

lemma fwd_in_step: "in_step fwd_posts (fst (fwd_main files opts))"
proof -
  have "in_step fwd_posts (map Send (map Fwd_packet beats))" for beats
    by (rule in_step_sends) (simp add: list_all_iff fwd_posts_def)
  then show ?thesis
    by (simp add: fwd_main_def fwd_read_status_def Let_def fwd_posts_def del: map_map split: option.splits prod.splits)
qed

interpretation fwd: stepping_program fwd_posts "fst (fwd_main files opts)" for files opts
  by unfold_locales (rule fwd_in_step)

lemma match_parse_keeps:
  "match_parse_options cs info = Some info' \<Longrightarrow>
   m_add info' = (m_add info \<or> CHR ''a'' \<in> set cs) \<and> m_del info' = (m_del info \<or> CHR ''d'' \<in> set cs) \<and>
   m_status info' = (m_status info \<or> CHR ''s'' \<in> set cs) \<and> m_lookup info' = (m_lookup info \<or> CHR ''l'' \<in> set cs)"
  by (induction cs info rule: match_parse_options.induct) (auto split: if_splits)

lemma match_parse_ok: "set cs \<subseteq> set ''hadsl'' \<Longrightarrow> \<exists>info'. match_parse_options cs info = Some info'"
  by (induction cs info rule: match_parse_options.induct) auto

lemma match_erase_silent [simp]: "filter match_posts (requests match_erase_table) = []" "in_step match_posts match_erase_table"
  "waits match_erase_table = 0"
  by (simp_all add: match_erase_table_def match_posts_def list_all_iff filter_empty_conv del: map_map upt_rec_numeral)

lemma match_erase_deletes: "r \<in> set (requests match_erase_table) \<Longrightarrow> r \<in> range (Mt_delete 0)"
  by (auto simp: match_erase_table_def simp del: map_map upt_rec_numeral)

lemma match_in_step: "CHR ''s'' \<notin> set opts \<Longrightarrow> in_step match_posts (fst (match_main opts))"
  using match_parse_keeps [of opts no_match_args]
  by (auto simp: match_main_def no_match_args_def match_add_entry_def in_step_Send match_posts_def split: option.splits)

lemma param_in_step: "CHR ''s'' \<notin> set opts \<Longrightarrow> CHR ''a'' \<notin> set opts \<Longrightarrow> in_step match_posts (fst (param_match_main opts))"
  using match_parse_keeps [of opts no_match_args]
  by (auto simp: param_match_main_def no_match_args_def in_step_Send match_posts_def split: option.splits)

text \<open>
  C17.  The requests and waits that the drivers of the switch and of the forwarding benchmark make, whatever their options, those of the driver
  of the match table without \<^verbatim>\<open>-s\<close>, and of that of the parameterized table without \<^verbatim>\<open>-s\<close> and \<^verbatim>\<open>-a\<close>, are
  served by their cards in every interleaving: one answer or one post is outstanding at most, a
  request is sent only when all before it have been answered, a run that cannot go on has sent
  everything and consumed every post, and the end is reachable from everywhere.  No run of any of them is
  infinite.  These are the requests and waits up to a driver's end, which need not be a return: given a rate and a
  count but no trace, the driver of the switch ends in a division by zero, before it starts and stops the
  generator and reads the status.
\<close>

theorem drivers_complete:
  "served tdm_posts (fst (tdm_main strtod rnd files opts)) \<and> served fwd_posts (fst (fwd_main files opts)) \<and>
   (CHR ''s'' \<notin> set flags \<longrightarrow> served match_posts (fst (match_main flags))) \<and>
   (CHR ''s'' \<notin> set flags \<longrightarrow> CHR ''a'' \<notin> set flags \<longrightarrow> served match_posts (fst (param_match_main flags))) \<and>
   (\<nexists>f. \<forall>i. dialogue_step tdm_posts (f i) (f (Suc i))) \<and> (\<nexists>f. \<forall>i. dialogue_step fwd_posts (f i) (f (Suc i))) \<and>
   (\<nexists>f. \<forall>i. dialogue_step match_posts (f i) (f (Suc i))) \<and>
   (tdm_parse_options strtod opts (None, no_tdm_args) = Some (None, info) \<and> rate info \<noteq> 0 \<and> tracelen info \<noteq> 0 \<longrightarrow>
     snd (tdm_main strtod rnd files opts) = Traps \<and>
     (\<forall>r \<in> set (requests (fst (tdm_main strtod rnd files opts))). r = Tdm_read_version \<or>
        (\<exists>ip. r = Tdm_add 0 ip) \<or> (\<exists>i. r = Tdm_delete 0 i)))"
  using tdm.is_served fwd.is_served match_in_step param_in_step no_infinite_run [of tdm_posts] no_infinite_run [of fwd_posts]
    no_infinite_run [of match_posts] tdm_without_trace [of strtod opts info rnd files]
  by (intro conjI impI) (simp_all add: stepping_program.intro stepping_program.is_served)

theorem drivers_complete_witness:
  "served match_posts (fst (match_main ''adl'')) \<and> served match_posts (fst (param_match_main ''dl'')) \<and>
   snd (tdm_main (\<lambda>_. 5) (\<lambda>x. x) (\<lambda>_. None) [(CHR ''r'', ''5''), (CHR ''n'', ''8''), (CHR ''s'', [])]) = Traps"
proof -
  have "strtol ''8'' = 8" "long_to_int 8 = 8" by code_simp+
  then show ?thesis
    using drivers_complete [where flags = "''adl''"]
      drivers_complete [where flags = "''dl''" and strtod = "\<lambda>_. 5" and rnd = "\<lambda>x. x" and files = "\<lambda>_. None" and
        opts = "[(CHR ''r'', ''5''), (CHR ''n'', ''8''), (CHR ''s'', [])]" and
        info = "\<lparr>rate = 5, tracelen = 8, tableadd = False, tabledel = False, checkStatus = True\<rparr>"]
    by (simp add: no_tdm_args_def)
qed

section \<open>Drivers that wait for an answer that never comes\<close>

text \<open>A program up to a wait that cannot be passed: it is never done, and makes no request beyond it.\<close>

lemma waits_forever:
  assumes "dialogue_steps posts (dialogue_start (p @ Wait # q)) s" "length (filter posts (requests p)) \<le> waits p"
  shows "todo s \<noteq> [] \<and> set (made s) \<subseteq> set (requests p)"
proof -
  obtain past where past: "p @ Wait # q = past @ todo s" "made s = requests past"
    using balanced_reachable [OF assms(1)] by (auto simp: balanced_def)
  from never_passes [OF assms] have len: "length q < length (todo s)" .
  with past(1) obtain us where "p = past @ us"
    by (auto simp: append_eq_append_conv2 Cons_eq_append_conv dest: arg_cong [where f = length])
  with past(2) len show ?thesis by auto
qed

lemma param_add_hangs:
  assumes info: "match_parse_options opts no_match_args = Some info" "m_add info"
    and s: "dialogue_steps match_posts (dialogue_start (fst (param_match_main opts))) s"
  shows "todo s \<noteq> [] \<and> set (made s) \<subseteq> {Mt_read_version, Mt_add 0 3} \<union> range (Mt_delete 0)"
proof -
  let ?p = "Send Mt_read_version # (if m_del info then match_erase_table else []) @ [Send (Mt_add 0 3)]"
  obtain q where q: "fst (param_match_main opts) = ?p @ Wait # q"
    using info by (simp add: param_match_main_def param_add_entry_def call_def)
  have "set (requests ?p) \<subseteq> {Mt_read_version, Mt_add 0 3} \<union> range (Mt_delete 0)"
    using match_erase_deletes by (cases "m_del info") auto
  moreover have "length (filter match_posts (requests ?p)) \<le> waits ?p" by (simp add: match_posts_def)
  note waits_forever [OF s [unfolded q] this]
  ultimately show ?thesis by blast
qed

text \<open>The last part of both drivers: the lookups are answered, the counters are not.\<close>

lemma status_hangs:
  assumes s: "dialogue_steps match_posts (dialogue_start (p @ ls @ ls @ call Mt_counters)) s"
    and p: "filter match_posts (requests p) = []" "ls = [] \<or> (\<exists>k. ls = call (Mt_lookup k))"
  shows "todo s \<noteq> []"
proof -
  have "length (filter match_posts (requests (p @ ls @ ls @ [Send Mt_counters]))) \<le> waits (p @ ls @ ls @ [Send Mt_counters])"
    using p by (auto simp: match_posts_def)
  from waits_forever [OF _ this, of "[]" s] s show ?thesis by (simp add: call_def)
qed

lemma match_status_hangs:
  assumes "match_parse_options opts no_match_args = Some info" "m_status info"
    and "dialogue_steps match_posts (dialogue_start (fst (match_main opts))) s"
  shows "todo s \<noteq> []"
proof (rule status_hangs)
  let ?p = "Send Mt_read_version # (if m_del info then match_erase_table else []) @
    (if m_add info then map Send [Mt_add 0 0x0300000a, Mt_add 0 0x0400000a, Mt_add 0 0x0500000a, Mt_add 0 0x0600000a] else [])"
  let ?ls = "if m_lookup info then call (Mt_lookup 0x0400000a) else []"
  have "fst (match_main opts) = ?p @ ?ls @ ?ls @ call Mt_counters"
    using assms(1,2) by (simp add: match_main_def match_add_entry_def)
  with assms(3) show "dialogue_steps match_posts (dialogue_start (?p @ ?ls @ ?ls @ call Mt_counters)) s" by (simp only:)
  show "filter match_posts (requests ?p) = []" by (simp add: match_posts_def)
qed auto

lemma param_status_hangs:
  assumes "match_parse_options opts no_match_args = Some info" "m_status info" "\<not> m_add info"
    and "dialogue_steps match_posts (dialogue_start (fst (param_match_main opts))) s"
  shows "todo s \<noteq> []"
proof (rule status_hangs)
  let ?p = "Send Mt_read_version # (if m_del info then match_erase_table else [])"
  let ?ls = "if m_lookup info then call (Mt_lookup 4) else []"
  have "fst (param_match_main opts) = ?p @ ?ls @ ?ls @ call Mt_counters"
    using assms(1-3) by (simp add: param_match_main_def)
  with assms(4) show "dialogue_steps match_posts (dialogue_start (?p @ ?ls @ ?ls @ call Mt_counters)) s" by (simp only:)
  show "filter match_posts (requests ?p) = []" by (simp add: match_posts_def)
qed auto

text \<open>
  C19.  Given only options they know (\<^verbatim>\<open>-h\<close>, \<^verbatim>\<open>-a\<close>, \<^verbatim>\<open>-d\<close>, \<^verbatim>\<open>-s\<close>, \<^verbatim>\<open>-l\<close>; with any other both exit):
  the driver of the parameterized match table with \<^verbatim>\<open>-a\<close> waits for the answer to its first entry,
  which the design does not send: no run is ever done, and the other three entries, the
  lookups and the counters are never requested.  With \<^verbatim>\<open>-s\<close> neither driver comes to its end, since
  the design does not answer a request for the counters.
\<close>

theorem drivers_hang:
  assumes "set opts \<subseteq> set ''hadsl''"
  shows "(CHR ''a'' \<in> set opts \<longrightarrow> (\<forall>s. dialogue_steps match_posts (dialogue_start (fst (param_match_main opts))) s \<longrightarrow>
            todo s \<noteq> [] \<and> set (made s) \<subseteq> {Mt_read_version, Mt_add 0 3} \<union> range (Mt_delete 0))) \<and>
         (CHR ''s'' \<in> set opts \<longrightarrow>
            (\<forall>s. dialogue_steps match_posts (dialogue_start (fst (match_main opts))) s \<longrightarrow> todo s \<noteq> []) \<and>
            (\<forall>s. dialogue_steps match_posts (dialogue_start (fst (param_match_main opts))) s \<longrightarrow> todo s \<noteq> []))"
proof -
  obtain info where info: "match_parse_options opts no_match_args = Some info" using match_parse_ok assms by blast
  from match_parse_keeps [OF info] have "m_add info \<longleftrightarrow> CHR ''a'' \<in> set opts" "m_status info \<longleftrightarrow> CHR ''s'' \<in> set opts"
    by (simp_all add: no_match_args_def)
  with param_add_hangs [OF info] match_status_hangs [OF info] param_status_hangs [OF info] show ?thesis by blast
qed

theorem drivers_hang_witness:
  "\<exists>s. dialogue_steps match_posts (dialogue_start (fst (param_match_main ''a''))) s \<and> made s = [Mt_read_version, Mt_add 0 3] \<and>
     stuck match_posts s \<and> todo s \<noteq> []"
proof -
  obtain q where q: "fst (param_match_main ''a'') = [Send Mt_read_version, Send (Mt_add 0 3)] @ Wait # q"
    by (simp add: param_match_main_def no_match_args_def param_add_entry_def call_def)
  note run = sends_run [of match_posts "[Mt_read_version, Mt_add 0 3]" "Wait # q"]
  from run have "dialogue_steps match_posts (dialogue_start (fst (param_match_main ''a'')))
      \<lparr>todo = Wait # q, pending = [], cmdCompleted = 0, made = [Mt_read_version, Mt_add 0 3], answered = []\<rparr>"
    by (simp add: q match_posts_def)
  moreover from this have "todo \<lparr>todo = Wait # q, pending = [], cmdCompleted = 0, made = [Mt_read_version, Mt_add 0 3], answered = []\<rparr> \<noteq> []"
    using drivers_hang [of "''a''"] by simp
  ultimately show ?thesis by (intro exI conjI) (auto simp: stuck_def)
qed

section \<open>A driver that may leave before its answer\<close>

lemma asym_program:
  assumes "asym_parse_options opts \<lparr>as_mode = 0, as_data = 0, as_address = 0\<rparr> = Some info"
  shows "as_mode info = 1 \<Longrightarrow> fst (asym_main opts) = [Send As_read_version, Send (As_mem_read (of_int (as_address info))), Wait]"
    and "as_mode info = 2 \<Longrightarrow> fst (asym_main opts) =
           [Send As_read_version, Send (As_mem_write (of_int (as_address info)) (of_int (as_data info))), Wait]"
  using assms by (simp_all add: asym_main_def call_def)

text \<open>Two requests, the first of them answered, then one wait: the first answer alone lets the program go.\<close>

lemma first_answer_passes:
  assumes "posts r"
  shows "dialogue_steps posts (dialogue_start [Send r, Send r', Wait])
           \<lparr>todo = [], pending = (if posts r' then [r'] else []), cmdCompleted = 0, made = [r, r'], answered = [r]\<rparr>"
proof -
  let ?p = "if posts r' then [r'] else []"
  let ?s1 = "\<lparr>todo = [Wait], pending = r # ?p, cmdCompleted = 0, made = [r, r'], answered = []\<rparr>"
  let ?s2 = "\<lparr>todo = [Wait], pending = ?p, cmdCompleted = 1, made = [r, r'], answered = [r]\<rparr>"
  have "dialogue_steps posts (dialogue_start [Send r, Send r', Wait]) ?s1"
    using sends_run [of posts "[r, r']" "[Wait]"] assms by (cases "posts r'") simp_all
  moreover have "dialogue_step posts ?s1 ?s2" using dialogue_step.answer [of ?s1 r ?p posts] by simp
  moreover have "dialogue_step posts ?s2 (?s2\<lparr>todo := [], cmdCompleted := 0\<rparr>)"
    using dialogue_step.wait [of ?s2 "[]" posts] by simp
  ultimately show ?thesis by (simp add: rtranclp.rtrancl_into_rtrancl)
qed

text \<open>
  C35.  The driver of the asymmetric memory does not wait for the version, whose handler posts the
  same semaphore.  With \<^verbatim>\<open>-r\<close> it has a run that returns while the data it asked for is still to come;
  with \<^verbatim>\<open>-w\<close>, which the design does not answer, it is only the version's post that lets it
  return: every run that cannot go on has returned, with that one post consumed.
\<close>

theorem asym_returns_early:
  assumes "asym_parse_options opts \<lparr>as_mode = 0, as_data = 0, as_address = 0\<rparr> = Some info"
  shows "(as_mode info = 1 \<longrightarrow> (\<exists>s. dialogue_steps asym_posts (dialogue_start (fst (asym_main opts))) s \<and> todo s = [] \<and>
            pending s = [As_mem_read (of_int (as_address info))])) \<and>
         (as_mode info = 2 \<longrightarrow> (\<forall>s. dialogue_steps asym_posts (dialogue_start (fst (asym_main opts))) s \<longrightarrow>
            \<not> (\<exists>s'. dialogue_step asym_posts s s') \<longrightarrow> todo s = [] \<and> answered s = [As_read_version] \<and> cmdCompleted s = 0))"
proof (intro conjI impI allI)
  assume m: "as_mode info = 1"
  show "\<exists>s. dialogue_steps asym_posts (dialogue_start (fst (asym_main opts))) s \<and> todo s = [] \<and>
      pending s = [As_mem_read (of_int (as_address info))]"
    using first_answer_passes [of asym_posts As_read_version "As_mem_read (of_int (as_address info))"]
    unfolding asym_program(1) [OF assms m] by (intro exI conjI) auto
next
  fix s
  assume m: "as_mode info = 2" and s: "dialogue_steps asym_posts (dialogue_start (fst (asym_main opts))) s"
    and halt: "\<not> (\<exists>s'. dialogue_step asym_posts s s')"
  from balanced_reachable [OF s] halt
  show "todo s = []" "answered s = [As_read_version]" "cmdCompleted s = 0"
    unfolding asym_program(2) [OF assms m] stuck_iff [symmetric]
    by (auto simp: balanced_def stuck_def Cons_eq_append_conv eq_commute [of _ "answered s"])
qed

theorem asym_returns_early_witness:
  "(\<exists>s. dialogue_steps asym_posts (dialogue_start (fst (asym_main [(CHR ''r'', []), (CHR ''a'', ''8'')]))) s \<and> todo s = [] \<and>
      pending s = [As_mem_read 8]) \<and>
   (\<exists>s. dialogue_steps asym_posts (dialogue_start (fst (asym_main [(CHR ''w'', [])]))) s \<and> stuck asym_posts s \<and>
      todo s = [] \<and> answered s = [As_read_version])"
proof -
  have "strtol ''8'' = 8" by code_simp
  moreover obtain s where "dialogue_steps asym_posts (dialogue_start (fst (asym_main [(CHR ''w'', [])]))) s" "stuck asym_posts s"
    using reaches_stuck by blast
  ultimately show ?thesis
    using asym_returns_early [of "[(CHR ''r'', []), (CHR ''a'', ''8'')]" "\<lparr>as_mode = 1, as_data = 0, as_address = 8\<rparr>"]
      asym_returns_early [of "[(CHR ''w'', [])]" "\<lparr>as_mode = 2, as_data = 0, as_address = 0\<rparr>"]
    by (auto simp: stuck_iff)
qed

end
