(* ===== verification/Paxos_Driver.thy ===== *)
theory Paxos_Driver
  imports P4_Drivers Match_Table
begin

text \<open>
  The drivers of the Paxos designs, \<^verbatim>\<open>src/p4/examples/paxos/test.cpp\<close> and
  \<^verbatim>\<open>src/p4/examples/paxos-learner/test.cpp\<close>: option parser, packet writer and \<^verbatim>\<open>main\<close> as the list of requests made
  of the card.  The requests that fill tables and registers are followed into the card: a table
  entry is packed as the design packs it and written through \<open>Match_Table\<close>, which is what the
  tables are when the design is simulated, and a register write updates its register.
\<close>

section \<open>Roles, actions and requests\<close>

datatype Role = ACCEPTOR | COORDINATOR | FORWARDER

datatype SequenceTblActionT = Nop | IncreaseInstance

datatype AcceptorTblActionT = Handle1A | Handle2A | Drop | Unused

datatype LearnerTblActionT = Unused_learner | Handle2B | Drop1

datatype paxos_request =
    Px_set_verbosity u32 | Px_read_version
  | Px_datapath_id_reg_write u16 | Px_role_reg_write Role | Px_instance_reg_write u32
  | Px_vround_reg_write "10 word" u16 | Px_round_reg_write "10 word" u16 | Px_value_reg_write "10 word" "u32 list"
  | Px_role_reg_read
  | Px_dmac_add "48 word" "9 word" | Px_sequence_add u16 SequenceTblActionT | Px_acceptor_add u16 AcceptorTblActionT
  | Px_learner_add u16 LearnerTblActionT
  | Px_packet beat | Px_gen_packet beat | Px_pktcap_start u32 | Px_pktgen_start u32 u32
  | Px_ingress_debug | Px_hostchan_debug | Px_txchan_debug | Px_rxchan_debug
  | Px_ingress_perf | Px_parser_perf | Px_pktcap_perf | Px_deparser_perf

text \<open>The packet writer the capture reader calls: the generator's port once \<open>hwpktgen\<close> is set.\<close>

definition paxos_writePacketData :: "bool \<Rightarrow> beat \<Rightarrow> paxos_request" where
  "paxos_writePacketData hwpktgen b = (if hwpktgen then Px_gen_packet b else Px_packet b)"

section \<open>The programs\<close>

record paxos_args =
  px_role :: Role
  acptid :: u16
  inst :: u32
  px_rate :: real
  px_tracelen :: u64

definition paxos_option :: "(string \<Rightarrow> real) \<Rightarrow> char \<times> string \<Rightarrow> string option \<times> paxos_args \<Rightarrow> string option \<times> paxos_args" where
  "paxos_option strtod = (\<lambda>(c, optarg) (pcap_file, info).
     if c = CHR ''h'' then (pcap_file, info)
     else if c = CHR ''p'' then (Some optarg, info)
     else if c = CHR ''A'' then (pcap_file, info\<lparr>px_role := ACCEPTOR\<rparr>)
     else if c = CHR ''C'' then (pcap_file, info\<lparr>px_role := COORDINATOR\<rparr>)
     else if c = CHR ''F'' then (pcap_file, info\<lparr>px_role := FORWARDER\<rparr>)
     else if c = CHR ''a'' then (pcap_file, info\<lparr>acptid := of_int (atoi optarg)\<rparr>)
     else if c = CHR ''i'' then (pcap_file, info\<lparr>inst := of_int (atoi optarg)\<rparr>)
     else if c = CHR ''r'' then (pcap_file, info\<lparr>px_rate := strtod optarg\<rparr>)
     else if c = CHR ''n'' then (pcap_file, info\<lparr>px_tracelen := of_int (strtol optarg)\<rparr>)
     else (pcap_file, info))"

definition paxos_parse_options ::
  "(string \<Rightarrow> real) \<Rightarrow> (char \<times> string) list \<Rightarrow> string option \<times> paxos_args \<Rightarrow> string option \<times> paxos_args" where
  "paxos_parse_options strtod opts args = fold (paxos_option strtod) opts args"

definition no_paxos_args :: paxos_args where
  "no_paxos_args = \<lparr>px_role = ACCEPTOR, acptid = 0, inst = 0, px_rate = 0, px_tracelen = 0\<rparr>"

definition paxos_clear :: "nat \<Rightarrow> paxos_request list" where
  "paxos_clear index =
     [Px_vround_reg_write (of_nat index) 0, Px_round_reg_write (of_nat index) 0, Px_value_reg_write (of_nat index) (replicate 8 0)]"

definition learner_clear :: "nat \<Rightarrow> paxos_request list" where
  "learner_clear index = [Px_round_reg_write (of_nat index) 0, Px_value_reg_write (of_nat index) (replicate 8 0)]"

definition paxos_tables :: "paxos_request list" where
  "paxos_tables =
     [Px_dmac_add 0x80a810270008 1, Px_dmac_add 0x491d035e0001 1, Px_dmac_add 0x471d035e0001 1,
      Px_sequence_add 4 IncreaseInstance, Px_sequence_add 3 IncreaseInstance, Px_sequence_add 2 IncreaseInstance,
      Px_sequence_add 1 IncreaseInstance, Px_sequence_add 0 IncreaseInstance,
      Px_acceptor_add 2 Handle2A, Px_acceptor_add 0 Handle1A]"

definition paxos_reports :: "paxos_request list" where
  "paxos_reports = [Px_ingress_debug, Px_hostchan_debug, Px_txchan_debug, Px_rxchan_debug,
     Px_ingress_perf, Px_parser_perf, Px_pktcap_perf, Px_deparser_perf]"

text \<open>What both programs do after their set-up, and the set-up of each.\<close>

definition paxos_replay ::
  "(real \<Rightarrow> real) \<Rightarrow> (string \<Rightarrow> capture list option) \<Rightarrow> string option \<times> paxos_args \<Rightarrow> paxos_request list \<times> driver_end" where
  "paxos_replay rnd files = (\<lambda>(pcap_file, info).
     let hwpktgen = (px_rate info \<noteq> 0 \<and> px_tracelen info \<noteq> 0)
     in case load_trace files pcap_file of
          None \<Rightarrow> ([], Exits)
        | Some (beats, pcap_info) \<Rightarrow>
            let out = map (paxos_writePacketData hwpktgen) beats
            in if px_rate info \<noteq> 0 \<and> px_tracelen info \<noteq> 0
               then (case compute_idle rnd pcap_info (px_rate info) LINK_SPEED of
                       Inl e \<Rightarrow> (out, idle_end e)
                     | Inr idle \<Rightarrow> (out @ [Px_pktcap_start (ucast (px_tracelen info)),
                         Px_pktgen_start (ucast (px_tracelen info)) (of_int idle)] @ paxos_reports, Returns))
               else (out @ paxos_reports, Returns))"

definition paxos_set_up :: "paxos_args \<Rightarrow> paxos_request list" where
  "paxos_set_up info =
     [Px_set_verbosity 2, Px_read_version,
      Px_datapath_id_reg_write (acptid info), Px_role_reg_write (px_role info), Px_instance_reg_write (inst info)] @
     concat (map paxos_clear [0..<32]) @ [Px_role_reg_read] @ paxos_tables"

definition paxos_main ::
  "(string \<Rightarrow> real) \<Rightarrow> (real \<Rightarrow> real) \<Rightarrow> (string \<Rightarrow> capture list option) \<Rightarrow> (char \<times> string) list \<Rightarrow> paxos_request list \<times> driver_end" where
  "paxos_main strtod rnd files opts =
     (let (pcap_file, info) = paxos_parse_options strtod opts (None, no_paxos_args);
          (reqs, e) = paxos_replay rnd files (pcap_file, info)
      in (paxos_set_up info @ reqs, e))"

definition learner_main ::
  "(string \<Rightarrow> real) \<Rightarrow> (real \<Rightarrow> real) \<Rightarrow> (string \<Rightarrow> capture list option) \<Rightarrow> (char \<times> string) list \<Rightarrow> paxos_request list \<times> driver_end" where
  "learner_main strtod rnd files opts =
     (let (pcap_file, info) = paxos_parse_options strtod opts (None, no_paxos_args);
          (reqs, e) = paxos_replay rnd files (pcap_file, info)
      in ([Px_set_verbosity 2, Px_read_version] @ concat (map learner_clear [0..<32]) @
          [Px_learner_add 3 Handle2B, Px_learner_add 0 Drop1] @ reqs, e))"

section \<open>The card\<close>

text \<open>How the actions are packed: the position in the enumeration.\<close>

fun pack_sequence :: "SequenceTblActionT \<Rightarrow> u8" where
  "pack_sequence Nop = 0"
| "pack_sequence IncreaseInstance = 1"

fun pack_acceptor :: "AcceptorTblActionT \<Rightarrow> u8" where
  "pack_acceptor Handle1A = 0"
| "pack_acceptor Handle2A = 1"
| "pack_acceptor Drop = 2"
| "pack_acceptor Unused = 3"

text \<open>The tables of the simulated design and its registers, one per Paxos instance where there is an array.\<close>

record paxos_card =
  tables :: match_tables
  datapath_id :: u16
  role_reg :: Role
  instance_reg :: u32
  vround_reg :: "10 word \<Rightarrow> u16"
  round_reg :: "10 word \<Rightarrow> u16"
  value_reg :: "10 word \<Rightarrow> u32 list"

fun paxos_card_step :: "paxos_request \<Rightarrow> paxos_card \<Rightarrow> paxos_card" where
  "paxos_card_step (Px_datapath_id_reg_write v) c = c\<lparr>datapath_id := v\<rparr>"
| "paxos_card_step (Px_role_reg_write r) c = c\<lparr>role_reg := r\<rparr>"
| "paxos_card_step (Px_instance_reg_write v) c = c\<lparr>instance_reg := v\<rparr>"
| "paxos_card_step (Px_vround_reg_write i v) c = c\<lparr>vround_reg := (vround_reg c)(i := v)\<rparr>"
| "paxos_card_step (Px_round_reg_write i v) c = c\<lparr>round_reg := (round_reg c)(i := v)\<rparr>"
| "paxos_card_step (Px_value_reg_write i v) c = c\<lparr>value_reg := (value_reg c)(i := v)\<rparr>"
| "paxos_card_step (Px_dmac_add mac port) c = c\<lparr>tables := matchtable_write_dmac (ucast mac) (ucast port) (tables c)\<rparr>"
| "paxos_card_step (Px_sequence_add ty act) c = c\<lparr>tables := matchtable_write_sequence ty (pack_sequence act) (tables c)\<rparr>"
| "paxos_card_step (Px_acceptor_add ty act) c = c\<lparr>tables := matchtable_write_acceptor ty (pack_acceptor act) (tables c)\<rparr>"
| "paxos_card_step _ c = c"

definition paxos_card_run :: "paxos_request list \<Rightarrow> paxos_card \<Rightarrow> paxos_card" where
  "paxos_card_run reqs c = fold paxos_card_step reqs c"

text \<open>A lookup of the simulated table: an answer of zero counts as no entry.\<close>

definition do_read :: "'v::zero \<Rightarrow> 'v option" where
  "do_read ret = (if ret \<noteq> 0 then Some ret else None)"

definition lookup_dmac :: "paxos_card \<Rightarrow> 48 word \<Rightarrow> u16 option" where
  "lookup_dmac c mac = do_read (fst (matchtable_read_dmac (ucast mac) (tables c)))"

definition lookup_sequence :: "paxos_card \<Rightarrow> u16 \<Rightarrow> u8 option" where
  "lookup_sequence c ty = do_read (fst (matchtable_read_sequence ty (tables c)))"

definition lookup_acceptor :: "paxos_card \<Rightarrow> u16 \<Rightarrow> u8 option" where
  "lookup_acceptor c ty = do_read (fst (matchtable_read_acceptor ty (tables c)))"

section \<open>What the set-up leaves\<close>

lemma paxos_card_run_append [simp]: "paxos_card_run (xs @ ys) c = paxos_card_run ys (paxos_card_run xs c)"
  by (simp add: paxos_card_run_def)

lemma paxos_card_run_Nil [simp]: "paxos_card_run [] c = c"
  by (simp add: paxos_card_run_def)

lemma paxos_card_run_Cons [simp]: "paxos_card_run (x # xs) c = paxos_card_run xs (paxos_card_step x c)"
  by (simp add: paxos_card_run_def)

text \<open>Packets, the generator and the reports reach no table and no register.\<close>

lemma paxos_replay_silent [simp]: "paxos_card_run (fst (paxos_replay rnd files args)) c = c"
proof -
  have out: "paxos_card_run (map (paxos_writePacketData hw) beats) c = c" for hw beats
    by (induction beats) (auto simp: paxos_writePacketData_def)
  show ?thesis
    by (simp add: paxos_replay_def out paxos_reports_def Let_def split: prod.splits option.splits sum.splits)
qed

lemma paxos_main_run:
  "paxos_card_run (fst (paxos_main strtod rnd files opts)) c =
     paxos_card_run (paxos_set_up (snd (paxos_parse_options strtod opts (None, no_paxos_args)))) c"
  by (simp add: paxos_main_def case_prod_unfold Let_def)

text \<open>The loop clears the instances below its bound, and nothing else.\<close>

lemma paxos_clear_run:
  "n \<le> 1024 \<Longrightarrow> paxos_card_run (concat (map paxos_clear [0..<n])) c =
     c\<lparr>vround_reg := (\<lambda>i. if unat i < n then 0 else vround_reg c i),
       round_reg := (\<lambda>i. if unat i < n then 0 else round_reg c i),
       value_reg := (\<lambda>i. if unat i < n then replicate 8 0 else value_reg c i)\<rparr>"
proof (induction n)
  case (Suc n)
  have "(i = of_nat n) = (unat i = n)" for i :: "10 word"
    using Suc.prems by (auto simp: word_eq_iff_unsigned unat_of_nat)
  with Suc show ?case by (simp add: paxos_clear_def fun_eq_iff less_Suc_eq)
qed simp

lemma ucast_mac_eq: "(ucast (a :: 48 word) :: u64) = ucast b \<longleftrightarrow> a = b"
proof
  assume "(ucast a :: u64) = ucast b"
  then have "ucast (ucast a :: u64) = (ucast (ucast b :: u64) :: 48 word)" by simp
  then show "a = b" by (simp add: unsigned_ucast_eq) (transfer, simp)
qed simp

lemmas ucast_mac_eqs =
  ucast_mac_eq [of _ "0x80a810270008", simplified] ucast_mac_eq [of _ "0x491d035e0001", simplified]
  ucast_mac_eq [of _ "0x471d035e0001", simplified]

text \<open>The tables after a set-up, as the maps they hold.\<close>

lemma paxos_tables_hold:
  assumes "tables c = empty_tables"
  shows "dmac_table (tables (paxos_card_run (paxos_set_up info) c)) =
      [ucast (0x80a810270008 :: 48 word) \<mapsto> 1, ucast (0x491d035e0001 :: 48 word) \<mapsto> 1, ucast (0x471d035e0001 :: 48 word) \<mapsto> 1]"
    and "sequence_table (tables (paxos_card_run (paxos_set_up info) c)) = [4 \<mapsto> 1, 3 \<mapsto> 1, 2 \<mapsto> 1, 1 \<mapsto> 1, 0 \<mapsto> 1]"
    and "acceptor_table (tables (paxos_card_run (paxos_set_up info) c)) = [2 \<mapsto> 1, 0 \<mapsto> 0]"
  using assms
  by (simp_all add: paxos_set_up_def paxos_clear_run paxos_tables_def dmac.wr_content seqt.wr_content acct.wr_content
      dmac.wr_rest [simplified] seqt.wr_rest [simplified] acct.wr_rest [simplified] empty_tables_def del: upt_rec_numeral)

text \<open>
  C18.  Whatever its options, and however it ends, the Paxos driver leaves the tables of a simulated
  card, empty before, so that a lookup of the address table finds exactly the three known
  destination addresses, with port 1; a lookup of the sequence table finds exactly the
  message types 0 to 4, with the action \<open>IncreaseInstance\<close>; and a lookup of the acceptor's table finds
  type 2 only, with the action \<open>Handle2A\<close>.  The acceptor's entry for type 0, whose action \<open>Handle1A\<close> is packed
  as zero, is in the table but a lookup does not find it, since it counts an answer of zero as no entry.
  (What the pipeline does with the answers is not modelled.)
\<close>

theorem paxos_tables_found:
  "let c' = paxos_card_run (fst (paxos_main strtod rnd files opts)) (c\<lparr>tables := empty_tables\<rparr>) in
   lookup_dmac c' mac = (if mac \<in> {0x80a810270008, 0x491d035e0001, 0x471d035e0001} then Some 1 else None) \<and>
   lookup_sequence c' ty = (if ty \<in> {0, 1, 2, 3, 4} then Some (pack_sequence IncreaseInstance) else None) \<and>
   lookup_acceptor c' ty = (if ty = 2 then Some (pack_acceptor Handle2A) else None) \<and>
   acceptor_table (tables c') 0 = Some (pack_acceptor Handle1A)"
  unfolding Let_def paxos_main_run lookup_dmac_def lookup_sequence_def lookup_acceptor_def dmac.rd_value seqt.rd_value acct.rd_value
  by (simp add: paxos_tables_hold ucast_mac_eqs do_read_def)


text \<open>
  The trace of a driver goes to the generator exactly when a rate and a count are given, and none of it
  to the channel then; the count is cut to 32 bits.
\<close>

lemma paxos_generates:
  assumes "load_trace files (fst args) = Some (beats, pcap_info)" "compute_idle rnd pcap_info (px_rate (snd args)) LINK_SPEED = Inr idle"
    and "px_rate (snd args) \<noteq> 0" "px_tracelen (snd args) \<noteq> 0"
  shows "paxos_replay rnd files args =
    (map Px_gen_packet beats @ [Px_pktcap_start (ucast (px_tracelen (snd args))),
       Px_pktgen_start (ucast (px_tracelen (snd args))) (of_int idle)] @ paxos_reports, Returns)"
  using assms by (simp add: paxos_replay_def case_prod_unfold Let_def paxos_writePacketData_def)

lemma paxos_channel_only:
  assumes "px_rate (snd args) = 0 \<or> px_tracelen (snd args) = 0"
  shows "paxos_replay rnd files args =
    (case load_trace files (fst args) of None \<Rightarrow> ([], Exits)
     | Some (beats, _) \<Rightarrow> (map Px_packet beats @ paxos_reports, Returns))"
  using assms by (auto simp: paxos_replay_def case_prod_unfold Let_def paxos_writePacketData_def split: option.splits)

end
