(* ===== verification/Scheduler_Test.thy ===== *)
theory Scheduler_Test
  imports C_Text
begin

text \<open>
  The programs that start the scheduler designs, \<^verbatim>\<open>src/scheduler/cpp/test_hw.cpp\<close> and \<^verbatim>\<open>test_sim.cpp\<close>, which differ
  in the names of their proxies only, and the debugging program \<^verbatim>\<open>test_sim_1.cpp\<close> with its handlers;
  and the P4 tester \<^verbatim>\<open>src/p4/cpp/test.cpp\<close>.  A program is the list of requests it makes and the way it ends; the
  handlers of the first two print one line each and are not modelled.
\<close>

section \<open>Starting a scheduler\<close>

datatype scheduler_request = Start_scheduler_and_dma u32 u32 u64 | Scheduler_debug | Set_start_time u64 | Get_start_time

datatype scheduler_end = Bad_arguments | Spins

text \<open>\<^verbatim>\<open>atol\<close>: the decimal value cut to the range of \<^verbatim>\<open>long\<close>.\<close>

definition atol :: "string \<Rightarrow> int" where
  "atol s = max (- (2 ^ 63)) (min (2 ^ 63 - 1) (atoi s))"

text \<open>The globals of the programs: server index, rate and number of cycles.\<close>

record scheduler_globals =
  server_index :: u32
  dma_rate :: u32
  cycles :: u64

definition configure_scheduler :: "scheduler_globals \<Rightarrow> scheduler_request list" where
  "configure_scheduler g = [Start_scheduler_and_dma (server_index g) (dma_rate g) (cycles g), Scheduler_debug]"

definition scheduler_hw_main :: "string list \<Rightarrow> scheduler_request list \<times> scheduler_end" where
  "scheduler_hw_main argv =
     (if length argv \<noteq> 4 then ([], Bad_arguments)
      else (configure_scheduler \<lparr>server_index = of_int (atoi (argv ! 1)), dma_rate = of_int (atoi (argv ! 2)), cycles = of_int (atol (argv ! 3))\<rparr>,
            Spins))"

definition scheduler_sim_main :: "string list \<Rightarrow> scheduler_request list \<times> scheduler_end" where
  "scheduler_sim_main argv =
     (if length argv \<noteq> 4 then ([], Bad_arguments)
      else (configure_scheduler \<lparr>server_index = of_int (atoi (argv ! 1)), dma_rate = of_int (atoi (argv ! 2)), cycles = of_int (atol (argv ! 3))\<rparr>,
            Spins))"

text \<open>What is printed for the outcome of an operation; a lookup that fails prints nothing.\<close>

datatype scheduler_ind =
    Set_start_time_result u8 | Get_start_time_result u64 u8 | Set_interval_result u8 | Get_interval_result u64 u8
  | Insert_result u8 | Display_result u32 u64 u8

fun scheduler_message :: "scheduler_ind \<Rightarrow> string" where
  "scheduler_message (Set_start_time_result op_outcome) =
     (if op_outcome = 1 then ''Start time successfully set''
      else ''Error while trying to set the start time. Stop the scheduler if it is currently running.'')"
| "scheduler_message (Get_start_time_result start_time op_outcome) =
     (if op_outcome = 1 then ''start time = '' @ show_nat (unat start_time) else ''Error while trying to get the start time'')"
| "scheduler_message (Set_interval_result op_outcome) =
     (if op_outcome = 1 then ''Slot interval successfully set''
      else ''Error while trying to set the slot interval. Stop the scheduler if it is currently running.'')"
| "scheduler_message (Get_interval_result interval op_outcome) =
     (if op_outcome = 1 then ''slot interval = '' @ show_nat (unat interval) else ''Error while trying to get the slot interval'')"
| "scheduler_message (Insert_result op_outcome) =
     (if op_outcome = 1 then ''Insert successful''
      else ''Error while trying to insert into the table. Stop the scheduler if it is currently running.'')"
| "scheduler_message (Display_result server_ip server_mac op_outcome) =
     (if op_outcome = 1 then ''IP = '' @ show_nat (unat server_ip) @ ''  MAC = '' @ show_nat (unat server_mac) else [])"

definition test_scheduler :: "scheduler_request list" where
  "test_scheduler = [Set_start_time 2000, Get_start_time]"

definition scheduler_debug_main :: "scheduler_request list \<times> scheduler_end" where
  "scheduler_debug_main = (test_scheduler, Spins)"

section \<open>The P4 tester\<close>

datatype p4_request = P4_read_version | P4_write_buffer u16 u64 | P4_read_buffer u16
  | P4_write_setram u32 u64 | P4_read_setram u32 | P4_cam_insert u32 u64 | P4_cam_search u64 | P4_match u64 u32 u32

definition test_setram :: "p4_request list" where
  "test_setram = [P4_write_setram 0x11 0xff, P4_read_setram 0x11]"

definition test_bcam :: "p4_request list" where
  "test_bcam = [P4_cam_insert 0 0, P4_cam_insert 1 1, P4_cam_insert 2 2, P4_cam_insert 3 3,
     P4_cam_search 0, P4_cam_search 1, P4_cam_search 2, P4_cam_search 3]"

definition test_mtable :: "p4_request list" where
  "test_mtable = [P4_match 10 15 1, P4_match 10 0 0]"

text \<open>
  The options a run takes note of.  A capture file is named for three of them and never opened, the
  call that would read it being commented out.
\<close>

record p4_args =
  run_basic :: bool
  load_pcap :: bool
  shared_buff_test :: bool
  parser_test :: bool
  match_table_test :: bool
  full_test :: bool
  p4_pcap_file :: string

fun p4_option :: "char \<times> string \<Rightarrow> p4_args \<Rightarrow> p4_args" where
  "p4_option (c, optarg) a =
     (if c = CHR ''b'' then a\<lparr>shared_buff_test := True\<rparr>
      else if c = CHR ''h'' then a\<lparr>run_basic := False\<rparr>
      else if c = CHR ''p'' then a\<lparr>load_pcap := True, parser_test := True, p4_pcap_file := optarg\<rparr>
      else if c = CHR ''m'' then a\<lparr>load_pcap := True, match_table_test := True, p4_pcap_file := optarg\<rparr>
      else if c = CHR ''f'' then a\<lparr>load_pcap := True, full_test := True, p4_pcap_file := optarg\<rparr>
      else a\<lparr>run_basic := False\<rparr>)"

definition no_p4_args :: p4_args where
  "no_p4_args = \<lparr>run_basic = True, load_pcap = False, shared_buff_test = False, parser_test = False, match_table_test = False,
     full_test = False, p4_pcap_file = []\<rparr>"

definition p4_main :: "(char \<times> string) list \<Rightarrow> p4_request list" where
  "p4_main opts =
     (let a = fold p4_option opts no_p4_args
      in (if run_basic a then [P4_read_version] else []) @
         (if shared_buff_test a then [P4_write_buffer 0 0xFACEBABE, P4_read_buffer 0] else []))"

section \<open>What they send\<close>

lemma atoi_show_nat: "atoi (show_nat n) = int n"
proof (cases "show_nat n")
  case (Cons c cs)
  have "digit_val c < 10" using show_nat_digits [of c n] Cons by simp
  then have "c \<noteq> CHR ''-''" "c \<noteq> CHR ''+''" by (auto simp: digit_val_def)
  with Cons dropWhile_show_nat [of n "[]"] scan_show_nat [of "[]" n] show ?thesis by (simp add: atoi_def)
qed simp

text \<open>
   Given the decimal digits of a server and a rate in the range of \<^verbatim>\<open>int\<close> and of a number of cycles in the range
  of \<^verbatim>\<open>long\<close>, both programs start the scheduler with exactly these numbers; a negative server is sent as
  its two's complement.  With any other number of arguments nothing is sent.
\<close>

theorem scheduler_arguments:
  assumes "i < 2 ^ 31" "r < 2 ^ 31" "c < 2 ^ 63"
  shows "scheduler_hw_main [prog, show_nat i, show_nat r, show_nat c] =
     ([Start_scheduler_and_dma (of_nat i) (of_nat r) (of_nat c), Scheduler_debug], Spins) \<and>
   scheduler_hw_main [prog, CHR ''-'' # show_nat i, show_nat r, show_nat c] =
     ([Start_scheduler_and_dma (- of_nat i) (of_nat r) (of_nat c), Scheduler_debug], Spins) \<and>
   scheduler_sim_main argv = scheduler_hw_main argv \<and>
   (snd (scheduler_hw_main argv) = Bad_arguments) = (length argv \<noteq> 4) \<and>
   (fst (scheduler_hw_main argv) = []) = (length argv \<noteq> 4)"
proof -
  have neg: "atoi (CHR ''-'' # show_nat i) = - int i"
    using scan_show_nat [of "[]" i] by (simp add: atoi_def is_space_def)
  have "atol (show_nat c) = int c" using assms(3) by (simp add: atol_def atoi_show_nat)
  then show ?thesis
    by (auto simp: scheduler_hw_main_def scheduler_sim_main_def configure_scheduler_def atoi_show_nat neg)
qed

theorem scheduler_arguments_witness:
  "scheduler_hw_main [''test'', ''2'', ''10'', ''1000''] = ([Start_scheduler_and_dma 2 10 1000, Scheduler_debug], Spins)"
proof -
  have "show_nat 2 = ''2''" "show_nat 10 = ''10''" "show_nat 1000 = ''1000''" by code_simp+
  then show ?thesis using scheduler_arguments [of 2 10 1000 "''test''" "[]"] by simp
qed

text \<open>
  The tester reads the version unless an unknown option or \<^verbatim>\<open>-h\<close> is given, exercises the packet buffer when asked, and
  does nothing else: the three options that name a capture file change no request.
\<close>

lemma p4_main_requests:
  "p4_main opts = (if \<forall>(c, a) \<in> set opts. c \<in> set ''bpmf'' then [P4_read_version] else []) @
     (if CHR ''b'' \<in> fst ` set opts then [P4_write_buffer 0 0xFACEBABE, P4_read_buffer 0] else [])"
proof -
  have "run_basic (fold p4_option opts a) = (run_basic a \<and> (\<forall>(c, x) \<in> set opts. c \<in> set ''bpmf''))" for a
    by (induction opts arbitrary: a) (auto split: if_splits)
  moreover have "shared_buff_test (fold p4_option opts a) = (shared_buff_test a \<or> CHR ''b'' \<in> fst ` set opts)" for a
    by (induction opts arbitrary: a) (auto split: if_splits)
  ultimately show ?thesis by (simp add: p4_main_def no_p4_args_def Let_def)
qed

end
