(* ===== verification/Sonic_Tests.thy ===== *)
theory Sonic_Tests
  imports Lpcap
begin

text \<open>
  The test programs of the SoNIC card: the memory-read self test \<^verbatim>\<open>src/sw/test-sonic.cpp\<close>, the
  packet tests \<^verbatim>\<open>src/sonic/t/test-transmit-single-packet.cpp\<close>, \<^verbatim>\<open>test-tins-packet.cpp\<close> and
  \<^verbatim>\<open>test-receive-single-packet.cpp\<close>, and \<^verbatim>\<open>src/sw/testdelay.cpp\<close>.  Each starts the device and waits on a
  semaphore that an indication handler posts.  What the device does is an argument: the
  indications it sends and, for a write, the contents of the buffer.  The library Tins, which
  builds and parses packets, is an argument too.  Messages are not modelled.
\<close>

section \<open>Indications and the semaphore\<close>

datatype sonic_ind =
    Version_ind u32 | Read_done u32 | Write_done u32 | Started u32 | State_dbg u32 u32 | Tx_cred u32 | Rx_cred u32

record test_state =
  mismatchCount :: u32
  test_sem :: nat

definition test_start :: test_state where
  "test_start = \<lparr>mismatchCount = 0, test_sem = 0\<rparr>"

definition sem_post :: "test_state \<Rightarrow> test_state" where
  "sem_post s = s\<lparr>test_sem := Suc (test_sem s)\<rparr>"

fun sonic_user_indication :: "sonic_ind \<Rightarrow> test_state \<Rightarrow> test_state" where
  "sonic_user_indication (Read_done a) s = sem_post (s\<lparr>mismatchCount := mismatchCount s + a\<rparr>)"
| "sonic_user_indication (Write_done srcGen) s = sem_post s"
| "sonic_user_indication _ s = s"

fun transmit_indication :: "sonic_ind \<Rightarrow> test_state \<Rightarrow> test_state" where
  "transmit_indication (Read_done a) s = sem_post (s\<lparr>mismatchCount := mismatchCount s + a\<rparr>)"
| "transmit_indication (Write_done srcGen) s = sem_post s"
| "transmit_indication _ s = s"


fun receive_indication :: "sonic_ind \<Rightarrow> test_state \<Rightarrow> test_state" where
  "receive_indication (Read_done a) s = sem_post (s\<lparr>mismatchCount := mismatchCount s + a\<rparr>)"
| "receive_indication (Write_done srcGen) s = sem_post s"
| "receive_indication _ s = s"

text \<open>
  \<^verbatim>\<open>sem_wait\<close> while the indications \<open>inds\<close> arrive: the state after it and those still to come, \<open>None\<close>
  when the semaphore is never posted.
\<close>

fun sem_wait :: "(sonic_ind \<Rightarrow> test_state \<Rightarrow> test_state) \<Rightarrow> sonic_ind list \<Rightarrow> test_state \<Rightarrow> (sonic_ind list \<times> test_state) option" where
  "sem_wait handler inds s =
     (if test_sem s > 0 then Some (inds, s\<lparr>test_sem := test_sem s - 1\<rparr>)
      else case inds of [] \<Rightarrow> None | i # rest \<Rightarrow> sem_wait handler rest (handler i s))"

declare sem_wait.simps [simp del]

section \<open>Requests\<close>

text \<open>
  The requests the programs make, with the arguments they pass: a beat of a packet; a read of the
  self test (reference, length, burst length, passes); a read and a write of the packet tests
  (reference, offset, length, burst length); and the write with a number of passes in addition.
\<close>

datatype sonic_request =
    Packet_beat beat | Tins_beat u64 u64 bool bool | Start_read_iter u32 u32 u32 u32
  | Start_read u32 u32 u32 u32 | Start_write u32 u32 u32 u32 | Start_write_iter u32 u32 u32 u32 u32

section \<open>The self test\<close>

definition numWords :: nat where "numWords = 0x1240000 div 4"

definition iterCnt :: nat where "iterCnt = 64"

definition burstLen :: nat where "burstLen = 32"

text \<open>The buffer is a function from word index to word; the loop stores each index at its place.\<close>

definition fill_indices :: "nat \<Rightarrow> (nat \<Rightarrow> u32) \<Rightarrow> nat \<Rightarrow> u32" where
  "fill_indices n = fold (\<lambda>i buf. buf(i := of_nat i)) [0..<n]"

definition spoil :: "nat \<Rightarrow> (nat \<Rightarrow> u32) \<Rightarrow> nat \<Rightarrow> u32" where
  "spoil n buf = buf(0 := - 1, n div 2 := - 1, n - 1 := - 1)"

text \<open>
  The program: \<open>dev k req buf\<close> are the indications that follow the \<open>k\<close>-th request, a \<^verbatim>\<open>startRead\<close> of the
  buffer \<open>buf\<close>; the result is the exit status, \<open>None\<close> when the program waits forever.
\<close>

definition sonic_main :: "(nat \<Rightarrow> sonic_request \<Rightarrow> (nat \<Rightarrow> u32) \<Rightarrow> sonic_ind list) \<Rightarrow> u32 \<Rightarrow> (nat \<Rightarrow> u32) \<Rightarrow> int option" where
  "sonic_main dev ref_srcAlloc mem =
     (let srcBuffer = fill_indices numWords mem;
          startRead = Start_read_iter ref_srcAlloc (of_nat (numWords * 4)) (of_nat (burstLen * 4)) (of_nat iterCnt)
      in Option.bind (sem_wait sonic_user_indication (dev 0 startRead srcBuffer) test_start) (\<lambda>(rest, s).
         let test_result = (if mismatchCount s \<noteq> 0 then 1 else 0);
             srcBuffer = spoil numWords srcBuffer;
             s = s\<lparr>mismatchCount := 0\<rparr>
         in Option.bind (sem_wait sonic_user_indication (rest @ dev 1 startRead srcBuffer) s) (\<lambda>(rest, s).
            Some (if mismatchCount s \<noteq> of_nat (3 * iterCnt) then test_result + 1 else test_result))))"

section \<open>The packet tests\<close>

text \<open>The number of 16-byte beats of a packet.\<close>

definition beats16 :: "nat \<Rightarrow> nat" where
  "beats16 packet_size = packet_size div 16 + (if packet_size mod 16 \<noteq> 0 then 1 else 0)"

definition packet_words :: nat where "packet_words = 0x4000 div 4"

datatype test_end = Exit int | Passed string | Assertion_failed | Malformed_packet | Buffer_overrun | Waits_forever

text \<open>What the programs use of a packet built or parsed by Tins.\<close>

record ethernet =
  eth_dst :: string
  eth_src :: string
  ip_dst :: string
  ip_src :: string
  tcp_dport :: u16
  tcp_sport :: u16
  tcp_payload :: string

definition the_packet :: ethernet where
  "the_packet = \<lparr>eth_dst = ''11:22:33:44:55:66'', eth_src = ''77:22:33:11:ad:ad'', ip_dst = ''192.168.0.1'',
     ip_src = ''192.168.2.1'', tcp_dport = 13, tcp_sport = 15,
     tcp_payload = [CHR ''I'', CHR 0x27] @ ''m a payload! Test sending one packet.''\<rparr>"

text \<open>
  \<^verbatim>\<open>test-transmit-single-packet\<close>: the packet is copied word by word into the buffer the device will
  read.
\<close>

definition transmit_copy :: "(nat \<Rightarrow> u8) \<Rightarrow> nat \<Rightarrow> (nat \<Rightarrow> u32) \<Rightarrow> nat \<Rightarrow> u32" where
  "transmit_copy buff numBeats = fold (\<lambda>i buf. buf(i := load32 buff (4 * i))) [0..<numBeats * 4]"

text \<open>
  \<open>dev req buf\<close> are the indications that follow the request on the buffer; \<open>sem_fails\<close> says that
  \<^verbatim>\<open>sem_init\<close> does, and \<open>junk\<close> is the memory behind the packet.
\<close>

definition transmit_main ::
  "bool \<Rightarrow> (ethernet \<Rightarrow> u8 list) \<Rightarrow> (sonic_request \<Rightarrow> (nat \<Rightarrow> u32) \<Rightarrow> sonic_ind list) \<Rightarrow> (nat \<Rightarrow> u8) \<Rightarrow> u32 \<Rightarrow> (nat \<Rightarrow> u32) \<Rightarrow> test_end" where
  "transmit_main sem_fails serialize dev junk ref_srcAlloc srcBuffer =
     (if sem_fails then Exit 1
      else let buff = serialize the_packet;
               numBeats = beats16 (length buff)
           in if numBeats * 4 > packet_words then Buffer_overrun
              else let srcBuffer = transmit_copy (in_memory buff junk) numBeats srcBuffer;
                       inds = dev (Start_read ref_srcAlloc 0 (of_nat (numBeats * 16)) (8 * 4)) srcBuffer
                   in case sem_wait transmit_indication inds test_start of None \<Rightarrow> Waits_forever | Some _ \<Rightarrow> Exit 0)"





text \<open>
  \<^verbatim>\<open>test-receive-single-packet\<close> up to its wait: the capture file named last is replayed, the buffer is
  marked and the device is told to write.  \<open>None\<close> is the exit when the semaphore cannot be made or the
  file cannot be opened.  The loop behind the wait prints the buffer.
\<close>

fun receive_options :: "(char \<times> string) list \<Rightarrow> string option \<Rightarrow> string option" where
  "receive_options [] pcap_file = pcap_file"
| "receive_options ((c, optarg) # xs) pcap_file =
     receive_options xs (if c = CHR ''p'' then Some optarg else pcap_file)"

definition receive_main ::
  "bool \<Rightarrow> (string \<Rightarrow> capture list option) \<Rightarrow> (char \<times> string) list \<Rightarrow> u32 \<Rightarrow> (nat \<Rightarrow> u32) \<Rightarrow> ((nat \<Rightarrow> u32) \<times> sonic_request list) option" where
  "receive_main sem_fails files opts ref_dstAlloc dstBuffer = (if sem_fails then None else
     Option.bind
       (case receive_options opts None of
          None \<Rightarrow> Some []
        | Some f \<Rightarrow> map_option fst (load_pcap_file (files f) \<lparr>packet_count = 0, byte_count = 0\<rparr>))
       (\<lambda>beats. Some (fold (\<lambda>i buf. buf(i := 0xDEADBEEF)) [0..<packet_words] dstBuffer,
          map Packet_beat beats @ [Start_write ref_dstAlloc 0x10 (of_nat (packet_words * 4)) (8 * 4)])))"

section \<open>The delay test\<close>

text \<open>\<^verbatim>\<open>testdelay.cpp\<close>: the handlers count the answers, and the program exits at the first.\<close>

datatype delay_ind = Timestamp_resp u64 | Log_read_resp u8 u64 u64 | Debug_probe u8 u64 u64

definition NUMBER_OF_TESTS :: u32 where "NUMBER_OF_TESTS = 1"

text \<open>\<open>None\<close> is the call of \<^verbatim>\<open>exit(0)\<close>.\<close>

definition incr_cnt :: "u32 \<Rightarrow> u32 option" where
  "incr_cnt cnt = (if cnt + 1 = NUMBER_OF_TESTS then None else Some (cnt + 1))"

fun delay_indication :: "delay_ind \<Rightarrow> u32 \<Rightarrow> u32 option" where
  "delay_indication (Timestamp_resp a) cnt = incr_cnt cnt"
| "delay_indication (Log_read_resp a b c) cnt = incr_cnt cnt"
| "delay_indication (Debug_probe a b c) cnt = Some cnt"

text \<open>The program while indications arrive: the count while it runs, \<open>None\<close> once it has exited.\<close>

fun delay_main :: "delay_ind list \<Rightarrow> u32 \<Rightarrow> u32 option" where
  "delay_main [] cnt = Some cnt"
| "delay_main (i # inds) cnt = Option.bind (delay_indication i cnt) (delay_main inds)"

section \<open>Facts\<close>

lemma delay_main_exits: "delay_main inds 0 = None \<longleftrightarrow> (\<exists>i \<in> set inds. \<nexists>a b c. i = Debug_probe a b c)"
proof (induction inds)
  case (Cons i inds)
  then show ?case by (cases i) (auto simp: incr_cnt_def NUMBER_OF_TESTS_def)
qed simp

text \<open>Indications that neither post the semaphore nor count.\<close>

fun chatter :: "sonic_ind \<Rightarrow> bool" where
  "chatter (Read_done a) = False" | "chatter (Write_done a) = False" | "chatter _ = True"

text \<open>
  What the programs rely on of their handlers: chatter changes nothing, the two completions post
  the semaphore, and a finished read adds its count.
\<close>

locale posting_handler =
  fixes handler :: "sonic_ind \<Rightarrow> test_state \<Rightarrow> test_state"
  assumes chatter_ignored: "chatter i \<Longrightarrow> handler i s = s"
    and read_posts: "handler (Read_done a) s = sem_post (s\<lparr>mismatchCount := mismatchCount s + a\<rparr>)"
    and write_posts: "handler (Write_done g) s = sem_post s"
begin

lemma wait_skips_chatter:
  "list_all chatter pre \<Longrightarrow> test_sem s = 0 \<Longrightarrow> sem_wait handler (pre @ inds) s = sem_wait handler inds s"
  by (induction pre) (simp_all add: sem_wait.simps [of _ "_ # _"] chatter_ignored)

lemma wait_forever: "list_all chatter inds \<Longrightarrow> test_sem s = 0 \<Longrightarrow> sem_wait handler inds s = None"
  using wait_skips_chatter [of inds s "[]"] by (simp add: sem_wait.simps)

lemma wait_posted: "handler i s = sem_post s' \<Longrightarrow> test_sem s = 0 \<Longrightarrow> test_sem s' = 0 \<Longrightarrow> sem_wait handler (i # rest) s = Some (rest, s')"
  by (subst sem_wait.simps, simp, subst sem_wait.simps) (simp add: sem_post_def)

lemma not_chatter: "\<not> chatter i \<longleftrightarrow> (\<exists>a. i = Read_done a) \<or> (\<exists>g. i = Write_done g)"
  by (cases i) auto

text \<open>The wait ends exactly when a completion is among the indications.\<close>

lemma wait_None_iff: "test_sem s = 0 \<Longrightarrow> sem_wait handler inds s = None \<longleftrightarrow> list_all chatter inds"
proof (induction inds)
  case (Cons i inds)
  show ?case
  proof (cases "chatter i")
    case True
    with Cons show ?thesis by (simp add: sem_wait.simps [of _ "_ # _"] chatter_ignored)
  next
    case False
    then obtain s' where s': "handler i s = sem_post s'" using read_posts write_posts by (auto simp: not_chatter)
    have "test_sem (sem_post s') > 0" by (simp add: sem_post_def)
    with Cons.prems s' False show ?thesis
      by (simp add: sem_wait.simps [of _ "_ # _"] sem_wait.simps [of _ _ "sem_post s'"])
  qed
qed (simp add: sem_wait.simps)

lemma wait_read:
  assumes "list_all chatter pre" "test_sem s = 0"
  shows "sem_wait handler (pre @ Read_done a # rest) s = Some (rest, s\<lparr>mismatchCount := mismatchCount s + a\<rparr>)"
  unfolding wait_skips_chatter [OF assms] by (rule wait_posted) (simp_all add: read_posts assms(2))

lemma wait_write:
  assumes "list_all chatter pre" "test_sem s = 0"
  shows "sem_wait handler (pre @ Write_done g # rest) s = Some (rest, s)"
  unfolding wait_skips_chatter [OF assms] by (rule wait_posted) (simp_all add: write_posts assms(2))

end

lemma chatter_cases: "chatter i \<Longrightarrow> (\<exists>a. i = Version_ind a \<or> i = Started a \<or> i = Tx_cred a \<or> i = Rx_cred a) \<or> (\<exists>a b. i = State_dbg a b)"
  by (cases i) auto

interpretation self_test: posting_handler sonic_user_indication
  by unfold_locales (auto dest: chatter_cases)

interpretation transmit_test: posting_handler transmit_indication
  by unfold_locales (auto dest: chatter_cases)


interpretation receive_test: posting_handler receive_indication
  by unfold_locales (auto dest: chatter_cases)

lemma fold_assign_fun:
  "fold (\<lambda>i f. f(i := g i)) [0..<n] f = (\<lambda>i. if i < n then g i else f i)"
  by (induction n) (auto simp: fun_eq_iff less_Suc_eq)

lemma of_nat_ne_minus_one: "i < numWords \<Longrightarrow> (of_nat i :: u32) \<noteq> - 1"
proof
  assume i: "i < numWords" and "(of_nat i :: u32) = - 1"
  then have "unat (of_nat i :: u32) = unat (- 1 :: u32)" by simp
  with i show False by (simp add: numWords_def unsigned_of_nat take_bit_nat_eq_self unsigned_minus_1_eq_mask mask_eq_exp_minus_1)
qed

text \<open>The words of a buffer that differ from their index.\<close>

definition mismatches :: "(nat \<Rightarrow> u32) \<Rightarrow> nat" where
  "mismatches buf = card {i. i < numWords \<and> buf i \<noteq> of_nat i}"

lemma mismatches_filled: "mismatches (fill_indices numWords mem) = 0"
  by (simp add: mismatches_def fill_indices_def fold_assign_fun)

lemma mismatches_spoiled: "mismatches (spoil numWords (fill_indices numWords mem)) = 3"
proof -
  have "{i. i < numWords \<and> spoil numWords (fill_indices numWords mem) i \<noteq> of_nat i} = {0, numWords div 2, numWords - 1}"
    using of_nat_ne_minus_one
    by (auto simp: spoil_def fill_indices_def fold_assign_fun numWords_def dest: not_sym split: if_splits)
  then show ?thesis by (simp add: mismatches_def numWords_def)
qed

abbreviation self_read :: "u32 \<Rightarrow> sonic_request" where
  "self_read r \<equiv> Start_read_iter r 0x1240000 128 64"

lemma sonic_main_answers:
  assumes "\<And>k buf. dev k (self_read r) buf = pre k @ [Read_done (ans k buf)]" "\<And>k. list_all chatter (pre k)"
  shows "sonic_main dev r mem =
    Some ((if ans 0 (fill_indices numWords mem) \<noteq> 0 then 1 else 0) +
          (if ans 1 (spoil numWords (fill_indices numWords mem)) \<noteq> 192 then 1 else 0))"
proof -
  have req: "Start_read_iter r (of_nat (numWords * 4)) (of_nat (burstLen * 4)) (of_nat iterCnt) = self_read r"
    by (simp add: numWords_def burstLen_def iterCnt_def)
  show ?thesis
    using self_test.wait_read [OF assms(2), of test_start 0 _ "[]"]
      self_test.wait_read [OF assms(2), of "\<lparr>mismatchCount = 0, test_sem = 0\<rparr>" 1 _ "[]"]
    unfolding sonic_main_def req by (simp add: assms(1) test_start_def iterCnt_def Let_def)
qed

subsection \<open>The receive test\<close>

text \<open>
  The beats of the receive test carry the packets of its capture file; the buffer is marked all
  over; and the request it makes reaches sixteen bytes past the buffer it marks.
\<close>

lemma receive_main_replays:
  assumes "receive_options opts None = Some f" "files f = Some ps"
  shows "\<exists>beats buf off len.
    receive_main False files opts ref dstBuffer = Some (buf, map Packet_beat beats @ [Start_write ref off len 32]) \<and>
    frames beats [] = map (\<lambda>p. map (cap_data p) [0..<caplen p]) (filter (\<lambda>p. caplen p > 0) ps) \<and>
    (\<forall>i < packet_words. buf i = 0xDEADBEEF) \<and> unat off + unat len = packet_words * 4 + 16"
proof -
  obtain beats pi where l: "pcap_loop ps \<lparr>packet_count = 0, byte_count = 0\<rparr> = (beats, pi)" by force
  have "frames beats [] = map (\<lambda>p. map (cap_data p) [0..<caplen p]) (filter (\<lambda>p. caplen p > 0) ps)"
    using frames_pcap_loop [of ps] pcap_loop_beats [of ps "\<lparr>packet_count = 0, byte_count = 0\<rparr>"] l by simp
  with l show ?thesis
    by (intro exI [of _ beats] exI [of _ "\<lambda>i. if i < packet_words then 0xDEADBEEF else dstBuffer i"] exI [of _ "0x10"] exI [of _ "0x4000"])
      (simp add: receive_main_def assms load_pcap_file_def fold_assign_fun packet_words_def)
qed

subsection \<open>Beats of sixteen bytes\<close>

lemma beats16_covers: "n \<le> 16 * beats16 n" "16 * beats16 n < n + 16"
  unfolding beats16_def by presburger+

lemma bit_load32:
  assumes "k < 4" "n < 8"
  shows "bit (load32 mem a) (8 * k + n) = bit (mem (a + k)) n"
proof -
  have "\<not> bit b (8 + m)" "\<not> bit b (16 + m)" "\<not> bit b (24 + m)" for b :: u8 and m
    by (auto dest: bit_imp_le_length)
  moreover from assms have "k = 0 \<or> k = 1 \<or> k = 2 \<or> k = 3" by linarith
  ultimately show ?thesis using assms(2) unfolding load32_def
    by (elim disjE) (simp_all add: bit_simps)
qed

lemma le32_load32: "le32 (load32 mem a) = map mem [a..<a + 4]"
proof (rule nth_equalityI)
  fix k assume "k < length (le32 (load32 mem a))"
  then have k: "k < 4" by (simp add: length_le32)
  then have "ucast (drop_bit (8 * k) (load32 mem a)) = mem (a + k)"
    using bit_load32 [of k _ mem a] by (intro bit_word_eqI) (simp add: bit_simps add.commute)
  moreover from k have "k = 0 \<or> k = 1 \<or> k = 2 \<or> k = 3" by linarith
  ultimately show "le32 (load32 mem a) ! k = map mem [a..<a + 4] ! k" by (auto simp: le32_def)
qed (simp add: length_le32)

text \<open>The bytes of the first \<open>n\<close> words of a buffer.\<close>

definition buffer_bytes :: "(nat \<Rightarrow> u32) \<Rightarrow> nat \<Rightarrow> u8 list" where
  "buffer_bytes buf n = concat (map (\<lambda>i. le32 (buf i)) [0..<n])"

lemma concat_chunks: "concat (map (\<lambda>i. map f [c * i..<c * i + c]) [0..<n]) = map f [0..<c * n]"
proof (induction n)
  case (Suc n)
  have "[0..<c * Suc n] = [0..<c * n] @ [c * n..<c * n + c]"
    using upt_split [of 0 "c * n" "c * n + c"] by (simp add: add.commute)
  with Suc show ?case by simp
qed simp

lemma transmit_copy_bytes: "buffer_bytes (transmit_copy buff nb buf) (nb * 4) = map buff [0..<16 * nb]"
proof -
  have "buffer_bytes (transmit_copy buff nb buf) (nb * 4) = concat (map (\<lambda>i. map buff [4 * i..<4 * i + 4]) [0..<nb * 4])"
    unfolding buffer_bytes_def transmit_copy_def
    by (intro arg_cong [where f = concat] map_cong) (simp_all add: fold_assign_fun le32_load32)
  then show ?thesis by (simp add: concat_chunks)
qed

lemma map_in_memory: "n \<le> length bytes \<Longrightarrow> map (in_memory bytes junk) [0..<n] = take n bytes"
  by (rule nth_equalityI) (simp_all add: in_memory_def)








section \<open>What the tests show\<close>

text \<open>
  C34. The self test makes two reads of its buffer of 0x1240000 bytes, each in bursts of 128 bytes
  and in 64 passes: when the device answers each with one \<^verbatim>\<open>readDone\<close> that carries a count,
  the program ends, and its status is zero exactly when the counts are those of a device that
  compares every word with its index in each of the 64 passes.  A device that answers nothing that
  counts leaves the program waiting.
\<close>
theorem self_test_verdict:
  assumes "\<And>k buf. dev k (Start_read_iter ref 0x1240000 128 64) buf = pre k @ [Read_done (ans k buf)]"
    and "\<And>k. list_all chatter (pre k)"
  shows "let ok = fill_indices numWords mem; bad = spoil numWords ok
    in sonic_main dev ref mem = Some ((if ans 0 ok \<noteq> 0 then 1 else 0) + (if ans 1 bad \<noteq> 192 then 1 else 0)) \<and>
       (sonic_main dev ref mem = Some 0 \<longleftrightarrow>
          ans 0 ok = of_nat (iterCnt * mismatches ok) \<and> ans 1 bad = of_nat (iterCnt * mismatches bad)) \<and>
       sonic_main (\<lambda>k req buf. pre k) ref mem = None"
proof -
  have "sonic_main (\<lambda>k req buf. pre k) ref mem = None"
    using self_test.wait_forever [OF assms(2), of test_start 0] by (simp add: sonic_main_def test_start_def)
  then show ?thesis
    using sonic_main_answers [of dev ref pre ans mem, OF assms]
    by (simp add: Let_def mismatches_filled mismatches_spoiled iterCnt_def)
qed

theorem self_test_verdict_witness:
  "sonic_main (\<lambda>k req buf. [Version_ind 1] @ [Read_done (of_nat (iterCnt * mismatches buf))]) 5 (\<lambda>i. 7) = Some 0"
  using self_test_verdict [of "\<lambda>k req buf. [Version_ind 1] @ [Read_done (of_nat (iterCnt * mismatches buf))]" 5 "\<lambda>k. [Version_ind 1]"
      "\<lambda>k buf. of_nat (iterCnt * mismatches buf)" "\<lambda>i. 7"]
  by (simp add: Let_def mismatches_filled mismatches_spoiled iterCnt_def)

lemma beats16_fits: "n \<le> 16 * m \<longleftrightarrow> beats16 n \<le> m"
  using beats16_covers [of n] by linarith

text \<open>
  C31. The transmit test, once its semaphore is made, hands the device the whole packet: for a packet that fits the buffer of
  16384 bytes, the one request starts at offset 0 and stays inside the buffer, the bytes it covers
  begin with the packet and fewer than sixteen bytes follow it; and the program returns zero when
  a \<^verbatim>\<open>readDone\<close> or a \<^verbatim>\<open>writeDone\<close> is among the indications that follow, and otherwise waits forever.
\<close>
theorem transmit_covers_packet:
  fixes serialize :: "ethernet \<Rightarrow> u8 list"
  assumes "length (serialize the_packet) \<le> 0x4000"
  shows "\<exists>len buf.
    (\<forall>dev. transmit_main False serialize dev junk ref srcBuffer =
       (if list_all chatter (dev (Start_read ref 0 (of_nat len) 32) buf) then Waits_forever else Exit 0)) \<and>
    take (length (serialize the_packet)) (buffer_bytes buf (len div 4)) = serialize the_packet \<and>
    length (serialize the_packet) \<le> len \<and> len < length (serialize the_packet) + 16 \<and> len \<le> 0x4000"
proof -
  let ?p = "serialize the_packet"
  let ?nb = "beats16 (length ?p)"
  let ?buf = "transmit_copy (in_memory ?p junk) ?nb srcBuffer"
  have fits: "?nb \<le> 1024" using assms beats16_fits [of "length ?p" 1024] by simp
  have "take (length ?p) (buffer_bytes ?buf (4 * ?nb)) = ?p"
    using beats16_covers(1) [of "length ?p"] transmit_copy_bytes [of "in_memory ?p junk" ?nb srcBuffer]
    by (simp add: take_map map_in_memory mult.commute [of 4])
  moreover have "transmit_main False serialize dev junk ref srcBuffer =
      (if list_all chatter (dev (Start_read ref 0 (of_nat (16 * ?nb)) 32) ?buf) then Waits_forever else Exit 0)" for dev
    using fits transmit_test.wait_None_iff [of test_start "dev (Start_read ref 0 (of_nat (16 * ?nb)) 32) ?buf"]
    by (auto simp: transmit_main_def packet_words_def test_start_def mult.commute split: option.split)
  ultimately show ?thesis
    using fits beats16_covers [of "length ?p"] by (intro exI [of _ "16 * ?nb"] exI [of _ ?buf]) simp
qed

theorem transmit_covers_packet_witness:
  "transmit_main False (\<lambda>e. replicate 20 7) (\<lambda>req buf. [Version_ind 1, Read_done 0]) (\<lambda>a. 0) 3 (\<lambda>i. 0) = Exit 0 \<and>
   transmit_main False (\<lambda>e. replicate 20 7) (\<lambda>req buf. [Version_ind 1]) (\<lambda>a. 0) 3 (\<lambda>i. 0) = Waits_forever"
proof -
  obtain len buf where "\<forall>dev. transmit_main False (\<lambda>e. replicate 20 7) dev (\<lambda>a. 0) 3 (\<lambda>i. 0) =
      (if list_all chatter (dev (Start_read 3 0 (of_nat len) 32) buf) then Waits_forever else Exit 0)"
    using transmit_covers_packet [of "\<lambda>e. replicate 20 7" "\<lambda>a. 0" 3 "\<lambda>i. 0"] by auto
  then show ?thesis by simp
qed







end
