(* ===== verification/Dmac_First.thy ===== *)
theory Dmac_First
  imports Sonic_Prelude
begin

text \<open>
  The first version of the DMA library, \<^verbatim>\<open>src/dmac/cpp/dmac.h\<close> and \<^verbatim>\<open>src/dmac/cpp/dmac.cpp\<close>: buffers
  that are mapped for the device on demand, channels that send requests under a lock when they
  are shared, and the indication handlers that a poll runs.  The DMA manager, the request proxy
  and the poller belong to Connectal: their answers are arguments, and the calls the library
  makes of them are recorded in order.
\<close>

section \<open>Buffers\<close>

record dma_buffer =
  bsize :: int
  fd :: int
  ref :: int

text \<open>The calls on the DMA manager and, for the destructor, on the memory object.\<close>

datatype mgr_call = Platform_init | Mgr_reference int int | Mgr_dereference int | Portal_munmap int | Close_fd int

text \<open>The library's state around the buffers: whether the manager exists, and the calls made so far.\<close>

record dma_lib =
  mgr :: bool
  calls :: "mgr_call list"

type_synonym mgr_reference = "dma_lib \<Rightarrow> int \<Rightarrow> int"

definition v1_initDmaManager :: "dma_lib \<Rightarrow> dma_lib" where
  "v1_initDmaManager m = (if \<not> mgr m then m\<lparr>mgr := True, calls := calls m @ [Platform_init]\<rparr> else m)"

definition v1_DmaBuffer_new :: "int \<Rightarrow> int \<Rightarrow> dma_buffer" where
  "v1_DmaBuffer_new sz portal_fd = \<lparr>bsize = sz, fd = portal_fd, ref = - 1\<rparr>"

text \<open>\<open>new_ref\<close> is what the manager's \<^verbatim>\<open>reference\<close> returns for the buffer's descriptor.\<close>

definition v1_reference :: "mgr_reference \<Rightarrow> dma_buffer \<Rightarrow> dma_lib \<Rightarrow> u32 \<times> dma_buffer \<times> dma_lib" where
  "v1_reference new_ref b m =
     (let m = v1_initDmaManager m;
          (b, m) = (if ref b = - 1
                    then let r = new_ref m (fd b)
                         in (b\<lparr>ref := r\<rparr>, m\<lparr>calls := calls m @ [Mgr_reference (fd b) r]\<rparr>)
                    else (b, m))
      in (of_int (ref b), b, m))"

definition v1_dereference :: "dma_buffer \<Rightarrow> dma_lib \<Rightarrow> dma_buffer \<times> dma_lib" where
  "v1_dereference b m =
     (b\<lparr>ref := - 1\<rparr>,
      if ref b \<noteq> - 1 \<and> mgr m then m\<lparr>calls := calls m @ [Mgr_dereference (ref b)]\<rparr> else m)"

definition v1_DmaBuffer_delete :: "dma_buffer \<Rightarrow> dma_lib \<Rightarrow> dma_lib" where
  "v1_DmaBuffer_delete b m =
     (let (b, m) = v1_dereference b m in m\<lparr>calls := calls m @ [Portal_munmap (bsize b), Close_fd (fd b)]\<rparr>)"

section \<open>Channels\<close>

text \<open>
  How a call may fail to return: the thread waits for a lock it holds itself, an integer
  division traps, an array is indexed outside its bounds, or a loop is still waiting when the
  events given to it end.
\<close>

datatype stop = Deadlock | Division_trap | Out_of_bounds | Still_waiting

datatype chan_event =
    Mutex_init | Mutex_lock | Mutex_unlock
  | Req_writeRequestSize int | Req_readRequestSize int
  | Req_transferToFpga u32 u32 u32 u8 | Req_transferFromFpga u32 u32 u32 u8
  | Req_objTransferFromFpga u8 u32
  | Poll_fn int | Poll_event

record dma_channel =
  channel :: int
  singleThreadedAccess :: bool
  channel_lock :: bool
  writeRequestSize :: "int option"
  readRequestSize :: "int option"
  request_portal :: string
  indication_portal :: string
  trace :: "chan_event list"

definition emit_ev :: "chan_event list \<Rightarrow> 'c dma_channel_scheme \<Rightarrow> 'c dma_channel_scheme" where
  "emit_ev es c = c\<lparr>trace := trace c @ es\<rparr>"

text \<open>
  The lock around a channel operation, taken only by channels shared between threads.  It is a
  default mutex: a thread that takes it again waits for itself.
\<close>

definition with_lock ::
  "('c dma_channel_scheme \<Rightarrow> stop + 'a \<times> 'c dma_channel_scheme) \<Rightarrow> 'c dma_channel_scheme \<Rightarrow>
     stop + 'a \<times> 'c dma_channel_scheme" where
  "with_lock f c =
     (if singleThreadedAccess c then f c
      else if channel_lock c then Inl Deadlock
      else and_then (f (emit_ev [Mutex_lock] (c\<lparr>channel_lock := True\<rparr>)))
             (\<lambda>(v, c). Inr (v, emit_ev [Mutex_unlock] (c\<lparr>channel_lock := False\<rparr>))))"

definition proxyNames :: "string list" where
  "proxyNames = [''IfcNames_DmaRequestS2H0'', ''IfcNames_DmaRequestS2H1'',
     ''IfcNames_DmaRequestS2H2'', ''IfcNames_DmaRequestS2H3'']"

definition wrapperNames :: "string list" where
  "wrapperNames = [''IfcNames_DmaIndicationH2S0'', ''IfcNames_DmaIndicationH2S1'',
     ''IfcNames_DmaIndicationH2S2'', ''IfcNames_DmaIndicationH2S3'']"

definition v1_DmaChannel_new :: "int \<Rightarrow> bool \<Rightarrow> dma_lib \<Rightarrow> stop + dma_channel \<times> dma_lib" where
  "v1_DmaChannel_new n single m =
     (let m = v1_initDmaManager m
      in if 0 \<le> n \<and> n < int (length proxyNames) \<and> n < int (length wrapperNames)
         then Inr (\<lparr>channel = n, singleThreadedAccess = single, channel_lock = False,
                    writeRequestSize = None, readRequestSize = None,
                    request_portal = proxyNames ! nat n, indication_portal = wrapperNames ! nat n,
                    trace = (if \<not> single then [Mutex_init] else []) @
                            [Req_writeRequestSize 128, Req_readRequestSize 256]\<rparr>, m)
         else Inl Out_of_bounds)"

section \<open>Indications\<close>

text \<open>The completions the device reports: list, base, tag and cycles of the transfer.\<close>

datatype indication = To_done u32 u32 u8 u32 | From_done u32 u32 u8 u32

text \<open>The client's callbacks; \<open>'s\<close> is what they can change, the channel they were given to included.\<close>

record 's callbacks =
  cb_transferToFpgaDone :: "u32 \<Rightarrow> u32 \<Rightarrow> u8 \<Rightarrow> u32 \<Rightarrow> 's \<Rightarrow> stop + 's"
  cb_transferFromFpgaDone :: "u32 \<Rightarrow> u32 \<Rightarrow> u8 \<Rightarrow> u32 \<Rightarrow> 's \<Rightarrow> stop + 's"

definition v1_transferToFpgaDone ::
  "'s callbacks option \<Rightarrow> u32 \<Rightarrow> u32 \<Rightarrow> u8 \<Rightarrow> u32 \<Rightarrow> 's \<Rightarrow> stop + 's" where
  "v1_transferToFpgaDone callbacks sglId base tag cycles s =
     (case callbacks of None \<Rightarrow> Inr s | Some k \<Rightarrow> cb_transferToFpgaDone k sglId base tag cycles s)"

definition v1_transferFromFpgaDone ::
  "'s callbacks option \<Rightarrow> u32 \<Rightarrow> u32 \<Rightarrow> u8 \<Rightarrow> u32 \<Rightarrow> 's \<Rightarrow> stop + 's" where
  "v1_transferFromFpgaDone callbacks sglId base tag cycles s =
     (case callbacks of None \<Rightarrow> Inr s | Some k \<Rightarrow> cb_transferFromFpgaDone k sglId base tag cycles s)"

text \<open>The poller runs the handler of each message that has arrived.\<close>

fun v1_event :: "'s callbacks option \<Rightarrow> indication list \<Rightarrow> 's \<Rightarrow> stop + 's" where
  "v1_event callbacks [] s = Inr s"
| "v1_event callbacks (To_done sglId base tag cycles # inds) s =
     and_then (v1_transferToFpgaDone callbacks sglId base tag cycles s) (v1_event callbacks inds)"
| "v1_event callbacks (From_done sglId base tag cycles # inds) s =
     and_then (v1_transferFromFpgaDone callbacks sglId base tag cycles s) (v1_event callbacks inds)"

section \<open>Operations of a channel\<close>

text \<open>\<open>rc\<close> is what the poll returns, \<open>inds\<close> the messages the event function finds.\<close>

definition v1_checkIndications ::
  "'c dma_channel_scheme callbacks option \<Rightarrow> int \<Rightarrow> indication list \<Rightarrow> 'c dma_channel_scheme \<Rightarrow>
     stop + unit \<times> 'c dma_channel_scheme" where
  "v1_checkIndications callbacks rc inds =
     with_lock (\<lambda>c. let c = emit_ev [Poll_fn 100] c
                     in if rc \<ge> 0
                        then and_then (v1_event callbacks inds (emit_ev [Poll_event] c)) (\<lambda>c. Inr ((), c))
                        else Inr ((), c))"

text \<open>\<open>v\<close> is the proxy's return value.\<close>

definition v1_transferToFpga ::
  "int \<Rightarrow> u32 \<Rightarrow> u32 \<Rightarrow> u32 \<Rightarrow> u8 \<Rightarrow> 'c dma_channel_scheme \<Rightarrow> stop + int \<times> 'c dma_channel_scheme" where
  "v1_transferToFpga v objId base bytes tag =
     with_lock (\<lambda>c. Inr (v, emit_ev [Req_transferToFpga objId base bytes tag] c))"

definition v1_transferFromFpga ::
  "int \<Rightarrow> u32 \<Rightarrow> u32 \<Rightarrow> u32 \<Rightarrow> u8 \<Rightarrow> 'c dma_channel_scheme \<Rightarrow> stop + int \<times> 'c dma_channel_scheme" where
  "v1_transferFromFpga v objId base bytes tag =
     with_lock (\<lambda>c. Inr (v, emit_ev [Req_transferFromFpga objId base bytes tag] c))"

definition v1_setWriteRequestSize :: "int \<Rightarrow> 'c dma_channel_scheme \<Rightarrow> stop + int \<times> 'c dma_channel_scheme" where
  "v1_setWriteRequestSize bytes =
     with_lock (\<lambda>c. let w = min 1024 bytes
                     in Inr (w, emit_ev [Req_writeRequestSize w] (c\<lparr>writeRequestSize := Some w\<rparr>)))"

definition v1_setReadRequestSize :: "int \<Rightarrow> 'c dma_channel_scheme \<Rightarrow> stop + int \<times> 'c dma_channel_scheme" where
  "v1_setReadRequestSize bytes =
     with_lock (\<lambda>c. let w = min 1024 bytes
                     in Inr (w, emit_ev [Req_readRequestSize w] (c\<lparr>readRequestSize := Some w\<rparr>)))"

section \<open>The lock discipline\<close>

text \<open>Events other than those of the lock, and traces in which such events happen only under it.\<close>

fun plain :: "chan_event \<Rightarrow> bool" where
  "plain Mutex_init = False" | "plain Mutex_lock = False" | "plain Mutex_unlock = False" | "plain _ = True"

fun lock_ok :: "bool \<Rightarrow> bool \<Rightarrow> chan_event list \<Rightarrow> bool" where
  "lock_ok shared locked [] = (\<not> locked)"
| "lock_ok shared locked (e # es) =
     (if e = Mutex_lock then shared \<and> \<not> locked \<and> lock_ok shared True es
      else if e = Mutex_unlock then shared \<and> locked \<and> lock_ok shared False es
      else plain e \<and> (shared \<longrightarrow> locked) \<and> lock_ok shared locked es)"

lemma lock_ok_append: "lock_ok sh l xs \<Longrightarrow> lock_ok sh False ys \<Longrightarrow> lock_ok sh l (xs @ ys)"
  by (induction xs arbitrary: l) auto

lemma lock_ok_plain: "list_all plain es \<Longrightarrow> (sh \<longrightarrow> l) \<Longrightarrow> lock_ok sh l (es @ ys) = lock_ok sh l ys"
  by (induction es) auto

text \<open>A thread may send requests: the channel is not shared, or the thread holds its lock.\<close>

definition entered :: "'c dma_channel_scheme \<Rightarrow> bool" where
  "entered c \<longleftrightarrow> singleThreadedAccess c \<or> channel_lock c"

text \<open>Only requests and polls were added to the trace, and the lock is as before.\<close>

definition plain_ext :: "'c dma_channel_scheme \<Rightarrow> 'c dma_channel_scheme \<Rightarrow> bool" where
  "plain_ext c c' \<longleftrightarrow> (\<exists>es. list_all plain es \<and> trace c' = trace c @ es) \<and>
     singleThreadedAccess c' = singleThreadedAccess c \<and> channel_lock c' = channel_lock c"

text \<open>The trace grew by complete locked sections, and the lock is as before.\<close>

definition locked_ext :: "'c dma_channel_scheme \<Rightarrow> 'c dma_channel_scheme \<Rightarrow> bool" where
  "locked_ext c c' \<longleftrightarrow> (\<exists>es. lock_ok (\<not> singleThreadedAccess c) False es \<and> trace c' = trace c @ es) \<and>
     singleThreadedAccess c' = singleThreadedAccess c \<and> channel_lock c' = channel_lock c"

lemma plain_ext_refl [simp, intro]: "plain_ext c c"
  by (simp add: plain_ext_def)

lemma plain_ext_trans [trans]: "plain_ext a b \<Longrightarrow> plain_ext b c \<Longrightarrow> plain_ext a c"
  by (auto simp: plain_ext_def)

lemma plain_ext_emit: "list_all plain es \<Longrightarrow> plain_ext c (emit_ev es c)"
  by (simp add: plain_ext_def emit_ev_def)

lemma plain_ext_entered: "plain_ext c c' \<Longrightarrow> entered c' = entered c"
  by (simp add: plain_ext_def entered_def)

lemma locked_ext_refl [simp, intro]: "locked_ext c c"
  by (auto simp: locked_ext_def intro: exI [of _ "[]"])

lemma locked_ext_trans [trans]:
  assumes "locked_ext a b" "locked_ext b c"
  shows "locked_ext a c"
proof -
  from assms obtain es fs where "lock_ok (\<not> singleThreadedAccess a) False es" "trace b = trace a @ es"
    and "lock_ok (\<not> singleThreadedAccess a) False fs" "trace c = trace b @ fs"
    unfolding locked_ext_def by auto
  with lock_ok_append [of "\<not> singleThreadedAccess a" False es fs] assms show ?thesis
    unfolding locked_ext_def by auto
qed

lemma locked_ext_free: "locked_ext c c' \<Longrightarrow> channel_lock c' = channel_lock c"
  by (simp add: locked_ext_def)

lemma with_lock_locked_ext:
  assumes "\<not> channel_lock c" "with_lock f c = Inr (v, c')"
    and "\<And>c v c'. entered c \<Longrightarrow> f c = Inr (v, c') \<Longrightarrow> plain_ext c c'"
  shows "locked_ext c c'"
proof (cases "singleThreadedAccess c")
  case True
  with assms(2) assms(3) [of c] have "plain_ext c c'" by (simp add: with_lock_def entered_def)
  with True show ?thesis
    using lock_ok_plain [of _ False False "[]"] by (auto simp: plain_ext_def locked_ext_def)
next
  case False
  let ?c = "emit_ev [Mutex_lock] (c\<lparr>channel_lock := True\<rparr>)"
  from False assms(1,2) obtain c1 where
    c1: "f ?c = Inr (v, c1)" "c' = emit_ev [Mutex_unlock] (c1\<lparr>channel_lock := False\<rparr>)"
    by (auto simp: with_lock_def and_then_eq_Inr)
  from assms(3) [OF _ c1(1)] have "plain_ext ?c c1" by (simp add: entered_def emit_ev_def)
  then obtain es where es: "list_all plain es" "trace c1 = trace c @ Mutex_lock # es"
    "singleThreadedAccess c1 = singleThreadedAccess c"
    by (auto simp: plain_ext_def emit_ev_def)
  have "lock_ok True False (Mutex_lock # es @ [Mutex_unlock])"
    using lock_ok_plain [OF es(1), of True True "[Mutex_unlock]"] by simp
  with es False assms(1) c1(2) show ?thesis by (auto simp: locked_ext_def emit_ev_def)
qed

text \<open>
  The contract of a channel operation: its body runs under the lock, which it leaves alone, and
  makes only requests and polls.
\<close>

locale channel_operation =
  fixes operation :: "'c dma_channel_scheme \<Rightarrow> stop + 'a \<times> 'c dma_channel_scheme"
    and body :: "'c dma_channel_scheme \<Rightarrow> stop + 'a \<times> 'c dma_channel_scheme"
  assumes locked: "operation c = with_lock body c"
    and body_plain: "entered c \<Longrightarrow> body c = Inr (v, c') \<Longrightarrow> plain_ext c c'"
begin

lemma operation_locked_ext: "\<not> channel_lock c \<Longrightarrow> operation c = Inr (v, c') \<Longrightarrow> locked_ext c c'"
  using with_lock_locked_ext [of c body v c'] body_plain by (simp add: locked)

lemma operation_held: "\<not> singleThreadedAccess c \<Longrightarrow> channel_lock c \<Longrightarrow> operation c = Inl Deadlock"
  by (simp add: locked with_lock_def)

lemma operation_entered: "entered c \<Longrightarrow> operation c = Inr (v, c') \<Longrightarrow> plain_ext c c'"
  using body_plain [of c v c'] by (auto simp: locked with_lock_def entered_def split: if_splits)

lemma operation_single: "singleThreadedAccess c \<Longrightarrow> operation c = body c"
  by (simp add: locked with_lock_def)

end

text \<open>An operation whose body always returns, returns whenever the lock is free.\<close>

locale request_operation = channel_operation +
  assumes body_returns: "\<exists>v c'. body c = Inr (v, c')"
begin

lemma operation_returns: "singleThreadedAccess c \<or> \<not> channel_lock c \<Longrightarrow> \<exists>v c'. operation c = Inr (v, c')"
  using body_returns [of c] body_returns [of "emit_ev [Mutex_lock] (c\<lparr>channel_lock := True\<rparr>)"]
  by (auto simp: locked with_lock_def)

end

interpretation v1_to: request_operation "v1_transferToFpga v objId base bytes tag"
  "\<lambda>c. Inr (v, emit_ev [Req_transferToFpga objId base bytes tag] c)" for v objId base bytes tag
  by unfold_locales (auto simp: v1_transferToFpga_def intro: plain_ext_emit)

interpretation v1_from: request_operation "v1_transferFromFpga v objId base bytes tag"
  "\<lambda>c. Inr (v, emit_ev [Req_transferFromFpga objId base bytes tag] c)" for v objId base bytes tag
  by unfold_locales (auto simp: v1_transferFromFpga_def intro: plain_ext_emit)

interpretation v1_setWrite: request_operation "v1_setWriteRequestSize bytes"
  "\<lambda>c. let w = min 1024 bytes in Inr (w, emit_ev [Req_writeRequestSize w] (c\<lparr>writeRequestSize := Some w\<rparr>))" for bytes
  by unfold_locales (auto simp: v1_setWriteRequestSize_def plain_ext_def emit_ev_def Let_def)

interpretation v1_setRead: request_operation "v1_setReadRequestSize bytes"
  "\<lambda>c. let w = min 1024 bytes in Inr (w, emit_ev [Req_readRequestSize w] (c\<lparr>readRequestSize := Some w\<rparr>))" for bytes
  by unfold_locales (auto simp: v1_setReadRequestSize_def plain_ext_def emit_ev_def Let_def)

section \<open>Callbacks\<close>

text \<open>
  Callbacks keep to the channel's interface: run by a thread that has entered the channel, they
  add requests and leave the lock alone, or do not return.
\<close>

definition callbacks_ok :: "'c dma_channel_scheme callbacks option \<Rightarrow> bool" where
  "callbacks_ok cb \<longleftrightarrow> (\<forall>k c c' sglId base tag cycles. cb = Some k \<longrightarrow> entered c \<longrightarrow>
     (cb_transferToFpgaDone k sglId base tag cycles c = Inr c' \<longrightarrow> plain_ext c c') \<and>
     (cb_transferFromFpgaDone k sglId base tag cycles c = Inr c' \<longrightarrow> plain_ext c c'))"

lemma callbacks_ok_None [simp]: "callbacks_ok None"
  by (simp add: callbacks_ok_def)

lemma callbacks_okD:
  assumes "callbacks_ok cb" "entered c"
  shows "v1_transferToFpgaDone cb sglId base tag cycles c = Inr c' \<Longrightarrow> plain_ext c c'"
    and "v1_transferFromFpgaDone cb sglId base tag cycles c = Inr c' \<Longrightarrow> plain_ext c c'"
  using assms
  by (auto simp: callbacks_ok_def v1_transferToFpgaDone_def v1_transferFromFpgaDone_def split: option.splits)

lemma v1_event_plain:
  assumes "callbacks_ok cb" "entered c" "v1_event cb inds c = Inr c'"
  shows "plain_ext c c'"
  using assms(2,3)
proof (induction inds arbitrary: c)
  case (Cons i inds)
  then obtain c1 where c1: "v1_event cb [i] c = Inr c1" "v1_event cb inds c1 = Inr c'"
    by (cases i) (auto simp: and_then_eq_Inr)
  have "plain_ext c c1"
    using c1(1) callbacks_okD [OF assms(1) Cons.prems(1)] by (cases i) (auto simp: and_then_eq_Inr)
  with Cons.IH [OF _ c1(2)] Cons.prems(1) show ?case
    by (blast intro: plain_ext_trans dest: plain_ext_entered)
qed simp

text \<open>The contract of a client's callbacks, and the polls of a channel that has them.\<close>

locale channel_client =
  fixes cb :: "'c dma_channel_scheme callbacks option"
  assumes callbacks: "callbacks_ok cb"
begin

lemma check_body_plain:
  assumes "entered c"
    and "(let c = emit_ev [Poll_fn 100] c
          in if rc \<ge> 0 then and_then (v1_event cb inds (emit_ev [Poll_event] c)) (\<lambda>c. Inr ((), c))
             else Inr ((), c)) = Inr (v, c')"
  shows "plain_ext c c'"
proof -
  have p: "plain_ext c (emit_ev [Poll_fn 100] c)"
    "plain_ext c (emit_ev [Poll_event] (emit_ev [Poll_fn 100] c))"
    by (simp_all add: plain_ext_def emit_ev_def)
  show ?thesis
  proof (cases "rc \<ge> 0")
    case True
    with assms(2) have "v1_event cb inds (emit_ev [Poll_event] (emit_ev [Poll_fn 100] c)) = Inr c'"
      by (auto simp: and_then_eq_Inr)
    with v1_event_plain [OF callbacks] p(2) assms(1) show ?thesis
      by (blast intro: plain_ext_trans dest: plain_ext_entered)
  qed (use assms(2) p(1) in auto)
qed

sublocale check: channel_operation "v1_checkIndications cb rc inds"
  "\<lambda>c. let c = emit_ev [Poll_fn 100] c
        in if rc \<ge> 0 then and_then (v1_event cb inds (emit_ev [Poll_event] c)) (\<lambda>c. Inr ((), c))
           else Inr ((), c)" for rc inds
  by unfold_locales (auto simp: v1_checkIndications_def intro: check_body_plain)

end

interpretation no_callbacks: channel_client None
  by unfold_locales simp

end
