(* ===== verification/Dmac.thy ===== *)
theory Dmac
  imports Dmac_First
begin

text \<open>
  The current DMA library, \<^verbatim>\<open>src/sw/dmac.h\<close> and \<^verbatim>\<open>src/sw/dmac.cpp\<close>.  A buffer now carries the length
  of its contents, a transfer takes the buffer instead of its reference, receive buffers are
  registered once instead of requested one by one, and a poll blocks.  The rest is the first
  version's code, and the theorem on versions says so: a client moved to this library makes the
  same calls of the manager and sends the same requests.
\<close>

section \<open>Buffers\<close>

text \<open>\<open>blen\<close> is the field \<^verbatim>\<open>len\<close>, \<open>len_word\<close> the first word of the buffer, where the length is stored for the device.\<close>

record dma_len_buffer = dma_buffer +
  blen :: u32
  len_word :: u32

definition initDmaManager :: "dma_lib \<Rightarrow> dma_lib" where
  "initDmaManager m = (if \<not> mgr m then m\<lparr>mgr := True, calls := calls m @ [Platform_init]\<rparr> else m)"

definition DmaBuffer_new :: "int \<Rightarrow> int \<Rightarrow> dma_len_buffer" where
  "DmaBuffer_new sz portal_fd = \<lparr>bsize = sz, fd = portal_fd, ref = - 1, blen = 0, len_word = 0\<rparr>"

definition reference :: "mgr_reference \<Rightarrow> dma_len_buffer \<Rightarrow> dma_lib \<Rightarrow> u32 \<times> dma_len_buffer \<times> dma_lib" where
  "reference new_ref b m =
     (let m = initDmaManager m;
          (b, m) = (if ref b = - 1
                    then let r = new_ref m (fd b)
                         in (b\<lparr>ref := r\<rparr>, m\<lparr>calls := calls m @ [Mgr_reference (fd b) r]\<rparr>)
                    else (b, m))
      in (of_int (ref b), b, m))"

definition dereference :: "dma_len_buffer \<Rightarrow> dma_lib \<Rightarrow> dma_len_buffer \<times> dma_lib" where
  "dereference b m =
     (b\<lparr>ref := - 1\<rparr>,
      if ref b \<noteq> - 1 \<and> mgr m then m\<lparr>calls := calls m @ [Mgr_dereference (ref b)]\<rparr> else m)"

definition DmaBuffer_delete :: "dma_len_buffer \<Rightarrow> dma_lib \<Rightarrow> dma_lib" where
  "DmaBuffer_delete b m =
     (let (b, m) = dereference b m in m\<lparr>calls := calls m @ [Portal_munmap (bsize b), Close_fd (fd b)]\<rparr>)"

text \<open>\<^verbatim>\<open>setLen\<close>: remainder and shift as the C operators on a signed integer.\<close>

definition rem_c :: "int \<Rightarrow> int \<Rightarrow> int" where
  "rem_c a b = (if a < 0 then - ((- a) mod b) else a mod b)"

definition setLen :: "int \<Rightarrow> dma_len_buffer \<Rightarrow> dma_len_buffer" where
  "setLen l b =
     (let l = (if l \<ge> bsize b - 16 then bsize b - 16 else l)
      in b\<lparr>len_word := of_int l,
           blen := of_int (16 + (if rem_c l 16 = 0 then l else (l div 16 + 1) * 16))\<rparr>)"

definition getLen :: "dma_len_buffer \<Rightarrow> u32" where
  "getLen b = blen b"

section \<open>Channels\<close>

definition DmaChannel_new :: "int \<Rightarrow> bool \<Rightarrow> dma_lib \<Rightarrow> stop + dma_channel \<times> dma_lib" where
  "DmaChannel_new n single m =
     (let m = initDmaManager m
      in if 0 \<le> n \<and> n < int (length proxyNames) \<and> n < int (length wrapperNames)
         then Inr (\<lparr>channel = n, singleThreadedAccess = single, channel_lock = False,
                    writeRequestSize = None, readRequestSize = None,
                    request_portal = proxyNames ! nat n, indication_portal = wrapperNames ! nat n,
                    trace = (if \<not> single then [Mutex_init] else []) @
                            [Req_writeRequestSize 128, Req_readRequestSize 256]\<rparr>, m)
         else Inl Out_of_bounds)"

text \<open>Completions name the tag or the received object and its length; the statistics are only printed.\<close>

datatype dma_indication = Sent u8 | Received u32 u32 | To_stat u32 u64 u64 u64 | From_stat u32 u64 u64 u64

record 's dma_callbacks =
  on_transferToFpgaDone :: "u8 \<Rightarrow> 's \<Rightarrow> stop + 's"
  on_transferFromFpgaDone :: "u32 \<Rightarrow> u32 \<Rightarrow> 's \<Rightarrow> stop + 's"

fun dma_indication_done :: "'s dma_callbacks option \<Rightarrow> dma_indication \<Rightarrow> 's \<Rightarrow> stop + 's" where
  "dma_indication_done callbacks (Sent tag) s =
     (case callbacks of None \<Rightarrow> Inr s | Some k \<Rightarrow> on_transferToFpgaDone k tag s)"
| "dma_indication_done callbacks (Received sglId len) s =
     (case callbacks of None \<Rightarrow> Inr s | Some k \<Rightarrow> on_transferFromFpgaDone k sglId len s)"
| "dma_indication_done callbacks (To_stat a b c d) s = Inr s"
| "dma_indication_done callbacks (From_stat a b c d) s = Inr s"

fun dma_event :: "'s dma_callbacks option \<Rightarrow> dma_indication list \<Rightarrow> 's \<Rightarrow> stop + 's" where
  "dma_event callbacks [] s = Inr s"
| "dma_event callbacks (i # inds) s = and_then (dma_indication_done callbacks i s) (dma_event callbacks inds)"

text \<open>The poll waits without limit on hardware.\<close>

definition checkIndications ::
  "'c dma_channel_scheme dma_callbacks option \<Rightarrow> int \<Rightarrow> dma_indication list \<Rightarrow> 'c dma_channel_scheme \<Rightarrow>
     stop + unit \<times> 'c dma_channel_scheme" where
  "checkIndications callbacks rc inds =
     with_lock (\<lambda>c. let c = emit_ev [Poll_fn (- 1)] c
                     in if rc \<ge> 0
                        then and_then (dma_event callbacks inds (emit_ev [Poll_event] c)) (\<lambda>c. Inr ((), c))
                        else Inr ((), c))"

text \<open>A transfer takes the buffer and sends its reference; \<open>v\<close> is the proxy's return value.\<close>

definition transferToFpga ::
  "mgr_reference \<Rightarrow> int \<Rightarrow> u32 \<Rightarrow> u32 \<Rightarrow> u8 \<Rightarrow> dma_len_buffer \<times> dma_lib \<Rightarrow> 'c dma_channel_scheme \<Rightarrow>
     stop + (int \<times> dma_len_buffer \<times> dma_lib) \<times> 'c dma_channel_scheme" where
  "transferToFpga new_ref v base bytes tag bm =
     with_lock (\<lambda>c. let (objId, b, m) = reference new_ref (fst bm) (snd bm)
                     in Inr ((v, b, m), emit_ev [Req_transferToFpga objId base bytes tag] c))"

definition setWriteRequestSize :: "int \<Rightarrow> 'c dma_channel_scheme \<Rightarrow> stop + int \<times> 'c dma_channel_scheme" where
  "setWriteRequestSize bytes =
     with_lock (\<lambda>c. let w = min 1024 bytes
                     in Inr (w, emit_ev [Req_writeRequestSize w] (c\<lparr>writeRequestSize := Some w\<rparr>)))"

definition setReadRequestSize :: "int \<Rightarrow> 'c dma_channel_scheme \<Rightarrow> stop + int \<times> 'c dma_channel_scheme" where
  "setReadRequestSize bytes =
     with_lock (\<lambda>c. let w = min 1024 bytes
                     in Inr (w, emit_ev [Req_readRequestSize w] (c\<lparr>readRequestSize := Some w\<rparr>)))"

definition setObjTransferFromFpga :: "int \<Rightarrow> u8 \<Rightarrow> u32 \<Rightarrow> 'c dma_channel_scheme \<Rightarrow> stop + int \<times> 'c dma_channel_scheme" where
  "setObjTransferFromFpga v i objId =
     with_lock (\<lambda>c. Inr (v, emit_ev [Req_objTransferFromFpga i objId] c))"

section \<open>References\<close>

text \<open>The references the manager holds after a sequence of calls.\<close>

definition held_refs :: "mgr_call list \<Rightarrow> int list" where
  "held_refs cs = fold (\<lambda>c rs. case c of Mgr_reference f r \<Rightarrow> r # rs | Mgr_dereference r \<Rightarrow> remove1 r rs | _ \<Rightarrow> rs) cs []"

datatype buffer_op = Op_reference | Op_dereference

fun buffer_step :: "mgr_reference \<Rightarrow> buffer_op \<Rightarrow> dma_len_buffer \<times> dma_lib \<Rightarrow> dma_len_buffer \<times> dma_lib" where
  "buffer_step new_ref Op_reference (b, m) = snd (reference new_ref b m)"
| "buffer_step new_ref Op_dereference (b, m) = dereference b m"

fun buffer_run :: "mgr_reference \<Rightarrow> buffer_op list \<Rightarrow> dma_len_buffer \<times> dma_lib \<Rightarrow> dma_len_buffer \<times> dma_lib" where
  "buffer_run new_ref [] s = s"
| "buffer_run new_ref (x # xs) s = buffer_run new_ref xs (buffer_step new_ref x s)"

lemma held_refs_snoc:
  "held_refs (cs @ [Mgr_reference f r]) = r # held_refs cs"
  "held_refs (cs @ [Mgr_dereference r]) = remove1 r (held_refs cs)"
  "held_refs (cs @ [Platform_init]) = held_refs cs"
  "held_refs (cs @ [Portal_munmap n, Close_fd f]) = held_refs cs"
  by (simp_all add: held_refs_def)

text \<open>The buffer holds a reference exactly when the manager does.\<close>

definition refs_ok :: "dma_len_buffer \<times> dma_lib \<Rightarrow> bool" where
  "refs_ok s \<longleftrightarrow> held_refs (calls (snd s)) = (if ref (fst s) = - 1 then [] else [ref (fst s)]) \<and>
     (ref (fst s) \<noteq> - 1 \<longrightarrow> mgr (snd s))"

lemma buffer_step_refs:
  assumes "\<And>m f. new_ref m f \<noteq> - 1" "refs_ok s"
  shows "refs_ok (buffer_step new_ref x s)"
proof (cases s)
  case (Pair b m)
  with assms show ?thesis
    by (cases x) (auto simp: refs_ok_def reference_def dereference_def initDmaManager_def Let_def held_refs_snoc)
qed

lemma buffer_run_refs:
  assumes "\<And>m f. new_ref m f \<noteq> - 1" "refs_ok s"
  shows "refs_ok (buffer_run new_ref xs s)"
  using assms(2) by (induction xs arbitrary: s) (simp_all add: buffer_step_refs [OF assms(1)])

section \<open>The operations keep the lock discipline\<close>

interpretation toFpga: request_operation "transferToFpga new_ref v base bytes tag bm"
  "\<lambda>c. let (objId, b, m) = reference new_ref (fst bm) (snd bm)
        in Inr ((v, b, m), emit_ev [Req_transferToFpga objId base bytes tag] c)" for new_ref v base bytes tag bm
  by unfold_locales (auto simp: transferToFpga_def case_prod_unfold Let_def intro: plain_ext_emit)

interpretation setWrite: request_operation "setWriteRequestSize bytes"
  "\<lambda>c. let w = min 1024 bytes in Inr (w, emit_ev [Req_writeRequestSize w] (c\<lparr>writeRequestSize := Some w\<rparr>))" for bytes
  by unfold_locales (auto simp: setWriteRequestSize_def plain_ext_def emit_ev_def Let_def)

interpretation setRead: request_operation "setReadRequestSize bytes"
  "\<lambda>c. let w = min 1024 bytes in Inr (w, emit_ev [Req_readRequestSize w] (c\<lparr>readRequestSize := Some w\<rparr>))" for bytes
  by unfold_locales (auto simp: setReadRequestSize_def plain_ext_def emit_ev_def Let_def)

interpretation setObj: request_operation "setObjTransferFromFpga v i objId"
  "\<lambda>c. Inr (v, emit_ev [Req_objTransferFromFpga i objId] c)" for v i objId
  by unfold_locales (auto simp: setObjTransferFromFpga_def intro: plain_ext_emit)

text \<open>A callback that keeps to the interface, as for the first version.\<close>

definition dma_callbacks_ok :: "'c dma_channel_scheme dma_callbacks option \<Rightarrow> bool" where
  "dma_callbacks_ok cb \<longleftrightarrow> (\<forall>i c c'. entered c \<longrightarrow> dma_indication_done cb i c = Inr c' \<longrightarrow> plain_ext c c')"

lemma dma_event_plain:
  assumes "dma_callbacks_ok cb" "entered c" "dma_event cb inds c = Inr c'"
  shows "plain_ext c c'"
  using assms(2,3)
proof (induction inds arbitrary: c)
  case (Cons i inds)
  then obtain c1 where c1: "dma_indication_done cb i c = Inr c1" "dma_event cb inds c1 = Inr c'"
    by (auto simp: and_then_eq_Inr)
  with assms(1) Cons.prems(1) have "plain_ext c c1" by (auto simp: dma_callbacks_ok_def)
  with Cons.IH [OF _ c1(2)] Cons.prems(1) show ?case
    by (blast intro: plain_ext_trans dest: plain_ext_entered)
qed simp

lemma checkIndications_locked_ext:
  assumes "dma_callbacks_ok cb" "\<not> channel_lock c" "checkIndications cb rc inds c = Inr (v, c')"
  shows "locked_ext c c'"
proof (rule with_lock_locked_ext [OF assms(2) assms(3) [unfolded checkIndications_def]])
  fix c v c'
  assume c: "entered c" and run: "(let c = emit_ev [Poll_fn (- 1)] c
    in if rc \<ge> 0 then and_then (dma_event cb inds (emit_ev [Poll_event] c)) (\<lambda>c. Inr ((), c)) else Inr ((), c)) = Inr (v, c')"
  have p: "plain_ext c (emit_ev [Poll_fn (- 1)] c)" "plain_ext c (emit_ev [Poll_event] (emit_ev [Poll_fn (- 1)] c))"
    by (simp_all add: plain_ext_def emit_ev_def)
  show "plain_ext c c'"
  proof (cases "rc \<ge> 0")
    case True
    with run have "dma_event cb inds (emit_ev [Poll_event] (emit_ev [Poll_fn (- 1)] c)) = Inr c'"
      by (auto simp: and_then_eq_Inr)
    with dma_event_plain [OF assms(1)] p(2) c show ?thesis
      by (blast intro: plain_ext_trans dest: plain_ext_entered)
  qed (use run p(1) in auto)
qed

section \<open>Clients\<close>

text \<open>
  A client's calls, on one buffer and one channel of the library.  A poll comes with what the poller
  answers and the indications it finds then; \<open>cb\<close> are the callbacks the channel was made with.
\<close>

datatype client_op =
    Client_reference | Client_dereference | Client_to u32 u32 u8
  | Client_set_write int | Client_set_read int | Client_set_obj u8 | Client_check int "dma_indication list"

definition on_channel :: "'b \<Rightarrow> 'm \<Rightarrow> stop + 'v \<times> 'c \<Rightarrow> stop + 'b \<times> 'm \<times> 'c" where
  "on_channel b m r = and_then r (\<lambda>(v, c). Inr (b, m, c))"

fun client_step :: "dma_channel dma_callbacks option \<Rightarrow> mgr_reference \<Rightarrow> client_op \<Rightarrow> dma_len_buffer \<times> dma_lib \<times> dma_channel \<Rightarrow> stop + dma_len_buffer \<times> dma_lib \<times> dma_channel" where
  "client_step cb nr Client_reference (b, m, c) = (let (r, b, m) = reference nr b m in Inr (b, m, c))"
| "client_step cb nr Client_dereference (b, m, c) = (let (b, m) = dereference b m in Inr (b, m, c))"
| "client_step cb nr (Client_to base bytes tag) (b, m, c) =
     and_then (transferToFpga nr 0 base bytes tag (b, m) c) (\<lambda>((v, b, m), c). Inr (b, m, c))"
| "client_step cb nr (Client_set_write n) (b, m, c) = on_channel b m (setWriteRequestSize n c)"
| "client_step cb nr (Client_set_read n) (b, m, c) = on_channel b m (setReadRequestSize n c)"
| "client_step cb nr (Client_set_obj i) (b, m, c) =
     (let (r, b, m) = reference nr b m in on_channel b m (setObjTransferFromFpga 0 i r c))"
| "client_step cb nr (Client_check rc inds) (b, m, c) = on_channel b m (checkIndications cb rc inds c)"

text \<open>
  The same calls as a client of the first version makes them, without callbacks and with polls that find
  nothing; it has no receive registration.
\<close>

fun v1_client_step :: "mgr_reference \<Rightarrow> client_op \<Rightarrow> dma_buffer \<times> dma_lib \<times> dma_channel \<Rightarrow> stop + dma_buffer \<times> dma_lib \<times> dma_channel" where
  "v1_client_step nr Client_reference (b, m, c) = (let (r, b, m) = v1_reference nr b m in Inr (b, m, c))"
| "v1_client_step nr Client_dereference (b, m, c) = (let (b, m) = v1_dereference b m in Inr (b, m, c))"
| "v1_client_step nr (Client_to base bytes tag) (b, m, c) =
     (let (r, b, m) = v1_reference nr b m in on_channel b m (v1_transferToFpga 0 r base bytes tag c))"
| "v1_client_step nr (Client_set_write n) (b, m, c) = on_channel b m (v1_setWriteRequestSize n c)"
| "v1_client_step nr (Client_set_read n) (b, m, c) = on_channel b m (v1_setReadRequestSize n c)"
| "v1_client_step nr (Client_set_obj i) (b, m, c) = Inr (b, m, c)"
| "v1_client_step nr (Client_check rc inds) (b, m, c) = on_channel b m (v1_checkIndications None rc [] c)"

fun client_run :: "('op \<Rightarrow> 's \<Rightarrow> stop + 's) \<Rightarrow> 'op list \<Rightarrow> 's \<Rightarrow> stop + 's" where
  "client_run step [] s = Inr s"
| "client_run step (x # xs) s = and_then (step x s) (client_run step xs)"

lemmas channel_op_defs = transferToFpga_def setWriteRequestSize_def setReadRequestSize_def
  setObjTransferFromFpga_def checkIndications_def v1_transferToFpga_def v1_setWriteRequestSize_def
  v1_setReadRequestSize_def v1_checkIndications_def

lemma request_returns:
  assumes "request_operation f g" "\<not> channel_lock c"
  obtains v c' where "f c = Inr (v, c')" "locked_ext c c'"
proof -
  from request_operation.operation_returns [OF assms(1), of c] assms(2) obtain v c' where r: "f c = Inr (v, c')" by blast
  with channel_operation.operation_locked_ext [OF request_operation.axioms(1) [OF assms(1)] assms(2)] that show ?thesis by blast
qed

lemma dma_callbacks_ok_None [simp]: "dma_callbacks_ok None"
  unfolding dma_callbacks_ok_def
proof (intro allI impI)
  fix i and c c' :: "'a dma_channel_scheme"
  assume "dma_indication_done None i c = Inr c'"
  then show "plain_ext c c'" by (cases i) auto
qed

lemma event_None: "dma_event None inds c = Inr c"
proof (induction inds)
  case (Cons i inds)
  then show ?case by (cases i) simp_all
qed simp

lemma check_returns:
  assumes "\<not> channel_lock c"
  shows "\<exists>v c'. checkIndications None rc inds c = Inr (v, c')"
  using assms by (simp add: checkIndications_def with_lock_def event_None Let_def)

text \<open>
  A step: when it returns, the lock was taken and released; and it returns unless a callback does not.
\<close>

lemma client_step_locked:
  assumes "\<not> channel_lock c" "dma_callbacks_ok cb"
  shows "client_step cb nr x (b, m, c) = Inr (b', m', c') \<Longrightarrow> locked_ext c c'"
    and "cb = None \<or> (\<forall>rc inds. x \<noteq> Client_check rc inds) \<Longrightarrow> \<exists>s. client_step cb nr x (b, m, c) = Inr s"
proof -
  have "(\<forall>b' m' c'. client_step cb nr x (b, m, c) = Inr (b', m', c') \<longrightarrow> locked_ext c c') \<and>
    (cb = None \<or> (\<forall>rc inds. x \<noteq> Client_check rc inds) \<longrightarrow> (\<exists>s. client_step cb nr x (b, m, c) = Inr s))"
  proof (cases x)
    case (Client_to base bytes tag)
    obtain v b' m' c' where "transferToFpga nr 0 base bytes tag (b, m) c = Inr ((v, b', m'), c')" "locked_ext c c'"
      by (rule request_returns [OF toFpga.request_operation_axioms assms(1)]) auto
    with Client_to show ?thesis by simp
  next
    case (Client_set_write n)
    obtain v c' where "setWriteRequestSize n c = Inr (v, c')" "locked_ext c c'"
      by (rule request_returns [OF setWrite.request_operation_axioms assms(1)])
    with Client_set_write show ?thesis by (simp add: on_channel_def)
  next
    case (Client_set_read n)
    obtain v c' where "setReadRequestSize n c = Inr (v, c')" "locked_ext c c'"
      by (rule request_returns [OF setRead.request_operation_axioms assms(1)])
    with Client_set_read show ?thesis by (simp add: on_channel_def)
  next
    case (Client_set_obj i)
    obtain r b' m' where ref: "reference nr b m = (r, b', m')" by (metis prod_cases3)
    obtain v c' where "setObjTransferFromFpga 0 i r c = Inr (v, c')" "locked_ext c c'"
      by (rule request_returns [OF setObj.request_operation_axioms assms(1)])
    with Client_set_obj ref show ?thesis by (simp add: on_channel_def)
  next
    case (Client_check rc inds)
    with checkIndications_locked_ext [OF assms(2,1), of rc inds] check_returns [OF assms(1), of rc inds] show ?thesis
      by (auto simp: on_channel_def and_then_eq_Inr)
  qed (simp_all add: Let_def case_prod_unfold)
  then show "client_step cb nr x (b, m, c) = Inr (b', m', c') \<Longrightarrow> locked_ext c c'"
    "cb = None \<or> (\<forall>rc inds. x \<noteq> Client_check rc inds) \<Longrightarrow> \<exists>s. client_step cb nr x (b, m, c) = Inr s"
    by blast+
qed

lemma client_run_locked:
  assumes "\<not> channel_lock c" "dma_callbacks_ok cb"
  shows "client_run (client_step cb nr) xs (b, m, c) = Inr (b', m', c') \<Longrightarrow> locked_ext c c'"
    and "cb = None \<or> (\<forall>rc inds. Client_check rc inds \<notin> set xs) \<Longrightarrow> \<exists>s. client_run (client_step cb nr) xs (b, m, c) = Inr s"
  using assms(1)
proof (induction xs arbitrary: b m c)
  case (Cons x xs)
  {
    case 1
    then obtain b1 m1 c1 where
      step: "client_step cb nr x (b, m, c) = Inr (b1, m1, c1)" "client_run (client_step cb nr) xs (b1, m1, c1) = Inr (b', m', c')"
      by (auto simp: and_then_eq_Inr)
    from client_step_locked(1) [OF 1(2) assms(2) step(1)] have ext: "locked_ext c c1" .
    then have "\<not> channel_lock c1" using 1(2) by (simp add: locked_ext_free)
    from locked_ext_trans [OF ext Cons.IH(1) [OF step(2) this]] show ?case .
  next
    case 2
    then obtain b1 m1 c1 where step: "client_step cb nr x (b, m, c) = Inr (b1, m1, c1)"
      using client_step_locked(2) [OF 2(2) assms(2), of x nr b m] by force
    from locked_ext_free [OF client_step_locked(1) [OF 2(2) assms(2) step]] 2(2) have "\<not> channel_lock c1" by simp
    with Cons.IH(2) [of c1 b1 m1] 2(1) step show ?case by auto
  }
qed auto

section \<open>The two versions\<close>

text \<open>
  What the two versions share: the buffer without its length, the calls of the manager, and the
  channel with its trace up to the time limit of the polls.
\<close>

fun any_timeout :: "chan_event \<Rightarrow> chan_event" where
  "any_timeout (Poll_fn t) = Poll_fn 0" | "any_timeout e = e"

definition shared_view :: "'b dma_buffer_scheme \<times> dma_lib \<times> dma_channel \<Rightarrow> dma_buffer \<times> dma_lib \<times> dma_channel" where
  "shared_view s = (case s of (b, m, c) \<Rightarrow> (dma_buffer.truncate b, m, c\<lparr>trace := map any_timeout (trace c)\<rparr>))"

lemma client_step_versions:
  fixes c c1 :: dma_channel
  assumes "shared_view (b, m, c) = shared_view (b1, m1, c1)" "\<And>i. x \<noteq> Client_set_obj i"
  shows "map_sum id shared_view (client_step None nr x (b, m, c)) =
    map_sum id shared_view (v1_client_step nr x (b1, m1, c1))"
proof -
  obtain n1 s1 l1 w1 r1 p1 q1 t1 where c1: "c1 = \<lparr>channel = n1, singleThreadedAccess = s1, channel_lock = l1,
      writeRequestSize = w1, readRequestSize = r1, request_portal = p1, indication_portal = q1, trace = t1\<rparr>"
    by (cases c1)
  obtain t where c: "c = c1\<lparr>trace := t\<rparr>" "map any_timeout t = map any_timeout t1"
    using assms(1) by (cases c) (auto simp: shared_view_def c1)
  have b: "bsize b1 = bsize b" "fd b1 = fd b" "ref b1 = ref b" "m1 = m"
    using assms(1) by (auto simp: shared_view_def dma_buffer.defs)
  show ?thesis
    using assms(2) b c(2)
    by (cases x; cases "s1 \<or> \<not> l1")
      (auto simp: c c1 shared_view_def dma_buffer.defs channel_op_defs with_lock_def on_channel_def emit_ev_def event_None
        reference_def v1_reference_def dereference_def v1_dereference_def initDmaManager_def v1_initDmaManager_def Let_def)
qed

lemma client_run_versions:
  fixes c c1 :: dma_channel
  assumes "shared_view (b, m, c) = shared_view (b1, m1, c1)" "\<And>i. Client_set_obj i \<notin> set xs"
  shows "map_sum id shared_view (client_run (client_step None nr) xs (b, m, c)) =
    map_sum id shared_view (client_run (v1_client_step nr) xs (b1, m1, c1))"
  using assms
proof (induction xs arbitrary: b m c b1 m1 c1)
  case (Cons x xs)
  note step = client_step_versions [OF Cons.prems(1), of x nr]
  show ?case
  proof (cases "client_step None nr x (b, m, c)")
    case (Inl e)
    with step Cons.prems(2) show ?thesis by (cases "v1_client_step nr x (b1, m1, c1)") auto
  next
    case (Inr s)
    with step Cons.prems(2) obtain s1 where "v1_client_step nr x (b1, m1, c1) = Inr s1" "shared_view s = shared_view s1"
      by (cases "v1_client_step nr x (b1, m1, c1)") auto
    with Inr Cons.IH [of "fst s" "fst (snd s)" "snd (snd s)" "fst s1" "fst (snd s1)" "snd (snd s1)"] Cons.prems(2)
    show ?thesis by simp
  qed
qed simp

text \<open>The request sizes sent on a channel.\<close>

definition sizes_ok :: "'c dma_channel_scheme \<Rightarrow> bool" where
  "sizes_ok c \<longleftrightarrow> (\<forall>w. Req_writeRequestSize w \<in> set (trace c) \<or> Req_readRequestSize w \<in> set (trace c) \<longrightarrow> w \<le> 1024)"

text \<open>
  Callbacks that touch the channel through its methods only: on a channel they have entered they make no
  lock operation, and they send no request size above the limit.
\<close>

definition proper_callbacks :: "'c dma_channel_scheme dma_callbacks option \<Rightarrow> bool" where
  "proper_callbacks cb \<longleftrightarrow> dma_callbacks_ok cb \<and>
     (\<forall>i c c'. entered c \<longrightarrow> sizes_ok c \<longrightarrow> dma_indication_done cb i c = Inr c' \<longrightarrow> sizes_ok c')"

lemma proper_None: "proper_callbacks None"
  unfolding proper_callbacks_def
proof (intro conjI allI impI)
  fix i and c c' :: "'a dma_channel_scheme"
  assume "sizes_ok c" "dma_indication_done None i c = Inr c'"
  then show "sizes_ok c'" by (cases i) auto
qed simp

lemma dma_event_sizes:
  assumes "proper_callbacks cb" "entered c" "sizes_ok c" "dma_event cb inds c = Inr c'"
  shows "sizes_ok c'"
  using assms(2-4)
proof (induction inds arbitrary: c)
  case (Cons i inds)
  then obtain c1 where c1: "dma_indication_done cb i c = Inr c1" "dma_event cb inds c1 = Inr c'"
    by (auto simp: and_then_eq_Inr)
  with assms(1) Cons.prems(1,2) have "plain_ext c c1" "sizes_ok c1"
    unfolding proper_callbacks_def dma_callbacks_ok_def by blast+
  with Cons.IH [OF _ _ c1(2)] Cons.prems(1) show ?case by (simp add: plain_ext_entered)
qed simp

lemma sizes_ok_simps [simp]:
  "sizes_ok (emit_ev es c) \<longleftrightarrow> sizes_ok c \<and> (\<forall>w. Req_writeRequestSize w \<in> set es \<or> Req_readRequestSize w \<in> set es \<longrightarrow> w \<le> 1024)"
  "sizes_ok (c\<lparr>channel_lock := l\<rparr>) = sizes_ok c"
  by (auto simp: sizes_ok_def emit_ev_def)

lemma checkIndications_sizes:
  assumes "proper_callbacks cb" "sizes_ok c" "checkIndications cb rc inds c = Inr (v, c')"
  shows "sizes_ok c'"
proof -
  have body: "sizes_ok d'"
    if "entered d" "sizes_ok d" "(let c = emit_ev [Poll_fn (- 1)] d
      in if rc \<ge> 0 then and_then (dma_event cb inds (emit_ev [Poll_event] c)) (\<lambda>c. Inr ((), c)) else Inr ((), c)) = Inr (v, d')"
    for d d'
  proof (cases "rc \<ge> 0")
    case True
    let ?d = "emit_ev [Poll_event] (emit_ev [Poll_fn (- 1)] d)"
    have "entered ?d" using that(1) by (simp add: entered_def emit_ev_def)
    moreover have "sizes_ok ?d" using that(2) by simp
    moreover have "dma_event cb inds ?d = Inr d'" using that(3) True by (simp add: Let_def and_then_eq_Inr)
    ultimately show ?thesis by (rule dma_event_sizes [OF assms(1)])
  next
    case False
    with that(2,3) show ?thesis by (auto simp: Let_def)
  qed
  show ?thesis
  proof (cases "singleThreadedAccess c")
    case True
    with body [of c] assms(2,3) show ?thesis by (auto simp: checkIndications_def with_lock_def entered_def)
  next
    case False
    let ?c = "emit_ev [Mutex_lock] (c\<lparr>channel_lock := True\<rparr>)"
    have "entered ?c" by (simp add: entered_def emit_ev_def)
    moreover have "sizes_ok ?c" using assms(2) by simp
    moreover note assms(3)
    ultimately show ?thesis using body [of ?c] False
      by (auto simp: checkIndications_def with_lock_def and_then_eq_Inr Let_def split: if_splits)
  qed
qed

lemma client_step_sizes:
  assumes "proper_callbacks cb" "sizes_ok c" "client_step cb nr x (b, m, c) = Inr (b', m', c')"
  shows "sizes_ok c'"
proof (cases x)
  case (Client_check rc inds)
  with assms(3) obtain v where "checkIndications cb rc inds c = Inr (v, c')" by (auto simp: on_channel_def and_then_eq_Inr)
  from checkIndications_sizes [OF assms(1,2) this] show ?thesis .
qed (use assms(2,3) in \<open>auto simp: sizes_ok_def channel_op_defs with_lock_def on_channel_def emit_ev_def Let_def
      and_then_eq_Inr split: if_splits prod.splits\<close>)

lemma client_run_sizes:
  assumes "proper_callbacks cb"
  shows "sizes_ok c \<Longrightarrow> client_run (client_step cb nr) xs (b, m, c) = Inr (b', m', c') \<Longrightarrow> sizes_ok c'"
proof (induction xs arbitrary: b m c)
  case (Cons x xs)
  then obtain b1 m1 c1 where "client_step cb nr x (b, m, c) = Inr (b1, m1, c1)"
      "client_run (client_step cb nr) xs (b1, m1, c1) = Inr (b', m', c')" by (auto simp: and_then_eq_Inr)
  with Cons client_step_sizes [OF assms] show ?case by blast
qed simp

section \<open>Properties\<close>

text \<open>
  C26. However often a buffer is referenced and dereferenced, the DMA manager holds exactly the
  reference the buffer holds, so a buffer is mapped at most once and never left mapped by its
  destructor; and a buffer that is already referenced answers the same number without another
  call of the manager.
\<close>

theorem buffer_references_balanced:
  assumes "\<And>m f. new_ref m f \<noteq> - 1"
  shows "let s = buffer_run new_ref xs (DmaBuffer_new sz f, \<lparr>mgr = has_mgr, calls = []\<rparr>)
    in held_refs (calls (snd s)) = (if ref (fst s) = - 1 then [] else [ref (fst s)]) \<and>
       held_refs (calls (DmaBuffer_delete (fst s) (snd s))) = [] \<and>
       (ref (fst s) \<noteq> - 1 \<longrightarrow> reference new_ref (fst s) (snd s) = (of_int (ref (fst s)), s))"
proof -
  have "refs_ok (DmaBuffer_new sz f, \<lparr>mgr = has_mgr, calls = []\<rparr>)"
    by (simp add: refs_ok_def DmaBuffer_new_def held_refs_def)
  from buffer_run_refs [OF assms this, where xs = xs] show ?thesis
    by (auto simp: Let_def refs_ok_def DmaBuffer_delete_def dereference_def held_refs_snoc reference_def
        initDmaManager_def)
qed

theorem buffer_references_balanced_witness:
  "held_refs (calls (DmaBuffer_delete (DmaBuffer_new 4096 5) \<lparr>mgr = False, calls = []\<rparr>)) = [] \<and>
   held_refs (calls (snd (buffer_run (\<lambda>_ _. 7) [Op_reference, Op_reference] (DmaBuffer_new 4096 5, \<lparr>mgr = False, calls = []\<rparr>)))) = [7]"
  using buffer_references_balanced [of "\<lambda>_ _. 7" "[]" 4096 5 False]
    buffer_references_balanced [of "\<lambda>_ _. 7" "[Op_reference, Op_reference]" 4096 5 False]
  by (simp add: Let_def reference_def initDmaManager_def DmaBuffer_new_def)

text \<open>
  \<^verbatim>\<open>setLen\<close> on a buffer whose size is a multiple of sixteen: the length written into the
  buffer is the requested one cut to what fits behind the sixteen-byte header, and the
  transfer length covers header and data, is a multiple of sixteen and stays inside the
  buffer, with less than sixteen bytes of padding.
\<close>

theorem setLen_fits_buffer:
  assumes "bsize b mod 16 = 0" "16 \<le> bsize b" "bsize b < 2 ^ 31" "0 \<le> l"
  shows "let b' = setLen l b; n = sint (getLen b'); w = sint (len_word b')
    in w = min l (bsize b - 16) \<and> 16 + w \<le> n \<and> n < 16 + w + 16 \<and> n mod 16 = 0 \<and> n \<le> bsize b"
proof -
  define w where "w = min l (bsize b - 16)"
  define n where "n = 16 + (if w mod 16 = 0 then w else (w div 16 + 1) * 16)"
  have w: "0 \<le> w" "w \<le> bsize b - 16" using assms(2,4) by (simp_all add: w_def)
  have wd: "w = w div 16 * 16 + w mod 16" "0 \<le> w mod 16" "w mod 16 < 16" by simp_all
  have n: "16 + w \<le> n \<and> n < 16 + w + 16"
  proof (cases "w mod 16 = 0")
    case False
    then have pos: "0 < w mod 16" using wd(2) by simp
    obtain q r where qr: "w div 16 = q" "w mod 16 = r" by simp
    have "16 + w \<le> 16 + (q + 1) * 16 \<and> 16 + (q + 1) * 16 < 16 + w + 16"
      using wd pos unfolding qr by auto
    with False qr show ?thesis by (simp add: n_def)
  qed (simp add: n_def)
  have n16: "n mod 16 = 0" by (simp add: n_def)
  have "n \<le> bsize b"
  proof (rule ccontr)
    assume "\<not> n \<le> bsize b"
    with n w(2) have "0 < n - bsize b" "n - bsize b < 16" by simp_all
    moreover have "(n - bsize b) mod 16 = 0" using n16 assms(1) by (simp add: mod_diff_eq [symmetric])
    ultimately show False by simp
  qed
  moreover have s: "sint (of_int w :: u32) = w" "sint (of_int n :: u32) = n"
    using w n assms(3) \<open>n \<le> bsize b\<close> by (simp_all add: signed_of_int signed_take_bit_int_eq_self)
  moreover have "len_word (setLen l b) = of_int w" "getLen (setLen l b) = of_int n"
    using w(1) assms(2,4) by (auto simp: setLen_def getLen_def Let_def rem_c_def w_def n_def min_def)
  ultimately show ?thesis using n n16 by (simp add: Let_def w_def)
qed

theorem setLen_fits_buffer_witness:
  "sint (getLen (setLen 100 (DmaBuffer_new 4096 5))) = 128 \<and> sint (getLen (setLen 5000 (DmaBuffer_new 4096 5))) \<le> 4096"
  using setLen_fits_buffer [of "DmaBuffer_new 4096 5" 100] setLen_fits_buffer [of "DmaBuffer_new 4096 5" 5000]
  by (simp add: DmaBuffer_new_def Let_def) (simp add: setLen_def getLen_def Let_def rem_c_def)

text \<open>
  C27. Any sequence of calls on a new channel, each made after the one before has returned, and with
  whatever indications its polls find: when it returns, every request and
  every poll was made under the channel's lock, which was taken and released in turn and is free again;
  on a channel of a single thread the lock was never touched; and no request size sent to the device exceeds 1024 bytes.
  It returns when the channel has no callbacks or no poll is among the calls.  (Waits of polls are taken to end, and the
  callbacks to touch the channel through its own methods only.)
\<close>

theorem channel_calls_are_locked:
  assumes "DmaChannel_new n single m0 = Inr (c, m)" "proper_callbacks cb"
  shows "(\<forall>b' m' c'. client_run (client_step cb new_ref) xs (b, m, c) = Inr (b', m', c') \<longrightarrow>
      (\<exists>es. trace c' = trace c @ es \<and> lock_ok (\<not> single) False es) \<and> \<not> channel_lock c' \<and>
      (\<forall>w. Req_writeRequestSize w \<in> set (trace c') \<or> Req_readRequestSize w \<in> set (trace c') \<longrightarrow> w \<le> 1024)) \<and>
    (cb = None \<or> (\<forall>rc inds. Client_check rc inds \<notin> set xs) \<longrightarrow>
      (\<exists>b' m' c'. client_run (client_step cb new_ref) xs (b, m, c) = Inr (b', m', c')))"
proof -
  have c: "singleThreadedAccess c = single" "\<not> channel_lock c" "sizes_ok c"
    using assms(1) by (auto simp: DmaChannel_new_def Let_def sizes_ok_def split: if_splits)
  have cb: "dma_callbacks_ok cb" using assms(2) by (simp add: proper_callbacks_def)
  note locked = client_run_locked [OF c(2) cb, where xs = xs and nr = new_ref and b = b and m = m]
  have "(\<exists>es. trace c' = trace c @ es \<and> lock_ok (\<not> single) False es) \<and> \<not> channel_lock c' \<and> sizes_ok c'"
    if "client_run (client_step cb new_ref) xs (b, m, c) = Inr (b', m', c')" for b' m' c'
    using locked(1) [OF that] client_run_sizes [OF assms(2) c(3) that] c(1,2) by (auto simp: locked_ext_def)
  with locked(2) show ?thesis by (auto simp: sizes_ok_def)
qed

theorem channel_calls_are_locked_witness:
  "\<exists>c m b' m' c' es. DmaChannel_new 2 False \<lparr>mgr = False, calls = []\<rparr> = Inr (c, m) \<and>
     client_run (client_step None (\<lambda>_ _. 7)) [Client_set_write 4096, Client_to 0 64 1, Client_check 0 [Sent 1]] (DmaBuffer_new 4096 5, m, c) =
       Inr (b', m', c') \<and> trace c' = trace c @ es \<and> lock_ok True False es"
proof -
  obtain c m where c: "DmaChannel_new 2 False \<lparr>mgr = False, calls = []\<rparr> = Inr (c, m)"
    by (simp add: DmaChannel_new_def proxyNames_def wrapperNames_def Let_def)
  from channel_calls_are_locked [OF c proper_None, where xs = "[Client_set_write 4096, Client_to 0 64 1, Client_check 0 [Sent 1]]" and
      new_ref = "\<lambda>_ _. 7" and b = "DmaBuffer_new 4096 5"] c show ?thesis by (simp only: not_False_eq_True) blast
qed

text \<open>
  C28. The current library does for a client of the first one what the first one did: started on
  the same buffer and channel, made without callbacks, any sequence of the calls both have, in which polls find no
  indications, ends the same way, with the
  same calls of the DMA manager, the same reference in the buffer, the same requests and lock
  operations in the same order, up to the time limit of the polls.  (Indications differ between the
  versions, and without callbacks do nothing in either.)
\<close>

theorem versions_agree:
  assumes "\<And>i. Client_set_obj i \<notin> set xs" "\<And>rc inds. Client_check rc inds \<in> set xs \<Longrightarrow> inds = []"
    and "v1_DmaChannel_new n single m0 = Inr (c, m)"
  shows "DmaChannel_new n single m0 = Inr (c, m) \<and>
    map_sum id shared_view (client_run (client_step None new_ref) xs (DmaBuffer_new sz f, m, c)) =
    map_sum id shared_view (client_run (v1_client_step new_ref) xs (v1_DmaBuffer_new sz f, m, c))"
proof
  show "DmaChannel_new n single m0 = Inr (c, m)"
    using assms(3) by (simp add: DmaChannel_new_def v1_DmaChannel_new_def initDmaManager_def v1_initDmaManager_def)
  have "shared_view (DmaBuffer_new sz f, m, c) = shared_view (v1_DmaBuffer_new sz f, m, c)"
    by (simp add: shared_view_def DmaBuffer_new_def v1_DmaBuffer_new_def dma_buffer.defs)
  then show "map_sum id shared_view (client_run (client_step None new_ref) xs (DmaBuffer_new sz f, m, c)) =
    map_sum id shared_view (client_run (v1_client_step new_ref) xs (v1_DmaBuffer_new sz f, m, c))"
    by (rule client_run_versions) (use assms(1) in auto)
qed

theorem versions_agree_witness:
  "\<exists>c m. v1_DmaChannel_new 1 True \<lparr>mgr = False, calls = []\<rparr> = Inr (c, m) \<and>
    map_sum id shared_view (client_run (client_step None (\<lambda>_ _. 7)) [Client_to 0 64 1, Client_check 0 []] (DmaBuffer_new 4096 5, m, c)) =
    map_sum id shared_view (client_run (v1_client_step (\<lambda>_ _. 7)) [Client_to 0 64 1, Client_check 0 []] (v1_DmaBuffer_new 4096 5, m, c))"
proof -
  obtain c m where c: "v1_DmaChannel_new 1 True \<lparr>mgr = False, calls = []\<rparr> = Inr (c, m)"
    by (simp add: v1_DmaChannel_new_def proxyNames_def wrapperNames_def Let_def)
  with versions_agree [OF _ _ c, where xs = "[Client_to 0 64 1, Client_check 0 []]"] show ?thesis by auto
qed

text \<open>Callbacks that answer the completion of a transfer with the next transfer.\<close>

definition v1_resend :: "int \<Rightarrow> u32 \<Rightarrow> u32 \<Rightarrow> 'c dma_channel_scheme callbacks" where
  "v1_resend v objId bytes =
     \<lparr>cb_transferToFpgaDone = (\<lambda>sglId base tag cycles c. map_sum id snd (v1_transferToFpga v objId 0 bytes tag c)),
      cb_transferFromFpgaDone = (\<lambda>sglId base tag cycles c. Inr c)\<rparr>"

definition resend :: "mgr_reference \<Rightarrow> int \<Rightarrow> u32 \<Rightarrow> dma_len_buffer \<times> dma_lib \<Rightarrow> 'c dma_channel_scheme dma_callbacks" where
  "resend new_ref v bytes bm =
     \<lparr>on_transferToFpgaDone = (\<lambda>tag c. map_sum id snd (transferToFpga new_ref v 0 bytes tag bm c)),
      on_transferFromFpgaDone = (\<lambda>sglId len c. Inr c)\<rparr>"

text \<open>
  Callbacks run under the channel's lock: on a shared channel a completion whose callback
  sends another transfer never returns, because the thread waits for the lock it holds; on a
  channel of a single thread the transfer is sent from within the poll.  This holds for both
  versions of the library.
\<close>

theorem shared_callback_deadlocks:
  assumes "rc \<ge> 0" "\<not> channel_lock c"
  shows "v1_checkIndications (Some (v1_resend v objId bytes)) rc [To_done sglId base t cycles] c =
      (if singleThreadedAccess c
       then Inr ((), emit_ev [Poll_fn 100, Poll_event, Req_transferToFpga objId 0 bytes t] c)
       else Inl Deadlock) \<and>
    checkIndications (Some (resend new_ref v bytes bm)) rc [Sent t] c =
      (if singleThreadedAccess c
       then Inr ((), emit_ev [Poll_fn (- 1), Poll_event,
                       Req_transferToFpga (fst (reference new_ref (fst bm) (snd bm))) 0 bytes t] c)
       else Inl Deadlock)"
proof (cases "singleThreadedAccess c")
  case True
  with assms show ?thesis
    by (simp add: v1_resend_def resend_def v1_checkIndications_def checkIndications_def with_lock_def Let_def
        v1_transferToFpgaDone_def v1_transferToFpga_def transferToFpga_def emit_ev_def case_prod_unfold)
next
  case False
  let ?l = "\<lambda>t. emit_ev [Poll_event] (emit_ev [Poll_fn t] (emit_ev [Mutex_lock] (c\<lparr>channel_lock := True\<rparr>)))"
  have "v1_transferToFpga v objId 0 bytes t (?l 100) = Inl Deadlock"
    by (rule v1_to.operation_held) (simp_all add: False emit_ev_def)
  moreover have "transferToFpga new_ref v 0 bytes t bm (?l (- 1)) = Inl Deadlock"
    by (rule toFpga.operation_held) (simp_all add: False emit_ev_def)
  ultimately show ?thesis
    using assms False
    by (simp add: v1_resend_def resend_def v1_checkIndications_def checkIndications_def with_lock_def Let_def
        v1_transferToFpgaDone_def)
qed

theorem shared_callback_deadlocks_witness:
  "\<exists>c m. v1_DmaChannel_new 0 False \<lparr>mgr = True, calls = []\<rparr> = Inr (c, m) \<and>
     v1_checkIndications (Some (v1_resend 0 7 64)) 0 [To_done 7 0 3 100] c = Inl Deadlock"
proof -
  obtain c m where c: "v1_DmaChannel_new 0 False \<lparr>mgr = True, calls = []\<rparr> = Inr (c, m)"
    by (simp add: v1_DmaChannel_new_def proxyNames_def wrapperNames_def Let_def)
  then have "\<not> channel_lock c" "\<not> singleThreadedAccess c" by (auto simp: v1_DmaChannel_new_def Let_def split: if_splits)
  with c shared_callback_deadlocks [of 0 c 0 7 64 7 0 3 100] show ?thesis by auto
qed

end
