(* ===== verification/Channel_Worker.thy ===== *)
theory Channel_Worker
  imports Complex_Main Dmac_First C_Text
begin

text \<open>
  The worker of the DMA exerciser (\<^verbatim>\<open>src/dmac/cpp/testdma.cpp\<close>), a client of the first version of
  the library: command-line options, and a worker that keeps one transfer in flight on its
  channel and starts the next from the completion callback, inside the poll.  What each poll
  delivers is an argument.  Messages are not modelled; the figures they print are, because
  computing them can trap.
\<close>

section \<open>Options\<close>

record dma_config =
  arraySize :: int
  doWrite :: int
  doRead :: int
  numchannels :: int
  numIters :: int
  writeReqBytes :: int
  readReqBytes :: int

definition default_config :: dma_config where
  "default_config = \<lparr>arraySize = 128 * 1024, doWrite = 1, doRead = 1, numchannels = 4, numIters = 10,
     writeReqBytes = 256, readReqBytes = 256\<rparr>"

text \<open>Assignment of an unsigned long to an \<^verbatim>\<open>int\<close>, and multiplication of an \<^verbatim>\<open>int\<close>.\<close>

definition to_int :: "u64 \<Rightarrow> int" where
  "to_int v = sint (ucast v :: u32)"

definition mul_int :: "int \<Rightarrow> int \<Rightarrow> int" where
  "mul_int a b = sint (of_int (a * b) :: u32)"

text \<open>One option as \<^verbatim>\<open>getopt\<close> reports it; \<open>None\<close> is the exit with the usage message.\<close>

definition dma_option :: "char \<times> string \<Rightarrow> dma_config \<Rightarrow> dma_config option" where
  "dma_option x cfg =
     (let (opt, optarg) = x
      in if opt = CHR ''r'' then Some (cfg\<lparr>doWrite := 0\<rparr>)
         else if opt = CHR ''w'' then Some (cfg\<lparr>doRead := 0\<rparr>)
         else if opt = CHR ''b'' \<or> opt = CHR ''W''
         then let v = to_int (fst (strtoul optarg)) in Some (cfg\<lparr>writeReqBytes := if v > 1024 then 1024 else v\<rparr>)
         else if opt = CHR ''R''
         then let v = to_int (fst (strtoul optarg)) in Some (cfg\<lparr>readReqBytes := if v > 1024 then 1024 else v\<rparr>)
         else if opt = CHR ''i'' then Some (cfg\<lparr>numIters := to_int (fst (strtoul optarg))\<rparr>)
         else if opt = CHR ''s''
         then let (v, endptr) = strtoul optarg; n = to_int v
              in Some (cfg\<lparr>arraySize :=
                   if take 1 endptr = ''K'' then mul_int n 1024
                   else if take 1 endptr = ''M'' then mul_int n (1024 * 1024) else n\<rparr>)
         else if opt = CHR ''n'' then Some (cfg\<lparr>numchannels := to_int (fst (strtoul optarg))\<rparr>)
         else None)"

fun dma_options :: "(char \<times> string) list \<Rightarrow> dma_config \<Rightarrow> dma_config option" where
  "dma_options [] cfg = Some cfg"
| "dma_options (x # xs) cfg = Option.bind (dma_option x cfg) (dma_options xs)"

section \<open>The worker\<close>

text \<open>
  A worker owns its channel, so its fields extend the channel's.  \<open>lib\<close> is the state of the
  library's manager, which all workers share.
\<close>

record worker = dma_channel +
  channelNumber :: int
  numReads :: int
  numWrites :: int
  waitCount :: int
  buffers :: "dma_buffer list"
  lib :: dma_lib

definition ChannelWorker_new :: "dma_config \<Rightarrow> (nat \<Rightarrow> int) \<Rightarrow> dma_lib \<Rightarrow> int \<Rightarrow> stop + worker" where
  "ChannelWorker_new cfg fds m n =
     and_then (v1_DmaChannel_new n True m)
       (\<lambda>(c, m). Inr (dma_channel.extend c
          (worker.fields n 0 0 0 (map (\<lambda>i. v1_DmaBuffer_new (arraySize cfg) (fds i)) [0..<4]) m)))"

text \<open>Integer division of C: truncated, with the two operands that trap.\<close>

definition div_int :: "int \<Rightarrow> int \<Rightarrow> stop + int" where
  "div_int a b =
     (if b = 0 \<or> a = - (2 ^ 31) \<and> b = - 1 then Inl Division_trap
      else Inr (sgn a * sgn b * (\<bar>a\<bar> div \<bar>b\<bar>)))"

text \<open>The doubles are reals here; a quotient by zero cycles is printed as infinity by the program.\<close>

definition linkUtilization :: "dma_config \<Rightarrow> int \<Rightarrow> int \<Rightarrow> stop + real" where
  "linkUtilization cfg cycles inclHeaders =
     (let dataBeats = real_of_int (arraySize cfg) / 16
      in and_then (if inclHeaders \<noteq> 0 then div_int (arraySize cfg) (writeReqBytes cfg) else Inr 0)
           (\<lambda>headerBeats. let totalBeats = dataBeats + real_of_int headerBeats
                           in Inr (totalBeats / real_of_int (- cycles))))"

text \<open>The figures of a completion message.\<close>

definition report_utilization :: "dma_config \<Rightarrow> u32 \<Rightarrow> stop + real \<times> real" where
  "report_utilization cfg cycles =
     and_then (linkUtilization cfg (sint cycles) 0) (\<lambda>bandwidth.
     and_then (linkUtilization cfg (sint cycles) 1) (\<lambda>utilization.
       Inr (16 * 250 * bandwidth, 100 * utilization)))"

definition request_to :: "mgr_reference \<Rightarrow> dma_config \<Rightarrow> worker \<Rightarrow> stop + worker" where
  "request_to new_ref cfg w =
     (let (r, b, m) = v1_reference new_ref (buffers w ! 0) (lib w);
          w = w\<lparr>buffers := (buffers w)[0 := b], lib := m\<rparr>
      in map_sum id snd (v1_transferToFpga 0 r 0 (of_int (arraySize cfg)) (of_int (channelNumber w)) w))"

definition request_from :: "mgr_reference \<Rightarrow> dma_config \<Rightarrow> worker \<Rightarrow> stop + worker" where
  "request_from new_ref cfg w =
     (let (r, b, m) = v1_reference new_ref (buffers w ! 1) (lib w);
          w = w\<lparr>buffers := (buffers w)[1 := b], lib := m\<rparr>
      in map_sum id snd (v1_transferFromFpga 0 r 0 (of_int (arraySize cfg)) (of_int (channelNumber w)) w))"

definition transferToFpgaDone ::
  "mgr_reference \<Rightarrow> dma_config \<Rightarrow> u32 \<Rightarrow> u32 \<Rightarrow> u8 \<Rightarrow> u32 \<Rightarrow> worker \<Rightarrow> stop + worker" where
  "transferToFpgaDone new_ref cfg sglId base tag cycles w =
     and_then (report_utilization cfg cycles) (\<lambda>_.
       if numReads w \<noteq> 0
       then map_sum id (\<lambda>w. w\<lparr>numReads := numReads w - 1\<rparr>) (request_to new_ref cfg w)
       else Inr (w\<lparr>waitCount := waitCount w - 1\<rparr>))"

definition transferFromFpgaDone ::
  "mgr_reference \<Rightarrow> dma_config \<Rightarrow> u32 \<Rightarrow> u32 \<Rightarrow> u8 \<Rightarrow> u32 \<Rightarrow> worker \<Rightarrow> stop + worker" where
  "transferFromFpgaDone new_ref cfg sglId base tag cycles w =
     and_then (report_utilization cfg cycles) (\<lambda>_.
       if numWrites w \<noteq> 0
       then map_sum id (\<lambda>w. w\<lparr>numWrites := numWrites w - 1\<rparr>) (request_from new_ref cfg w)
       else Inr (w\<lparr>waitCount := waitCount w - 1\<rparr>))"

definition worker_callbacks :: "mgr_reference \<Rightarrow> dma_config \<Rightarrow> worker callbacks" where
  "worker_callbacks new_ref cfg =
     \<lparr>cb_transferToFpgaDone = transferToFpgaDone new_ref cfg,
      cb_transferFromFpgaDone = transferFromFpgaDone new_ref cfg\<rparr>"

text \<open>One poll of the waiting loop: \<open>None\<close> when it fails, otherwise the messages it delivers.\<close>

definition poll :: "mgr_reference \<Rightarrow> dma_config \<Rightarrow> indication list option \<Rightarrow> worker \<Rightarrow> stop + worker" where
  "poll new_ref cfg p w =
     map_sum id snd (case p of
       None \<Rightarrow> v1_checkIndications (Some (worker_callbacks new_ref cfg)) (- 1) [] w
     | Some inds \<Rightarrow> v1_checkIndications (Some (worker_callbacks new_ref cfg)) 0 inds w)"

text \<open>The waiting loop, over the polls that happen.\<close>

fun wait_loop :: "mgr_reference \<Rightarrow> dma_config \<Rightarrow> indication list option list \<Rightarrow> worker \<Rightarrow> stop + worker" where
  "wait_loop new_ref cfg [] w = (if waitCount w > 0 then Inl Still_waiting else Inr w)"
| "wait_loop new_ref cfg (p # ps) w =
     (if waitCount w > 0 then and_then (poll new_ref cfg p w) (wait_loop new_ref cfg ps) else Inr w)"

text \<open>The state in which the loop is left, or still waits, when those polls are over.\<close>

fun wait_state :: "mgr_reference \<Rightarrow> dma_config \<Rightarrow> indication list option list \<Rightarrow> worker \<Rightarrow> stop + worker" where
  "wait_state new_ref cfg [] w = Inr w"
| "wait_state new_ref cfg (p # ps) w =
     (if waitCount w > 0 then and_then (poll new_ref cfg p w) (wait_state new_ref cfg ps) else Inr w)"

text \<open>One iteration of the loop of \<^verbatim>\<open>run\<close>: its first requests, and the whole iteration.\<close>

definition enter_phase :: "mgr_reference \<Rightarrow> dma_config \<Rightarrow> nat \<Rightarrow> worker \<Rightarrow> stop + worker" where
  "enter_phase new_ref cfg i w =
     (let w = (if i = 0 \<and> doRead cfg \<noteq> 0 then w\<lparr>numReads := numIters cfg, numWrites := 0\<rparr>
               else if i = 1 \<and> doWrite cfg \<noteq> 0 then w\<lparr>numReads := 0, numWrites := numIters cfg\<rparr>
               else w\<lparr>numReads := 0, numWrites := 0\<rparr>)
      in and_then
           (if numReads w \<noteq> 0
            then map_sum id (\<lambda>w. w\<lparr>waitCount := waitCount w + 1, numReads := numReads w - 1\<rparr>) (request_to new_ref cfg w)
            else Inr w)
           (\<lambda>w. if numWrites w \<noteq> 0
                 then map_sum id (\<lambda>w. w\<lparr>waitCount := waitCount w + 1, numWrites := numWrites w - 1\<rparr>) (request_from new_ref cfg w)
                 else Inr w))"

definition run_phase :: "mgr_reference \<Rightarrow> dma_config \<Rightarrow> nat \<Rightarrow> indication list option list \<Rightarrow> worker \<Rightarrow> stop + worker" where
  "run_phase new_ref cfg i polls w =
     map_sum id (\<lambda>w. w\<lparr>waitCount := 0\<rparr>) (and_then (enter_phase new_ref cfg i w) (wait_loop new_ref cfg polls))"

text \<open>The worker in the middle of an iteration, after some polls.\<close>

definition phase_state :: "mgr_reference \<Rightarrow> dma_config \<Rightarrow> nat \<Rightarrow> indication list option list \<Rightarrow> worker \<Rightarrow> stop + worker" where
  "phase_state new_ref cfg i polls w = and_then (enter_phase new_ref cfg i w) (wait_state new_ref cfg polls)"

definition set_sizes :: "dma_config \<Rightarrow> worker \<Rightarrow> stop + worker" where
  "set_sizes cfg w =
     and_then (v1_setWriteRequestSize (writeReqBytes cfg) w) (\<lambda>(_, w).
       map_sum id snd (v1_setReadRequestSize (readReqBytes cfg) w))"

definition run ::
  "mgr_reference \<Rightarrow> dma_config \<Rightarrow> indication list option list \<Rightarrow> indication list option list \<Rightarrow> worker \<Rightarrow> stop + worker" where
  "run new_ref cfg polls0 polls1 w =
     and_then (set_sizes cfg w) (\<lambda>w.
     and_then (run_phase new_ref cfg 0 polls0 w) (run_phase new_ref cfg 1 polls1))"

section \<open>Counting requests\<close>

fun is_to :: "chan_event \<Rightarrow> bool" where
  "is_to (Req_transferToFpga a b c d) = True" | "is_to _ = False"

fun is_from :: "chan_event \<Rightarrow> bool" where
  "is_from (Req_transferFromFpga a b c d) = True" | "is_from _ = False"

definition tos :: "worker \<Rightarrow> nat" where
  "tos w = length (filter is_to (trace w))"

definition froms :: "worker \<Rightarrow> nat" where
  "froms w = length (filter is_from (trace w))"

text \<open>The part of the state the transfers' bookkeeping depends on.\<close>

definition book :: "worker \<Rightarrow> int \<times> int \<times> int \<times> nat \<times> nat \<times> bool" where
  "book w = (numReads w, numWrites w, waitCount w, tos w, froms w, singleThreadedAccess w)"

lemmas book_defs = book_def tos_def froms_def

lemma request_to_book:
  assumes "singleThreadedAccess w"
  obtains w' where "request_to nr cfg w = Inr w'" "tos w' = Suc (tos w)"
    "book w' = (numReads w, numWrites w, waitCount w, Suc (tos w), froms w, True)"
  using assms
  by (cases "v1_reference nr (buffers w ! 0) (lib w)")
    (simp add: request_to_def v1_to.operation_single emit_ev_def book_defs)

lemma request_from_book:
  assumes "singleThreadedAccess w"
  obtains w' where "request_from nr cfg w = Inr w'"
    "book w' = (numReads w, numWrites w, waitCount w, tos w, Suc (froms w), True)"
  using assms
  by (cases "v1_reference nr (buffers w ! 1) (lib w)")
    (simp add: request_from_def v1_from.operation_single emit_ev_def book_defs)

lemma set_sizes_book:
  assumes "singleThreadedAccess w"
  obtains w' where "set_sizes cfg w = Inr w'" "book w' = book w"
  using assms by (simp add: set_sizes_def v1_setWrite.operation_single v1_setRead.operation_single emit_ev_def book_defs Let_def)

text \<open>The figures of a completion can be computed.\<close>

definition no_trap :: "dma_config \<Rightarrow> bool" where
  "no_trap cfg \<longleftrightarrow> writeReqBytes cfg \<noteq> 0 \<and> \<not> (arraySize cfg = - (2 ^ 31) \<and> writeReqBytes cfg = - 1)"

lemma report_utilization_iff: "(\<exists>r. report_utilization cfg cycles = Inr r) \<longleftrightarrow> no_trap cfg"
  "\<not> no_trap cfg \<Longrightarrow> report_utilization cfg cycles = Inl Division_trap"
  by (auto simp: report_utilization_def linkUtilization_def div_int_def no_trap_def Let_def)

section \<open>One transfer in flight\<close>

text \<open>
  The two directions are treated alike: \<open>True\<close> is towards the device.  \<open>busy d k w\<close>: one transfer
  is in flight in direction \<open>d\<close> and \<open>k\<close> more are to come.
\<close>

definition sent :: "bool \<Rightarrow> worker \<Rightarrow> nat" where
  "sent d w = (if d then tos w else froms w)"

fun towards :: "indication \<Rightarrow> bool" where
  "towards (To_done _ _ _ _) = True" | "towards (From_done _ _ _ _) = False"

definition busy :: "bool \<Rightarrow> nat \<Rightarrow> worker \<Rightarrow> bool" where
  "busy d k w \<longleftrightarrow> numReads w = (if d then int k else 0) \<and> numWrites w = (if d then 0 else int k) \<and>
     waitCount w = 1 \<and> singleThreadedAccess w"

definition settled :: "worker \<Rightarrow> bool" where
  "settled w \<longleftrightarrow> numReads w = 0 \<and> numWrites w = 0 \<and> waitCount w = 0 \<and> singleThreadedAccess w"

text \<open>After \<open>j\<close> of the \<open>k + 1\<close> completions of a busy worker.\<close>

definition after :: "bool \<Rightarrow> nat \<Rightarrow> nat \<Rightarrow> worker \<Rightarrow> worker \<Rightarrow> bool" where
  "after d k j w w' \<longleftrightarrow> sent (\<not> d) w' = sent (\<not> d) w \<and>
     (if j = Suc k then settled w' \<and> sent d w' = sent d w + k
      else busy d (k - j) w' \<and> sent d w' = sent d w + j)"

abbreviation worker_event :: "mgr_reference \<Rightarrow> dma_config \<Rightarrow> indication list \<Rightarrow> worker \<Rightarrow> stop + worker" where
  "worker_event nr cfg \<equiv> v1_event (Some (worker_callbacks nr cfg))"

lemma worker_event_one:
  assumes "no_trap cfg" "busy d k w" "towards i = d"
  obtains w' where "worker_event nr cfg [i] w = Inr w'" "after d k 1 w w'"
proof -
  have st: "singleThreadedAccess w" using assms(2) by (simp add: busy_def)
  have r: "\<exists>r. report_utilization cfg cycles = Inr r" for cycles using report_utilization_iff(1) assms(1) by blast
  show thesis
  proof (cases i)
    case (To_done sglId base tag cycles)
    with assms(3) have d: "d" by simp
    obtain w1 where w1: "request_to nr cfg w = Inr w1"
      "book w1 = (numReads w, numWrites w, waitCount w, Suc (tos w), froms w, True)"
      by (rule request_to_book [OF st, of nr cfg])
    from r [of cycles] w1 To_done assms(2) d show thesis
      by (intro that [of "if numReads w \<noteq> 0 then w1\<lparr>numReads := numReads w1 - 1\<rparr> else w\<lparr>waitCount := waitCount w - 1\<rparr>"])
        (auto simp: v1_transferToFpgaDone_def worker_callbacks_def transferToFpgaDone_def after_def busy_def settled_def
          sent_def book_defs of_nat_diff)
  next
    case (From_done sglId base tag cycles)
    with assms(3) have d: "\<not> d" by simp
    obtain w1 where w1: "request_from nr cfg w = Inr w1"
      "book w1 = (numReads w, numWrites w, waitCount w, tos w, Suc (froms w), True)"
      by (rule request_from_book [OF st, of nr cfg])
    from r [of cycles] w1 From_done assms(2) d show thesis
      by (intro that [of "if numWrites w \<noteq> 0 then w1\<lparr>numWrites := numWrites w1 - 1\<rparr> else w\<lparr>waitCount := waitCount w - 1\<rparr>"])
        (auto simp: v1_transferFromFpgaDone_def worker_callbacks_def transferFromFpgaDone_def after_def busy_def settled_def
          sent_def book_defs of_nat_diff)
  qed
qed

lemma worker_event_Cons: "worker_event nr cfg (i # inds) w = and_then (worker_event nr cfg [i] w) (worker_event nr cfg inds)"
  by (cases i) (simp_all add: and_then_def split: sum.splits)

lemma after_0 [simp]: "after d k 0 w w' \<longleftrightarrow> sent (\<not> d) w' = sent (\<not> d) w \<and> busy d k w' \<and> sent d w' = sent d w"
  by (auto simp: after_def)

lemma after_step: "after d (Suc k) (Suc 0) w w1 \<Longrightarrow> after d k j w1 w2 \<Longrightarrow> after d (Suc k) (Suc j) w w2"
  by (auto simp: after_def split: if_splits)

lemma worker_event_busy:
  assumes "no_trap cfg" "busy d k w" "\<forall>i \<in> set inds. towards i = d" "length inds \<le> Suc k"
  shows "\<exists>w'. worker_event nr cfg inds w = Inr w' \<and> after d k (length inds) w w'"
  using assms(2-4)
proof (induction inds arbitrary: k w)
  case (Cons i inds)
  then have i: "towards i = d" by simp
  obtain w1 where w1: "worker_event nr cfg [i] w = Inr w1" "after d k 1 w w1"
    by (rule worker_event_one [OF assms(1) Cons.prems(1) i])
  show ?case
  proof (cases k)
    case 0
    with Cons.prems(3) w1 show ?thesis by (simp add: worker_event_Cons [of nr cfg i inds])
  next
    case (Suc k')
    with w1(2) have "busy d k' w1" by (simp add: after_def)
    with Cons.IH [of k' w1] Cons.prems(2,3) Suc obtain w2 where
      "worker_event nr cfg inds w1 = Inr w2" "after d k' (length inds) w1 w2" by auto
    with w1 Suc show ?thesis by (auto simp: worker_event_Cons [of nr cfg i inds] intro: after_step)
  qed
qed simp

lemma busy_frame [simp]:
  "busy d k (emit_ev es w) = busy d k w" "settled (emit_ev es w) = settled w"
  by (simp_all add: busy_def settled_def emit_ev_def)

lemma sent_polls [simp]: "sent d (emit_ev [Poll_event] (emit_ev [Poll_fn 100] w)) = sent d w" "sent d (emit_ev [Poll_fn 100] w) = sent d w"
  by (simp_all add: sent_def tos_def froms_def emit_ev_def)

lemma poll_busy:
  assumes "no_trap cfg" "busy d k w" "\<forall>i \<in> set (case_option [] id p). towards i = d" "length (case_option [] id p) \<le> Suc k"
  shows "\<exists>w'. poll nr cfg p w = Inr w' \<and> after d k (length (case_option [] id p)) w w'"
proof -
  have st: "singleThreadedAccess w" using assms(2) by (simp add: busy_def)
  show ?thesis
  proof (cases p)
    case None
    with st assms(2) show ?thesis
      by (simp add: poll_def v1_checkIndications_def with_lock_def Let_def)
  next
    case (Some inds)
    let ?w = "emit_ev [Poll_event] (emit_ev [Poll_fn 100] w)"
    from worker_event_busy [OF assms(1), of d k ?w inds nr] assms(2-4) Some obtain w' where
      w': "worker_event nr cfg inds ?w = Inr w'" "after d k (length inds) ?w w'" by auto
    then have "after d k (length inds) w w'" by (simp add: after_def)
    with w'(1) Some st show ?thesis by (simp add: poll_def v1_checkIndications_def with_lock_def Let_def)
  qed
qed

text \<open>The completions a sequence of polls delivers.\<close>

definition delivered :: "indication list option list \<Rightarrow> indication list" where
  "delivered ps = concat (map (case_option [] id) ps)"

lemma delivered_simps [simp]:
  "delivered [] = []" "delivered (p # ps) = case_option [] id p @ delivered ps"
  by (simp_all add: delivered_def)

lemma wait_settled: "settled w \<Longrightarrow> wait_state nr cfg ps w = Inr w"
  by (cases ps) (simp_all add: settled_def)

lemma wait_loop_state:
  "wait_loop nr cfg ps w =
     and_then (wait_state nr cfg ps w) (\<lambda>w'. if waitCount w' > 0 then Inl Still_waiting else Inr w')"
proof (induction ps arbitrary: w)
  case (Cons p ps)
  then show ?case by (cases "poll nr cfg p w") simp_all
qed simp

lemma wait_busy:
  assumes "no_trap cfg" "busy d k w" "\<forall>i \<in> set (delivered ps). towards i = d" "length (delivered ps) \<le> Suc k"
  shows "\<exists>w'. wait_state nr cfg ps w = Inr w' \<and> after d k (length (delivered ps)) w w'"
  using assms(2-4)
proof (induction ps arbitrary: k w)
  case (Cons p ps)
  let ?inds = "case_option [] id p"
  have wc: "waitCount w > 0" using Cons.prems(1) by (simp add: busy_def)
  from Cons.prems poll_busy [OF assms(1) Cons.prems(1), of p nr] obtain w1 where
    w1: "poll nr cfg p w = Inr w1" "after d k (length ?inds) w w1" by auto
  show ?case
  proof (cases "length ?inds = Suc k")
    case True
    with w1 Cons.prems(3) wait_settled [of w1 nr cfg ps] wc show ?thesis by (auto simp: after_def)
  next
    case False
    with w1 Cons.prems(3) have b: "busy d (k - length ?inds) w1" "length ?inds \<le> k" by (auto simp: after_def)
    have l: "length (delivered ps) \<le> Suc (k - length ?inds)" using Cons.prems(3) b(2) by auto
    from Cons.IH [OF b(1) _ l] Cons.prems(2) obtain w2 where
      w2: "wait_state nr cfg ps w1 = Inr w2" "after d (k - length ?inds) (length (delivered ps)) w1 w2" by auto
    from w2(2) w1(2) False b(2) have "after d k (length ?inds + length (delivered ps)) w w2"
      by (auto simp: after_def split: if_splits)
    with wc w1(1) w2(1) show ?thesis by simp
  qed
qed simp

text \<open>The transfers a direction asks for, and the start of a phase.\<close>

definition wanted :: "dma_config \<Rightarrow> bool \<Rightarrow> nat" where
  "wanted cfg d = (if (if d then doRead cfg else doWrite cfg) \<noteq> 0 then nat (numIters cfg) else 0)"

definition phase_of :: "bool \<Rightarrow> nat" where
  "phase_of d = (if d then 0 else 1)"

lemma enter_phase_busy:
  assumes "settled w" "0 \<le> numIters cfg"
  shows "\<exists>w'. enter_phase nr cfg (phase_of d) w = Inr w' \<and> sent (\<not> d) w' = sent (\<not> d) w \<and>
    (case wanted cfg d of 0 \<Rightarrow> settled w' \<and> sent d w' = sent d w
     | Suc k \<Rightarrow> busy d k w' \<and> sent d w' = Suc (sent d w))"
proof (cases "wanted cfg d")
  case 0
  with assms show ?thesis
    by (auto simp: enter_phase_def phase_of_def wanted_def settled_def sent_def tos_def froms_def Let_def split: if_splits)
next
  case (Suc k)
  show ?thesis
  proof (cases d)
    case True
    let ?w = "w\<lparr>numReads := numIters cfg, numWrites := 0\<rparr>"
    obtain w1 where "request_to nr cfg ?w = Inr w1"
      "book w1 = (numReads ?w, numWrites ?w, waitCount ?w, Suc (tos ?w), froms ?w, True)"
      by (rule request_to_book [of ?w nr cfg]) (use assms(1) in \<open>simp add: settled_def\<close>)
    with True Suc assms show ?thesis
      by (auto simp: enter_phase_def phase_of_def wanted_def settled_def busy_def sent_def book_defs Let_def split: if_splits)
  next
    case False
    let ?w = "w\<lparr>numReads := 0, numWrites := numIters cfg\<rparr>"
    obtain w1 where "request_from nr cfg ?w = Inr w1"
      "book w1 = (numReads ?w, numWrites ?w, waitCount ?w, tos ?w, Suc (froms ?w), True)"
      by (rule request_from_book [of ?w nr cfg]) (use assms(1) in \<open>simp add: settled_def\<close>)
    with False Suc assms show ?thesis
      by (auto simp: enter_phase_def phase_of_def wanted_def settled_def busy_def sent_def book_defs Let_def split: if_splits)
  qed
qed

lemma settled_reset: "settled w \<Longrightarrow> w\<lparr>waitCount := 0\<rparr> = w"
  by (simp add: settled_def)

text \<open>After \<open>j\<close> completions of a phase, one request more than that has been made, until all have.\<close>

lemma phase_state_transfers:
  assumes "no_trap cfg" "settled w" "0 \<le> numIters cfg" "\<forall>i \<in> set (delivered ps). towards i = d"
    and "length (delivered ps) \<le> wanted cfg d"
  obtains w' where "phase_state nr cfg (phase_of d) ps w = Inr w'"
    "sent d w' = sent d w + min (Suc (length (delivered ps))) (wanted cfg d)" "sent (\<not> d) w' = sent (\<not> d) w"
    "if length (delivered ps) = wanted cfg d then settled w' else waitCount w' = 1"
proof -
  from enter_phase_busy [OF assms(2,3), of nr d] obtain w1 where
    w1: "enter_phase nr cfg (phase_of d) w = Inr w1" "sent (\<not> d) w1 = sent (\<not> d) w"
    "case wanted cfg d of 0 \<Rightarrow> settled w1 \<and> sent d w1 = sent d w | Suc k \<Rightarrow> busy d k w1 \<and> sent d w1 = Suc (sent d w)"
    by blast
  show thesis
  proof (cases "wanted cfg d")
    case 0
    with w1 assms(5) wait_settled [of w1 nr cfg ps] show thesis by (intro that [of w1]) (auto simp: phase_state_def)
  next
    case (Suc k)
    with w1 have "busy d k w1" by simp
    from wait_busy [OF assms(1) this assms(4), of nr] assms(5) Suc obtain w2 where
      "wait_state nr cfg ps w1 = Inr w2" "after d k (length (delivered ps)) w1 w2" by auto
    with w1 Suc assms(5) show thesis
      by (intro that [of w2]) (auto simp: phase_state_def after_def busy_def split: if_splits)
  qed
qed

lemma run_phase_state:
  assumes "phase_state nr cfg i ps w = Inr w'" "waitCount w' = 0 \<or> waitCount w' = 1"
  shows "run_phase nr cfg i ps w = (if waitCount w' = 0 then Inr w' else Inl Still_waiting)"
  using assms by (auto simp: run_phase_def phase_state_def wait_loop_state and_then_def split: sum.splits)

lemma run_phase_transfers:
  assumes "no_trap cfg" "settled w" "0 \<le> numIters cfg" "\<forall>i \<in> set (delivered ps). towards i = d"
    and "length (delivered ps) \<le> wanted cfg d"
  shows "if length (delivered ps) = wanted cfg d
    then \<exists>w'. run_phase nr cfg (phase_of d) ps w = Inr w' \<and> settled w' \<and>
      sent d w' = sent d w + wanted cfg d \<and> sent (\<not> d) w' = sent (\<not> d) w
    else run_phase nr cfg (phase_of d) ps w = Inl Still_waiting"
proof -
  obtain w' where "phase_state nr cfg (phase_of d) ps w = Inr w'"
    "sent d w' = sent d w + min (Suc (length (delivered ps))) (wanted cfg d)" "sent (\<not> d) w' = sent (\<not> d) w"
    "if length (delivered ps) = wanted cfg d then settled w' else waitCount w' = 1"
    by (rule phase_state_transfers [OF assms])
  with run_phase_state [of nr cfg "phase_of d" ps w w'] show ?thesis by (auto simp: settled_def split: if_splits)
qed

lemma ChannelWorker_new_settled:
  assumes "0 \<le> n" "n < 4"
  obtains w where "ChannelWorker_new cfg fds m n = Inr w" "settled w" "tos w = 0" "froms w = 0"
    "channelNumber w = n" "length (buffers w) = 4" "lib w = v1_initDmaManager m"
  using assms
  by (auto simp: ChannelWorker_new_def v1_DmaChannel_new_def dma_channel.defs worker.defs proxyNames_def wrapperNames_def
      settled_def tos_def froms_def Let_def)

section \<open>Properties\<close>

text \<open>
  C20. A worker on one of the four channels, started with \<open>n \<ge> 0\<close> iterations and options whose
  report does not trap (the write request size is not zero, nor \<open>-1\<close> with an array size of
  \<open>-2^31\<close>), first transfers to the device, if reading is enabled, and then from it, if writing is,
  and never has two transfers in flight: in either phase, when the polls have delivered \<open>j\<close> of the
  \<open>n\<close> completions, however they are spread over the polls, it has requested \<open>j + 1\<close> transfers, or
  all \<open>n\<close> if that is less, and none in the other direction.  It waits while a completion of either
  phase is missing, and returns when the last of the second phase is there, having requested
  exactly \<open>n\<close> transfers in each enabled direction.
\<close>

theorem worker_transfers_exactly:
  assumes "0 \<le> c" "c < 4" "0 \<le> numIters cfg" "no_trap cfg"
    and "\<forall>i \<in> set (delivered polls0). towards i" "length (delivered polls0) \<le> wanted cfg True"
    and "\<forall>i \<in> set (delivered polls1). \<not> towards i" "length (delivered polls1) \<le> wanted cfg False"
  shows "\<exists>w0 w1 w2. ChannelWorker_new cfg fds m c = Inr w0 \<and> set_sizes cfg w0 = Inr w1 \<and>
    phase_state new_ref cfg 0 polls0 w1 = Inr w2 \<and>
    tos w2 = min (length (delivered polls0) + 1) (wanted cfg True) \<and> froms w2 = 0 \<and>
    (if length (delivered polls0) < wanted cfg True
     then waitCount w2 = 1 \<and> run new_ref cfg polls0 polls1 w0 = Inl Still_waiting
     else \<exists>w3. phase_state new_ref cfg 1 polls1 w2 = Inr w3 \<and>
       tos w3 = wanted cfg True \<and> froms w3 = min (length (delivered polls1) + 1) (wanted cfg False) \<and>
       (if length (delivered polls1) < wanted cfg False
        then waitCount w3 = 1 \<and> run new_ref cfg polls0 polls1 w0 = Inl Still_waiting
        else run new_ref cfg polls0 polls1 w0 = Inr w3 \<and> froms w3 = wanted cfg False \<and>
          waitCount w3 = 0 \<and> numReads w3 = 0 \<and> numWrites w3 = 0))"
proof -
  obtain w0 where w0: "ChannelWorker_new cfg fds m c = Inr w0" "settled w0" "tos w0 = 0" "froms w0 = 0"
    by (rule ChannelWorker_new_settled [OF assms(1,2)])
  obtain w1 where w1: "set_sizes cfg w0 = Inr w1" "book w1 = book w0"
    by (rule set_sizes_book [of w0 cfg]) (use w0(2) in \<open>auto simp: settled_def\<close>)
  then have s1: "settled w1" "tos w1 = 0" "froms w1 = 0" using w0(2-4) by (auto simp: settled_def book_def)
  obtain w2 where w2: "phase_state new_ref cfg 0 polls0 w1 = Inr w2" "froms w2 = 0"
    "tos w2 = min (Suc (length (delivered polls0))) (wanted cfg True)"
    "if length (delivered polls0) = wanted cfg True then settled w2 else waitCount w2 = 1"
    using phase_state_transfers [OF assms(4) s1(1) assms(3), of polls0 True new_ref thesis] assms(5,6) s1
    by (auto simp: phase_of_def sent_def)
  show ?thesis
  proof (cases "length (delivered polls0) < wanted cfg True")
    case True
    with w2 run_phase_state [OF w2(1)] have "run new_ref cfg polls0 polls1 w0 = Inl Still_waiting"
      by (simp add: run_def w1(1))
    with True w0(1) w1(1) w2 show ?thesis by auto
  next
    case False
    with assms(6) w2 have s2: "settled w2" "tos w2 = wanted cfg True" by auto
    obtain w3 where w3: "phase_state new_ref cfg 1 polls1 w2 = Inr w3" "tos w3 = wanted cfg True"
      "froms w3 = min (Suc (length (delivered polls1))) (wanted cfg False)"
      "if length (delivered polls1) = wanted cfg False then settled w3 else waitCount w3 = 1"
      using phase_state_transfers [OF assms(4) s2(1) assms(3), of polls1 False new_ref thesis] assms(7,8) s2 w2(2)
      by (auto simp: phase_of_def sent_def)
    have "run new_ref cfg polls0 polls1 w0 = (if waitCount w3 = 0 then Inr w3 else Inl Still_waiting)"
      using run_phase_state [OF w2(1)] run_phase_state [OF w3(1)] s2(1) w3(4)
      by (auto simp: run_def w1(1) settled_def split: if_splits)
    with False assms(8) w0(1) w1(1) w2 w3 show ?thesis by (auto simp: settled_def)
  qed
qed

theorem worker_transfers_exactly_witness:
  "\<exists>w0 w. ChannelWorker_new (default_config\<lparr>numIters := 2, doWrite := 0\<rparr>) int \<lparr>mgr = False, calls = []\<rparr> 3 = Inr w0 \<and>
     run (\<lambda>_ _. 3) (default_config\<lparr>numIters := 2, doWrite := 0\<rparr>) [None, Some [To_done 3 0 3 9], Some [], Some [To_done 3 0 3 9]] [] w0 = Inr w \<and>
     tos w = 2 \<and> froms w = 0 \<and> waitCount w = 0"
  using worker_transfers_exactly [of 3 "default_config\<lparr>numIters := 2, doWrite := 0\<rparr>"
      "[None, Some [To_done 3 0 3 9], Some [], Some [To_done 3 0 3 9]]" "[]" int "\<lparr>mgr = False, calls = []\<rparr>" "\<lambda>_ _. 3"]
  by (auto simp: default_config_def no_trap_def wanted_def)

text \<open>
  Whatever options are given, the request sizes of the accepted configuration do not exceed
  1024 bytes.
\<close>

theorem dma_options_bound_request_sizes:
  assumes "dma_options xs default_config = Some cfg"
  shows "writeReqBytes cfg \<le> 1024 \<and> readReqBytes cfg \<le> 1024"
proof -
  have one: "writeReqBytes c' \<le> 1024 \<and> readReqBytes c' \<le> 1024"
    if "dma_option x c = Some c'" "writeReqBytes c \<le> 1024 \<and> readReqBytes c \<le> 1024" for x c c'
    using that by (auto simp: dma_option_def Let_def split: if_splits prod.splits)
  have "writeReqBytes cfg \<le> 1024 \<and> readReqBytes cfg \<le> 1024"
    if "dma_options xs c = Some cfg" "writeReqBytes c \<le> 1024 \<and> readReqBytes c \<le> 1024" for c
    using that
  proof (induction xs arbitrary: c)
    case (Cons x xs)
    then obtain c' where "dma_option x c = Some c'" "dma_options xs c' = Some cfg"
      by (auto simp: bind_eq_Some_conv)
    with Cons one show ?case by blast
  qed simp
  from this [OF assms] show ?thesis by (simp add: default_config_def)
qed

theorem dma_options_bound_request_sizes_witness:
  "\<exists>cfg. dma_options [(CHR ''r'', []), (CHR ''W'', ''4096''), (CHR ''R'', ''0x80'')] default_config = Some cfg \<and> writeReqBytes cfg \<le> 1024"
proof -
  obtain cfg where "dma_options [(CHR ''r'', []), (CHR ''W'', ''4096''), (CHR ''R'', ''0x80'')] default_config = Some cfg"
    by (simp add: dma_option_def Let_def)
  with dma_options_bound_request_sizes show ?thesis by blast
qed

end
