(* ===== verification/Dma_Test.thy ===== *)
theory Dma_Test
  imports Channel_Worker
begin

text \<open>
  The threads of the DMA exerciser (\<^verbatim>\<open>src/dmac/cpp/testdma.cpp\<close>, \<^verbatim>\<open>ChannelWorker::threadfn\<close> and
  \<^verbatim>\<open>ChannelWorker::runTest\<close>): the main thread creates one worker and one thread per channel, lets
  them go with a flag they spin on, and joins them in order.  A step of the program is a step of
  the main thread or of one worker, in any order; the workers share the flag and the library's
  manager.  The device completes a transfer at most once, after it was requested.
\<close>

section \<open>A worker's thread\<close>

text \<open>Spinning on the flag, in the waiting loop of phase \<open>i\<close>, or returned.\<close>

datatype thread_pc = Spinning | Waiting nat | Exited

text \<open>One turn of the spin loop, one poll, or the step from one phase to the next.\<close>

fun threadfn_step ::
  "mgr_reference \<Rightarrow> dma_config \<Rightarrow> bool \<Rightarrow> indication list option \<Rightarrow> thread_pc \<times> worker \<Rightarrow> stop + thread_pc \<times> worker" where
  "threadfn_step nr cfg started p (Spinning, w) =
     (if \<not> started then Inr (Spinning, w)
      else map_sum id (Pair (Waiting 0)) (and_then (set_sizes cfg w) (enter_phase nr cfg 0)))"
| "threadfn_step nr cfg started p (Waiting i, w) =
     (if waitCount w > 0 then map_sum id (Pair (Waiting i)) (poll nr cfg p w)
      else let w = w\<lparr>waitCount := 0\<rparr>
           in if Suc i < 2 then map_sum id (Pair (Waiting (Suc i))) (enter_phase nr cfg (Suc i) w)
              else Inr (Exited, w))"
| "threadfn_step nr cfg started p (Exited, w) = Inr (Exited, w)"

text \<open>
  A poll is honest when each completion it delivers answers a transfer in its direction that was
  requested and not yet answered; \<open>answered\<close> counts the answers given so far.
\<close>

fun honest :: "mgr_reference \<Rightarrow> dma_config \<Rightarrow> (bool \<Rightarrow> nat) \<Rightarrow> indication list \<Rightarrow> worker \<Rightarrow> bool" where
  "honest nr cfg answered [] w = True"
| "honest nr cfg answered (i # inds) w =
     (answered (towards i) < sent (towards i) w \<and>
      (case worker_event nr cfg [i] w of
         Inl e \<Rightarrow> True
       | Inr w' \<Rightarrow> honest nr cfg (answered(towards i := Suc (answered (towards i)))) inds w'))"

definition answered_by :: "indication list \<Rightarrow> (bool \<Rightarrow> nat) \<Rightarrow> bool \<Rightarrow> nat" where
  "answered_by inds answered d = answered d + length (filter (\<lambda>i. towards i = d) inds)"

section \<open>The program\<close>

datatype main_pc = Creating nat | Joining nat | Returned | Failed stop

type_synonym dma_thread = "thread_pc \<times> worker \<times> (bool \<Rightarrow> nat)"

record dma_test =
  started :: bool
  threads :: "dma_thread list"
  manager :: dma_lib
  main :: main_pc

definition test_init :: "dma_lib \<Rightarrow> dma_test" where
  "test_init m = \<lparr>started = False, threads = [], manager = m, main = Creating 0\<rparr>"

text \<open>What thread \<open>j\<close> does next when its poll would deliver \<open>p\<close>, on the shared flag and manager.\<close>

definition thread_next :: "mgr_reference \<Rightarrow> dma_config \<Rightarrow> dma_test \<Rightarrow> nat \<Rightarrow> indication list option \<Rightarrow> stop + thread_pc \<times> worker" where
  "thread_next nr cfg s j p =
     (case threads s ! j of (pc, w, answered) \<Rightarrow> threadfn_step nr cfg (started s) p (pc, w\<lparr>lib := manager s\<rparr>))"

definition may_deliver :: "mgr_reference \<Rightarrow> dma_config \<Rightarrow> dma_test \<Rightarrow> nat \<Rightarrow> indication list option \<Rightarrow> bool" where
  "may_deliver nr cfg s j p =
     (case threads s ! j of (pc, w, answered) \<Rightarrow>
        honest nr cfg answered (case_option [] id p) (w\<lparr>lib := manager s\<rparr>) \<and>
        (pc = Spinning \<or> pc = Exited \<or> waitCount w \<le> 0 \<longrightarrow> p = None))"

inductive runTest_step :: "mgr_reference \<Rightarrow> dma_config \<Rightarrow> (nat \<Rightarrow> nat \<Rightarrow> int) \<Rightarrow> dma_test \<Rightarrow> dma_test \<Rightarrow> bool"
  for nr :: mgr_reference and cfg :: dma_config and fds :: "nat \<Rightarrow> nat \<Rightarrow> int" where
  create: "main s = Creating i \<Longrightarrow> int i < numchannels cfg \<Longrightarrow>
     ChannelWorker_new cfg (fds i) (manager s) (int i) = Inr w \<Longrightarrow>
     runTest_step nr cfg fds s
       (s\<lparr>threads := threads s @ [(Spinning, w, \<lambda>_. 0)], manager := lib w, main := Creating (Suc i)\<rparr>)"
| create_fails: "main s = Creating i \<Longrightarrow> int i < numchannels cfg \<Longrightarrow>
     ChannelWorker_new cfg (fds i) (manager s) (int i) = Inl e \<Longrightarrow>
     runTest_step nr cfg fds s (s\<lparr>main := Failed e\<rparr>)"
| go: "main s = Creating i \<Longrightarrow> \<not> int i < numchannels cfg \<Longrightarrow>
     runTest_step nr cfg fds s (s\<lparr>started := True, main := Joining 0\<rparr>)"
| join: "main s = Joining i \<Longrightarrow> int i < numchannels cfg \<Longrightarrow> i < length (threads s) \<Longrightarrow>
     fst (threads s ! i) = Exited \<Longrightarrow> runTest_step nr cfg fds s (s\<lparr>main := Joining (Suc i)\<rparr>)"
| finish: "main s = Joining i \<Longrightarrow> \<not> int i < numchannels cfg \<Longrightarrow>
     runTest_step nr cfg fds s (s\<lparr>main := Returned\<rparr>)"
| thread: "j < length (threads s) \<Longrightarrow> threads s ! j = (pc, w, answered) \<Longrightarrow> may_deliver nr cfg s j p \<Longrightarrow>
     thread_next nr cfg s j p = Inr (pc', w') \<Longrightarrow>
     runTest_step nr cfg fds s
       (s\<lparr>threads := (threads s)[j := (pc', w', answered_by (case_option [] id p) answered)], manager := lib w'\<rparr>)"
| thread_fails: "j < length (threads s) \<Longrightarrow> may_deliver nr cfg s j p \<Longrightarrow>
     thread_next nr cfg s j p = Inl e \<Longrightarrow> runTest_step nr cfg fds s (s\<lparr>main := Failed e\<rparr>)"

abbreviation runTest :: "mgr_reference \<Rightarrow> dma_config \<Rightarrow> (nat \<Rightarrow> nat \<Rightarrow> int) \<Rightarrow> dma_test \<Rightarrow> dma_test \<Rightarrow> bool" where
  "runTest nr cfg fds \<equiv> (runTest_step nr cfg fds)\<^sup>*\<^sup>*"

section \<open>The invariant of a thread\<close>

text \<open>Phase \<open>d\<close> with one transfer unanswered and more to come, or with all of them answered.\<close>

definition in_phase :: "dma_config \<Rightarrow> bool \<Rightarrow> worker \<Rightarrow> (bool \<Rightarrow> nat) \<Rightarrow> bool" where
  "in_phase cfg d w answered \<longleftrightarrow> answered (\<not> d) = sent (\<not> d) w \<and>
     (settled w \<and> sent d w = wanted cfg d \<and> answered d = sent d w \<or>
      (\<exists>k. busy d k w \<and> sent d w + k = wanted cfg d \<and> Suc (answered d) = sent d w))"

fun thread_ok :: "dma_config \<Rightarrow> dma_thread \<Rightarrow> bool" where
  "thread_ok cfg (Spinning, w, answered) =
     (settled w \<and> sent True w = 0 \<and> sent False w = 0 \<and> answered True = 0 \<and> answered False = 0)"
| "thread_ok cfg (Waiting i, w, answered) =
     (if i = 0 then in_phase cfg True w answered \<and> sent False w = 0
      else i = 1 \<and> in_phase cfg False w answered \<and> sent True w = wanted cfg True)"
| "thread_ok cfg (Exited, w, answered) =
     (settled w \<and> sent True w = wanted cfg True \<and> sent False w = wanted cfg False \<and>
      answered True = sent True w \<and> answered False = sent False w)"

lemma lib_frame [simp]:
  "settled (w\<lparr>lib := m\<rparr>) = settled w" "busy d k (w\<lparr>lib := m\<rparr>) = busy d k w" "sent d (w\<lparr>lib := m\<rparr>) = sent d w"
  "in_phase cfg d (w\<lparr>lib := m\<rparr>) ans = in_phase cfg d w ans"
  by (simp_all add: settled_def busy_def sent_def tos_def froms_def in_phase_def)

lemma thread_ok_lib [simp]: "thread_ok cfg (pc, w\<lparr>lib := m\<rparr>, ans) = thread_ok cfg (pc, w, ans)"
  by (cases pc) simp_all

lemma honest_settled: "\<forall>d. ans d = sent d w \<Longrightarrow> honest nr cfg ans inds w \<Longrightarrow> inds = []"
  by (cases inds) auto

lemma honest_busy:
  assumes "no_trap cfg" "busy d k w" "Suc (ans d) = sent d w" "ans (\<not> d) = sent (\<not> d) w" "honest nr cfg ans inds w"
  shows "(\<forall>i \<in> set inds. towards i = d) \<and> length inds \<le> Suc k"
  using assms(2-)
proof (induction inds arbitrary: k w ans)
  case (Cons i inds)
  have i: "towards i = d"
    using Cons.prems(3,4) by (cases "towards i"; cases d) auto
  obtain w1 where w1: "worker_event nr cfg [i] w = Inr w1" "after d k 1 w w1"
    by (rule worker_event_one [OF assms(1) Cons.prems(1) i])
  let ?ans = "ans(d := Suc (ans d))"
  have h: "honest nr cfg ?ans inds w1" using Cons.prems(4) w1(1) i by simp
  show ?case
  proof (cases k)
    case 0
    with w1(2) Cons.prems(2,3) have "\<forall>e. ?ans e = sent e w1"
      by (auto simp: after_def)
    with honest_settled [OF _ h] i 0 show ?thesis by simp
  next
    case (Suc k')
    with w1(2) have "busy d k' w1" "Suc (?ans d) = sent d w1" "?ans (\<not> d) = sent (\<not> d) w1"
      using Cons.prems(2,3) by (auto simp: after_def)
    from Cons.IH [OF this h] i Suc show ?thesis by simp
  qed
qed simp

lemma answered_by_same: "\<forall>i \<in> set inds. towards i = d \<Longrightarrow> answered_by inds ans d = ans d + length inds"
  "\<forall>i \<in> set inds. towards i = d \<Longrightarrow> answered_by inds ans (\<not> d) = ans (\<not> d)"
  by (auto simp: answered_by_def filter_empty_conv intro!: filter_True)

lemma answered_by_Nil [simp]: "answered_by [] ans = ans"
  by (simp add: answered_by_def fun_eq_iff)

lemma poll_in_phase:
  assumes "no_trap cfg" "in_phase cfg d w ans" "waitCount w > 0" "honest nr cfg ans (case_option [] id p) w"
  obtains w' where "poll nr cfg p w = Inr w'" "in_phase cfg d w' (answered_by (case_option [] id p) ans)"
    "sent (\<not> d) w' = sent (\<not> d) w"
proof -
  let ?inds = "case_option [] id p"
  from assms(2,3) obtain k where k: "busy d k w" "sent d w + k = wanted cfg d" "Suc (ans d) = sent d w" "ans (\<not> d) = sent (\<not> d) w"
    by (auto simp: in_phase_def settled_def)
  from honest_busy [OF assms(1) k(1,3,4) assms(4)] have inds: "\<forall>i \<in> set ?inds. towards i = d" "length ?inds \<le> Suc k" by auto
  from poll_busy [OF assms(1) k(1) inds, of nr] obtain w' where
    w': "poll nr cfg p w = Inr w'" "after d k (length ?inds) w w'" by blast
  then have "in_phase cfg d w' (answered_by ?inds ans)" "sent (\<not> d) w' = sent (\<not> d) w"
    using k inds answered_by_same [OF inds(1), of ans]
    by (auto simp: after_def in_phase_def split: if_splits)
  with w'(1) that show thesis by blast
qed

lemma enter_in_phase:
  assumes "settled w" "0 \<le> numIters cfg" "sent d w = 0" "ans d = 0" "ans (\<not> d) = sent (\<not> d) w"
  obtains w' where "enter_phase nr cfg (phase_of d) w = Inr w'" "in_phase cfg d w' ans" "sent (\<not> d) w' = sent (\<not> d) w"
proof -
  from enter_phase_busy [OF assms(1,2), of nr d] obtain w' where
    w': "enter_phase nr cfg (phase_of d) w = Inr w'" "sent (\<not> d) w' = sent (\<not> d) w"
    "case wanted cfg d of 0 \<Rightarrow> settled w' \<and> sent d w' = sent d w | Suc k \<Rightarrow> busy d k w' \<and> sent d w' = Suc (sent d w)"
    by blast
  then have "in_phase cfg d w' ans"
    using assms(3-5) by (cases "wanted cfg d") (auto simp: in_phase_def)
  with w' that show thesis by blast
qed

text \<open>A step of a thread in a state that satisfies the invariant succeeds and keeps it.\<close>

lemma thread_step_ok:
  assumes "no_trap cfg" "0 \<le> numIters cfg" "thread_ok cfg (pc, w, ans)"
    and "honest nr cfg ans (case_option [] id p) w" "pc = Spinning \<or> pc = Exited \<or> waitCount w \<le> 0 \<longrightarrow> p = None"
  obtains pc' w' where "threadfn_step nr cfg go p (pc, w) = Inr (pc', w')"
    "thread_ok cfg (pc', w', answered_by (case_option [] id p) ans)"
    "go \<or> pc \<noteq> Spinning \<or> pc' = Spinning"
proof (cases pc)
  case Spinning
  have s: "settled w" "sent True w = 0" "sent False w = 0" "ans True = 0" "ans False = 0" "p = None"
    using assms(3,5) Spinning by auto
  obtain w1 where w1: "set_sizes cfg w = Inr w1" "book w1 = book w"
    by (rule set_sizes_book [of w cfg]) (use s(1) in \<open>auto simp: settled_def\<close>)
  then have s1: "settled w1" "sent True w1 = 0" "sent False w1 = 0" using s by (auto simp: settled_def book_def sent_def)
  obtain w2 where "enter_phase nr cfg 0 w1 = Inr w2" "in_phase cfg True w2 ans" "sent False w2 = 0"
    by (rule enter_in_phase [of w1 cfg True ans nr]) (use s1 s assms(2) in \<open>auto simp: phase_of_def\<close>)
  with w1(1) Spinning s assms(3) that [of "if go then Waiting 0 else Spinning" "if go then w2 else w"] show thesis
    by (cases go) auto
next
  case (Waiting i)
  show thesis
  proof (cases "waitCount w > 0")
    case True
    let ?d = "i = 0"
    have ph: "in_phase cfg ?d w ans" using assms(3) Waiting by (auto split: if_splits)
    obtain w' where "poll nr cfg p w = Inr w'" "in_phase cfg ?d w' (answered_by (case_option [] id p) ans)"
      "sent (\<not> ?d) w' = sent (\<not> ?d) w"
      by (rule poll_in_phase [OF assms(1) ph True assms(4)])
    with Waiting True assms(3) that [of "Waiting i" w'] show thesis by (auto split: if_splits)
  next
    case False
    with assms(5) have p: "p = None" by simp
    have fin: "settled w" "sent e w = wanted cfg e" "ans e = sent e w" "ans (\<not> e) = sent (\<not> e) w" if "e = (i = 0)" for e :: bool
      using assms(3) Waiting False that by (auto simp: in_phase_def busy_def split: if_splits)
    show thesis
    proof (cases "i = 0")
      case True
      obtain w' where "enter_phase nr cfg 1 w = Inr w'" "in_phase cfg False w' ans" "sent True w' = sent True w"
        by (rule enter_in_phase [of w cfg False ans nr])
          (use fin [of True] assms(2,3) Waiting True in \<open>auto simp: phase_of_def\<close>)
      with True Waiting False p fin [of True] that [of "Waiting 1" w'] show thesis
        by (simp add: settled_reset)
    next
      case i: False
      with assms(3) Waiting have "i = 1" by (auto split: if_splits)
      with Waiting False p fin [of False] assms(3) that [of Exited w] show thesis
        by (simp add: settled_reset)
    qed
  qed
next
  case Exited
  with assms(3,5) that [of Exited w] show thesis by simp
qed

section \<open>What a worker leaves alone\<close>

text \<open>Once the manager exists, a worker does not initialise the platform again; it keeps its number.\<close>

definition inits :: "dma_lib \<Rightarrow> mgr_call list" where
  "inits m = filter (\<lambda>c. c = Platform_init) (calls m)"

definition keeps :: "worker \<Rightarrow> worker \<Rightarrow> bool" where
  "keeps w w' \<longleftrightarrow> channelNumber w' = channelNumber w \<and>
     (mgr (lib w) \<longrightarrow> mgr (lib w') \<and> inits (lib w') = inits (lib w))"

lemma keeps_refl [simp]: "keeps w w"
  by (simp add: keeps_def)

lemma keeps_trans [trans]: "keeps a b \<Longrightarrow> keeps b c \<Longrightarrow> keeps a c"
  by (auto simp: keeps_def)

lemma keeps_update [simp]:
  "keeps w (w\<lparr>numReads := a\<rparr>)" "keeps w (w\<lparr>numWrites := a\<rparr>)" "keeps w (w\<lparr>waitCount := a\<rparr>)"
  "keeps w (w'\<lparr>numReads := a\<rparr>) = keeps w w'" "keeps w (w'\<lparr>numWrites := a\<rparr>) = keeps w w'"
  "keeps w (w'\<lparr>waitCount := a\<rparr>) = keeps w w'"
  "keeps (w\<lparr>numReads := a\<rparr>) w' = keeps w w'" "keeps (w\<lparr>numWrites := a\<rparr>) w' = keeps w w'"
  "keeps (w\<lparr>waitCount := a\<rparr>) w' = keeps w w'" "keeps w (emit_ev es w') = keeps w w'"
  "keeps (emit_ev es w) w' = keeps w w'"
  by (simp_all add: keeps_def emit_ev_def)

lemma request_keeps:
  "request_to nr cfg w = Inr w' \<Longrightarrow> keeps w w'" "request_from nr cfg w = Inr w' \<Longrightarrow> keeps w w'"
  by (auto simp: request_to_def request_from_def v1_transferToFpga_def v1_transferFromFpga_def with_lock_def
      v1_reference_def v1_initDmaManager_def keeps_def inits_def emit_ev_def Let_def and_then_eq_Inr
      split: if_splits prod.splits)

lemma set_sizes_keeps: "set_sizes cfg w = Inr w' \<Longrightarrow> keeps w w'"
  by (auto simp: set_sizes_def v1_setWriteRequestSize_def v1_setReadRequestSize_def with_lock_def keeps_def
      emit_ev_def Let_def and_then_eq_Inr split: if_splits)

lemma map_sum_eq_Inr: "map_sum id f r = Inr b \<longleftrightarrow> (\<exists>a. r = Inr a \<and> b = f a)"
  by (cases r) auto

lemma enter_phase_keeps: "enter_phase nr cfg i w = Inr w' \<Longrightarrow> keeps w w'"
  by (auto simp: enter_phase_def Let_def and_then_eq_Inr map_sum_eq_Inr dest!: request_keeps split: if_splits
      intro: keeps_trans)

lemma event_keeps: "worker_event nr cfg inds w = Inr w' \<Longrightarrow> keeps w w'"
proof (induction inds arbitrary: w)
  case (Cons i inds)
  then obtain w1 where w1: "worker_event nr cfg [i] w = Inr w1" "worker_event nr cfg inds w1 = Inr w'"
    unfolding worker_event_Cons [of nr cfg i inds] and_then_eq_Inr by blast
  have "keeps w w1"
    using w1(1)
    by (cases i) (auto simp: v1_transferToFpgaDone_def v1_transferFromFpgaDone_def worker_callbacks_def
        transferToFpgaDone_def transferFromFpgaDone_def and_then_eq_Inr map_sum_eq_Inr dest!: request_keeps split: if_splits)
  from keeps_trans [OF this Cons.IH [OF w1(2)]] show ?case .
qed simp

lemma poll_keeps: "singleThreadedAccess w \<Longrightarrow> poll nr cfg p w = Inr w' \<Longrightarrow> keeps w w'"
  by (auto simp: poll_def v1_checkIndications_def with_lock_def Let_def map_sum_eq_Inr and_then_eq_Inr
      dest!: event_keeps split: option.splits)

lemma threadfn_keeps:
  assumes "singleThreadedAccess w" "threadfn_step nr cfg b p (pc, w) = Inr (pc', w')"
  shows "keeps w w'"
  using assms
  by (cases pc) (auto simp: map_sum_eq_Inr and_then_eq_Inr Let_def split: if_splits
      dest!: set_sizes_keeps enter_phase_keeps poll_keeps intro: keeps_trans)

section \<open>The invariant of the program\<close>

fun main_ok :: "dma_config \<Rightarrow> dma_test \<Rightarrow> main_pc \<Rightarrow> bool" where
  "main_ok cfg s (Creating i) = (\<not> started s \<and> length (threads s) = i \<and> int i \<le> numchannels cfg)"
| "main_ok cfg s (Joining i) =
     (started s \<and> int (length (threads s)) = numchannels cfg \<and> i \<le> length (threads s) \<and>
      (\<forall>j < i. fst (threads s ! j) = Exited))"
| "main_ok cfg s Returned =
     (started s \<and> int (length (threads s)) = numchannels cfg \<and> (\<forall>t \<in> set (threads s). fst t = Exited))"
| "main_ok cfg s (Failed e) = False"

definition test_inv :: "dma_config \<Rightarrow> dma_lib \<Rightarrow> dma_test \<Rightarrow> bool" where
  "test_inv cfg m0 s \<longleftrightarrow> main_ok cfg s (main s) \<and>
     (\<forall>j < length (threads s). thread_ok cfg (threads s ! j) \<and> channelNumber (fst (snd (threads s ! j))) = int j) \<and>
     (\<not> started s \<longrightarrow> (\<forall>t \<in> set (threads s). fst t = Spinning)) \<and>
     (if threads s = [] then manager s = m0
      else mgr (manager s) \<and> inits (manager s) = inits (v1_initDmaManager m0))"

text \<open>The program is run with at most the four channels the device has.\<close>

definition sensible :: "dma_config \<Rightarrow> bool" where
  "sensible cfg \<longleftrightarrow> no_trap cfg \<and> 0 \<le> numIters cfg \<and> 0 \<le> numchannels cfg \<and> numchannels cfg \<le> 4"

lemma thread_ok_single: "thread_ok cfg (pc, w, ans) \<Longrightarrow> singleThreadedAccess w"
  by (cases pc) (auto simp: in_phase_def settled_def busy_def split: if_splits)

text \<open>A thread's step is always possible, and keeps the invariant.\<close>

lemma thread_next_ok:
  assumes "sensible cfg" "test_inv cfg m0 s" "j < length (threads s)" "threads s ! j = (pc, w, ans)" "may_deliver nr cfg s j p"
  obtains pc' w' where "thread_next nr cfg s j p = Inr (pc', w')"
    "thread_ok cfg (pc', w', answered_by (case_option [] id p) ans)" "started s \<or> pc' = Spinning"
    "keeps (w\<lparr>lib := manager s\<rparr>) w'" "pc = Exited \<Longrightarrow> pc' = Exited"
proof -
  let ?w = "w\<lparr>lib := manager s\<rparr>"
  have ok: "thread_ok cfg (pc, ?w, ans)" using assms(2-4) by (auto simp: test_inv_def)
  have hp: "honest nr cfg ans (case_option [] id p) ?w" "pc = Spinning \<or> pc = Exited \<or> waitCount ?w \<le> 0 \<longrightarrow> p = None"
    using assms(4,5) by (auto simp: may_deliver_def)
  obtain pc' w' where r: "threadfn_step nr cfg (started s) p (pc, ?w) = Inr (pc', w')"
    "thread_ok cfg (pc', w', answered_by (case_option [] id p) ans)" "started s \<or> pc \<noteq> Spinning \<or> pc' = Spinning"
    by (rule thread_step_ok [OF _ _ ok hp]) (use assms(1) in \<open>auto simp: sensible_def\<close>)
  have sp: "started s \<or> pc = Spinning"
    using assms(2) nth_mem [OF assms(3)] unfolding assms(4) test_inv_def by fastforce
  have "keeps ?w w'" by (rule threadfn_keeps [OF _ r(1)]) (use thread_ok_single [OF ok] in simp)
  moreover have "pc' = Exited" if "pc = Exited" using r(1) that by simp
  ultimately show thesis using r sp assms(4) by (intro that [of pc' w']) (auto simp: thread_next_def)
qed

lemma test_inv_thread:
  assumes "sensible cfg" "test_inv cfg m0 s" "j < length (threads s)" "threads s ! j = (pc, w, ans)" "may_deliver nr cfg s j p"
    and "thread_next nr cfg s j p = Inr (pc', w')"
  shows "test_inv cfg m0 (s\<lparr>threads := (threads s)[j := (pc', w', answered_by (case_option [] id p) ans)], manager := lib w'\<rparr>)"
    (is "test_inv cfg m0 ?s")
proof -
  have step: "thread_ok cfg (pc', w', answered_by (case_option [] id p) ans)" "started s \<or> pc' = Spinning"
    "keeps (w\<lparr>lib := manager s\<rparr>) w'" "pc = Exited \<Longrightarrow> pc' = Exited"
    using thread_next_ok [OF assms(1-5)] assms(6) by (metis Inr_inject Pair_inject)+
  have ne: "threads s \<noteq> []" using assms(3) by auto
  then have m: "mgr (manager s)" "inits (manager s) = inits (v1_initDmaManager m0)" using assms(2) by (auto simp: test_inv_def)
  have num: "channelNumber w = int j" using assms(2-4) by (auto simp: test_inv_def)
  have exited: "fst (threads ?s ! i) = Exited" if "fst (threads s ! i) = Exited" "i < length (threads s)" for i
    using that step(4) assms(3,4) by (cases "i = j") auto
  have "main_ok cfg ?s (main s)"
    using assms(2) exited by (cases "main s") (auto simp: test_inv_def all_set_conv_all_nth)
  moreover have "thread_ok cfg (threads ?s ! i) \<and> channelNumber (fst (snd (threads ?s ! i))) = int i"
    if "i < length (threads s)" for i
    using that assms(2,3) step(1,3) num by (cases "i = j") (auto simp: test_inv_def keeps_def)
  moreover have "\<forall>t \<in> set (threads ?s). fst t = Spinning" if "\<not> started s"
    using that assms(2) step(2) set_update_subset_insert [of "threads s" j] by (fastforce simp: test_inv_def)
  ultimately show ?thesis using step(3) m ne by (simp add: test_inv_def keeps_def)
qed

lemma test_inv_create:
  assumes "test_inv cfg m0 s" "main s = Creating i" "int i < numchannels cfg" "numchannels cfg \<le> 4"
  obtains w where "ChannelWorker_new cfg (fds i) (manager s) (int i) = Inr w"
    "test_inv cfg m0 (s\<lparr>threads := threads s @ [(Spinning, w, \<lambda>_. 0)], manager := lib w, main := Creating (Suc i)\<rparr>)"
proof -
  obtain w where w: "ChannelWorker_new cfg (fds i) (manager s) (int i) = Inr w" "settled w" "tos w = 0" "froms w = 0"
    "channelNumber w = int i" "length (buffers w) = 4" "lib w = v1_initDmaManager (manager s)"
    by (rule ChannelWorker_new_settled [of "int i" cfg "fds i" "manager s"]) (use assms(3,4) in auto)
  have "mgr (lib w) \<and> inits (lib w) = inits (v1_initDmaManager m0)"
    using assms(1) w(7) by (cases "threads s = []") (auto simp: test_inv_def v1_initDmaManager_def)
  with w assms(1-3) that [of w] show thesis
    by (auto simp: test_inv_def sent_def nth_append less_Suc_eq)
qed

lemma runTest_step_inv:
  assumes "runTest_step nr cfg fds s s'" "sensible cfg" "test_inv cfg m0 s"
  shows "test_inv cfg m0 s'"
  using assms
proof cases
  case (create i w)
  then show ?thesis
    using test_inv_create [OF assms(3) create(2,3), of fds] assms(2) by (auto simp: sensible_def)
next
  case (create_fails i e)
  then show ?thesis
    using test_inv_create [OF assms(3) create_fails(2,3), of fds] assms(2) by (auto simp: sensible_def)
next
  case (go i)
  with assms(3) show ?thesis by (auto simp: test_inv_def)
next
  case (join i)
  with assms(3) show ?thesis by (auto simp: test_inv_def less_Suc_eq)
next
  case (finish i)
  with assms(3) have "i = length (threads s)" by (auto simp: test_inv_def)
  with finish assms(3) show ?thesis by (auto simp: test_inv_def all_set_conv_all_nth)
next
  case (thread j pc w ans p pc' w')
  with test_inv_thread [OF assms(2,3)] show ?thesis by simp
next
  case (thread_fails j p e)
  obtain pc w ans where "threads s ! j = (pc, w, ans)" by (metis prod_cases3)
  with thread_next_ok [OF assms(2,3) thread_fails(2) this thread_fails(3)] thread_fails show ?thesis by auto
qed

lemma test_inv_init: "sensible cfg \<Longrightarrow> test_inv cfg m0 (test_init m0)"
  by (simp add: test_inv_def test_init_def sensible_def)

lemma runTest_inv:
  assumes "runTest nr cfg fds (test_init m0) s" "sensible cfg"
  shows "test_inv cfg m0 s"
  using assms by (induction rule: rtranclp_induct) (auto intro: runTest_step_inv test_inv_init)

section \<open>Progress\<close>

text \<open>The steps a started thread has left, when every poll delivers a completion.\<close>

fun steps_left :: "dma_config \<Rightarrow> dma_thread \<Rightarrow> nat" where
  "steps_left cfg (Spinning, w, ans) = wanted cfg True + wanted cfg False + 3"
| "steps_left cfg (Waiting i, w, ans) =
     (if i = 0 then (wanted cfg True - ans True) + wanted cfg False + 2 else (wanted cfg False - ans False) + 1)"
| "steps_left cfg (Exited, w, ans) = 0"

text \<open>What the next poll of a thread can deliver: the completion of the transfer in flight.\<close>

fun next_poll :: "thread_pc \<Rightarrow> worker \<Rightarrow> indication list option" where
  "next_poll (Waiting i) w =
     (if waitCount w > 0 then Some [if i = 0 then To_done 0 0 0 0 else From_done 0 0 0 0] else None)"
| "next_poll pc w = None"

lemma thread_progress:
  assumes "sensible cfg" "test_inv cfg m0 s" "started s" "j < length (threads s)" "fst (threads s ! j) \<noteq> Exited"
  obtains t where "runTest_step nr cfg fds s (s\<lparr>threads := (threads s)[j := t], manager := lib (fst (snd t))\<rparr>)"
    "steps_left cfg t < steps_left cfg (threads s ! j)"
proof -
  obtain pc w ans where t: "threads s ! j = (pc, w, ans)" by (metis prod_cases3)
  let ?w = "w\<lparr>lib := manager s\<rparr>" and ?p = "next_poll pc w"
  have ok: "thread_ok cfg (pc, w, ans)" using assms(2,4) t by (auto simp: test_inv_def)
  have nt: "no_trap cfg" using assms(1) by (simp add: sensible_def)
  have "may_deliver nr cfg s j ?p"
    using ok assms(5) t worker_event_one [OF nt]
    by (cases pc) (auto simp: may_deliver_def in_phase_def settled_def split: if_splits sum.splits)
  moreover from thread_next_ok [OF assms(1,2,4) t this] obtain pc' w' where
    r: "thread_next nr cfg s j ?p = Inr (pc', w')" "thread_ok cfg (pc', w', answered_by (case_option [] id ?p) ans)" by metis
  ultimately have "runTest_step nr cfg fds s (s\<lparr>threads := (threads s)[j := (pc', w', answered_by (case_option [] id ?p) ans)], manager := lib w'\<rparr>)"
    using assms(4) t by (intro runTest_step.thread)
  moreover have "steps_left cfg (pc', w', answered_by (case_option [] id ?p) ans) < steps_left cfg (pc, w, ans)"
    using r(1) ok assms(3,5) t
    by (cases pc) (auto simp: thread_next_def map_sum_eq_Inr and_then_eq_Inr in_phase_def settled_def busy_def
        answered_by_def Let_def split: if_splits)
  ultimately show thesis
    using t that [of "(pc', w', answered_by (case_option [] id ?p) ans)"] by simp
qed

lemma thread_finishes:
  assumes "sensible cfg" "test_inv cfg m0 s" "started s" "j < length (threads s)"
  shows "\<exists>s'. runTest nr cfg fds s s' \<and> main s' = main s \<and> started s' \<and> fst (threads s' ! j) = Exited \<and>
    length (threads s') = length (threads s)"
  using assms(2-4)
proof (induction "steps_left cfg (threads s ! j)" arbitrary: s rule: less_induct)
  case less
  show ?case
  proof (cases "fst (threads s ! j) = Exited")
    case False
    from thread_progress [OF assms(1) less.prems False, of nr fds] obtain t where
      t: "runTest_step nr cfg fds s (s\<lparr>threads := (threads s)[j := t], manager := lib (fst (snd t))\<rparr>)"
      "steps_left cfg t < steps_left cfg (threads s ! j)" by blast
    let ?s = "s\<lparr>threads := (threads s)[j := t], manager := lib (fst (snd t))\<rparr>"
    from less.hyps [of ?s] less.prems t(2) runTest_step_inv [OF t(1) assms(1) less.prems(1)] obtain s' where
      "runTest nr cfg fds ?s s'" "main s' = main s" "started s'" "fst (threads s' ! j) = Exited" "length (threads s') = length (threads s)"
      by auto
    with converse_rtranclp_into_rtranclp [of "runTest_step nr cfg fds", OF t(1)] show ?thesis by blast
  qed (use less.prems in auto)
qed

lemma joins_finish:
  assumes "sensible cfg" "test_inv cfg m0 s" "main s = Joining i"
  shows "\<exists>s'. runTest nr cfg fds s s' \<and> main s' = Returned"
  using assms(2,3)
proof (induction "nat (numchannels cfg) - i" arbitrary: s i)
  case 0
  then have "\<not> int i < numchannels cfg" by simp
  with 0 show ?case by (intro exI [of _ "s\<lparr>main := Returned\<rparr>"]) (auto intro: runTest_step.finish)
next
  case (Suc k)
  then have i: "int i < numchannels cfg" "i < length (threads s)" "started s" by (auto simp: test_inv_def)
  from thread_finishes [OF assms(1) Suc.prems(1) i(3,2), of nr fds] obtain s1 where
    s1: "runTest nr cfg fds s s1" "main s1 = Joining i" "fst (threads s1 ! i) = Exited" "length (threads s1) = length (threads s)"
    using Suc.prems(2) by auto
  have inv: "test_inv cfg m0 s1"
    using s1(1) Suc.prems(1) by (induction rule: rtranclp_induct) (auto intro: runTest_step_inv [OF _ assms(1)])
  have step: "runTest_step nr cfg fds s1 (s1\<lparr>main := Joining (Suc i)\<rparr>)"
    using s1 i by (intro runTest_step.join) auto
  have "k = nat (numchannels cfg) - Suc i" using Suc.hyps(2) by linarith
  from Suc.hyps(1) [OF this runTest_step_inv [OF step assms(1) inv]]
  obtain s2 where "runTest nr cfg fds (s1\<lparr>main := Joining (Suc i)\<rparr>) s2" "main s2 = Returned" by auto
  with s1(1) step show ?case by (meson converse_rtranclp_into_rtranclp rtranclp_trans)
qed

lemma creation_finishes:
  assumes "sensible cfg" "test_inv cfg m0 s" "main s = Creating i"
  shows "\<exists>s'. runTest nr cfg fds s s' \<and> main s' = Joining 0"
  using assms(2,3)
proof (induction "nat (numchannels cfg) - i" arbitrary: s i)
  case 0
  then have "\<not> int i < numchannels cfg" by simp
  with 0 show ?case by (intro exI [of _ "s\<lparr>started := True, main := Joining 0\<rparr>"]) (auto intro: runTest_step.go)
next
  case (Suc k)
  then have i: "int i < numchannels cfg" by simp
  obtain w where w: "ChannelWorker_new cfg (fds i) (manager s) (int i) = Inr w"
    "test_inv cfg m0 (s\<lparr>threads := threads s @ [(Spinning, w, \<lambda>_. 0)], manager := lib w, main := Creating (Suc i)\<rparr>)"
    (is "test_inv cfg m0 ?s")
    by (rule test_inv_create [OF Suc.prems i]) (use assms(1) in \<open>simp add: sensible_def\<close>)
  have "k = nat (numchannels cfg) - Suc i" using Suc.hyps(2) by linarith
  from Suc.hyps(1) [OF this w(2)] obtain s' where "runTest nr cfg fds ?s s'" "main s' = Joining 0" by auto
  moreover have "runTest_step nr cfg fds s ?s" using Suc.prems(2) i w(1) by (rule runTest_step.create)
  ultimately show ?case by (meson converse_rtranclp_into_rtranclp)
qed

section \<open>Properties\<close>

text \<open>
  C15. Let the options be sensible: between none and four channels, no negative iteration count,
  and a report that does not trap (the write request size is not zero, nor \<open>-1\<close> with an array
  size of \<open>-2^31\<close>).  Let the device be honest: it completes only transfers that were requested and
  not yet completed.  Then however the main thread and the workers are scheduled, between the
  turns of the spin loop, the polls and the changes of phase: no constructor leaves the tables of
  portal names, no report traps and no thread waits for its own lock; before the flag is set every
  thread is still spinning and no transfer has been requested; thread \<open>j\<close> drives channel \<open>j\<close>; the
  platform is initialised at most once, by the main thread before the first thread exists; and
  when \<^verbatim>\<open>runTest\<close> returns, one thread per channel has run and each has made exactly the transfers
  asked for.
\<close>

theorem runTest_is_safe:
  assumes "sensible cfg" "runTest new_ref cfg fds (test_init m0) s"
  shows "(\<forall>e. main s \<noteq> Failed e) \<and>
    (\<forall>j < length (threads s). channelNumber (fst (snd (threads s ! j))) = int j) \<and>
    (\<not> started s \<longrightarrow> (\<forall>(pc, w, _) \<in> set (threads s). pc = Spinning \<and> tos w = 0 \<and> froms w = 0)) \<and>
    (threads s \<noteq> [] \<longrightarrow> inits (manager s) = inits (v1_initDmaManager m0)) \<and>
    (main s = Returned \<longrightarrow> int (length (threads s)) = numchannels cfg \<and>
       (\<forall>(pc, w, _) \<in> set (threads s). pc = Exited \<and> tos w = wanted cfg True \<and> froms w = wanted cfg False))"
proof -
  note inv = runTest_inv [OF assms(2,1)]
  have ok: "thread_ok cfg t" if "t \<in> set (threads s)" for t
    using inv that by (auto simp: test_inv_def in_set_conv_nth)
  have "pc = Spinning \<and> tos w = 0 \<and> froms w = 0" if "\<not> started s" "(pc, w, ans) \<in> set (threads s)" for pc w ans
    using inv ok [OF that(2)] that by (fastforce simp: test_inv_def sent_def)
  moreover have "pc = Exited \<and> tos w = wanted cfg True \<and> froms w = wanted cfg False"
    if "main s = Returned" "(pc, w, ans) \<in> set (threads s)" for pc w ans
    using inv ok [OF that(2)] that by (fastforce simp: test_inv_def sent_def)
  ultimately show ?thesis using inv by (auto simp: test_inv_def)
qed

theorem runTest_is_safe_witness:
  "\<exists>s. runTest (\<lambda>_ _. 3) default_config (\<lambda>i k. int (4 * i + k)) (test_init \<lparr>mgr = False, calls = []\<rparr>) s \<and>
     length (threads s) = 1 \<and> inits (manager s) = [Platform_init] \<and> channelNumber (fst (snd (threads s ! 0))) = 0"
proof -
  define s0 where "s0 = test_init \<lparr>mgr = False, calls = []\<rparr>"
  have cfg: "sensible default_config" by (simp add: sensible_def default_config_def no_trap_def)
  obtain w where w: "ChannelWorker_new default_config (\<lambda>k. int (4 * 0 + k)) (manager s0) (int 0) = Inr w"
    by (rule ChannelWorker_new_settled [of "int 0" default_config "\<lambda>k. int (4 * 0 + k)" "manager s0"]) simp_all
  define s1 where "s1 = s0\<lparr>threads := threads s0 @ [(Spinning, w, \<lambda>_. 0)], manager := lib w, main := Creating (Suc 0)\<rparr>"
  have "runTest_step (\<lambda>_ _. 3) default_config (\<lambda>i k. int (4 * i + k)) s0 s1"
    unfolding s1_def by (rule runTest_step.create) (use w in \<open>simp_all add: s0_def test_init_def default_config_def\<close>)
  then have run: "runTest (\<lambda>_ _. 3) default_config (\<lambda>i k. int (4 * i + k)) (test_init \<lparr>mgr = False, calls = []\<rparr>) s1"
    unfolding s0_def by blast
  have "length (threads s1) = 1" by (simp add: s1_def s0_def test_init_def)
  with runTest_is_safe [OF cfg run] run show ?thesis
    by (intro exI [of _ s1]) (auto simp: inits_def v1_initDmaManager_def)
qed

text \<open>
  C16. With between none and four channels, no negative iteration count and a report that does not
  trap (the write request size is not zero, nor \<open>-1\<close> with an array size of \<open>-2^31\<close>), the
  exerciser cannot get stuck: from every state it can reach, with a device that completes only
  transfers that were requested and not yet completed, there is a continuation, in which the device completes
  the transfers in flight, that ends with \<^verbatim>\<open>runTest\<close> returning.
\<close>

theorem runTest_can_return:
  assumes "sensible cfg" "runTest new_ref cfg fds (test_init m0) s"
  shows "\<exists>s'. runTest new_ref cfg fds s s' \<and> main s' = Returned"
proof -
  note inv = runTest_inv [OF assms(2,1)]
  have joins: "\<exists>s'. runTest new_ref cfg fds t s' \<and> main s' = Returned" if "test_inv cfg m0 t" "main t = Joining i" for t i
    using joins_finish [OF assms(1) that] .
  show ?thesis
  proof (cases "main s")
    case (Creating i)
    from creation_finishes [OF assms(1) inv Creating, of new_ref fds] obtain t where
      t: "runTest new_ref cfg fds s t" "main t = Joining 0" by blast
    with assms(2) have "runTest new_ref cfg fds (test_init m0) t" by (meson rtranclp_trans)
    from joins [OF runTest_inv [OF this assms(1)] t(2)] t(1) show ?thesis by (meson rtranclp_trans)
  next
    case (Failed e)
    with inv show ?thesis by (simp add: test_inv_def)
  qed (use joins [OF inv] in auto)
qed

theorem runTest_can_return_witness:
  "\<exists>s. runTest (\<lambda>_ _. 3) (default_config\<lparr>numchannels := 2\<rparr>) (\<lambda>i k. int (4 * i + k)) (test_init \<lparr>mgr = False, calls = []\<rparr>) s \<and> main s = Returned"
  by (rule runTest_can_return [of "default_config\<lparr>numchannels := 2\<rparr>" "\<lambda>_ _. 3" "\<lambda>i k. int (4 * i + k)" "\<lparr>mgr = False, calls = []\<rparr>"])
    (simp_all add: sensible_def default_config_def no_trap_def)

section \<open>Options that are not checked\<close>

text \<open>With more channels than the tables of portal names have, the flag is never set.\<close>

definition overrun_inv :: "dma_test \<Rightarrow> bool" where
  "overrun_inv s \<longleftrightarrow> \<not> started s \<and> (\<forall>t \<in> set (threads s). fst t = Spinning) \<and>
     ((\<exists>i \<le> 4. main s = Creating i) \<or> main s = Failed Out_of_bounds)"

lemma ChannelWorker_new_iff:
  "ChannelWorker_new cfg fds m n = Inl e \<longleftrightarrow> \<not> (0 \<le> n \<and> n < 4) \<and> e = Out_of_bounds"
  "(\<exists>w. ChannelWorker_new cfg fds m n = Inr w) \<longleftrightarrow> 0 \<le> n \<and> n < 4"
  by (auto simp: ChannelWorker_new_def v1_DmaChannel_new_def proxyNames_def wrapperNames_def Let_def)

lemma overrun_step:
  assumes "runTest_step nr cfg fds s s'" "numchannels cfg > 4" "overrun_inv s"
  shows "overrun_inv s'"
  using assms(1)
proof cases
  case (create i w)
  moreover have "int i < 4" using create(4) ChannelWorker_new_iff(2) [of cfg "fds i" "manager s" "int i"] by auto
  ultimately show ?thesis using assms(3) by (auto simp: overrun_inv_def)
next
  case (create_fails i e)
  then show ?thesis using assms(3) by (auto simp: overrun_inv_def ChannelWorker_new_iff)
next
  case (thread j pc w ans p pc' w')
  have "pc = Spinning" using thread(2,3) assms(3) nth_mem [OF thread(2)] by (fastforce simp: overrun_inv_def)
  with thread(3,5) assms(3) have "pc' = Spinning" by (auto simp: thread_next_def overrun_inv_def)
  with thread(1) assms(3) set_update_subset_insert [of "threads s" j] show ?thesis by (fastforce simp: overrun_inv_def)
next
  case (thread_fails j p e)
  obtain w ans where "threads s ! j = (Spinning, w, ans)"
    using nth_mem [OF thread_fails(2)] assms(3) unfolding overrun_inv_def by (metis prod.collapse)
  with thread_fails(4) assms(3) show ?thesis by (simp add: thread_next_def overrun_inv_def)
qed (use assms in \<open>auto simp: overrun_inv_def\<close>)

lemma overrun_creates:
  assumes "numchannels cfg > 4" "i \<le> 4"
  shows "\<exists>s. runTest nr cfg fds (test_init m0) s \<and> main s = Creating i"
  using assms(2)
proof (induction i)
  case 0
  then show ?case by (intro exI [of _ "test_init m0"]) (simp add: test_init_def)
next
  case (Suc i)
  then obtain s where s: "runTest nr cfg fds (test_init m0) s" "main s = Creating i" by auto
  obtain w where w: "ChannelWorker_new cfg (fds i) (manager s) (int i) = Inr w"
    using ChannelWorker_new_iff(2) [of cfg "fds i" "manager s" "int i"] Suc.prems by auto
  have "runTest_step nr cfg fds s (s\<lparr>threads := threads s @ [(Spinning, w, \<lambda>_. 0)], manager := lib w, main := Creating (Suc i)\<rparr>)"
    by (rule runTest_step.create) (use assms(1) Suc.prems s(2) w in auto)
  with s(1) show ?case by (intro exI [of _ "s\<lparr>threads := threads s @ [(Spinning, w, \<lambda>_. 0)], manager := lib w, main := Creating (Suc i)\<rparr>"]) (auto intro: rtranclp.rtrancl_into_rtrancl)
qed

text \<open>
  C36. Two options are taken unchecked.  With more than four channels the fifth worker indexes the
  portal names outside their tables: this state is reached, and in no run is the flag set or
  does \<^verbatim>\<open>runTest\<close> return.  With a write request size of zero the first completion of either kind
  divides by zero.
\<close>

theorem unchecked_options_fail:
  "(numchannels cfg > 4 \<longrightarrow>
      (\<exists>s. runTest new_ref cfg fds (test_init m0) s \<and> main s = Failed Out_of_bounds) \<and>
      (\<forall>s. runTest new_ref cfg fds (test_init m0) s \<longrightarrow> \<not> started s \<and> main s \<noteq> Returned)) \<and>
   (writeReqBytes cfg = 0 \<longrightarrow>
      transferToFpgaDone new_ref cfg sglId base tag cycles w = Inl Division_trap \<and>
      transferFromFpgaDone new_ref cfg sglId base tag cycles w = Inl Division_trap)"
proof (intro conjI impI allI)
  assume n: "numchannels cfg > 4"
  from overrun_creates [OF n, of 4 new_ref fds m0] obtain s where
    s: "runTest new_ref cfg fds (test_init m0) s" "main s = Creating 4" by auto
  have "runTest_step new_ref cfg fds s (s\<lparr>main := Failed Out_of_bounds\<rparr>)"
    by (rule runTest_step.create_fails [OF s(2)]) (use n in \<open>auto simp: ChannelWorker_new_iff\<close>)
  with s(1) show "\<exists>s. runTest new_ref cfg fds (test_init m0) s \<and> main s = Failed Out_of_bounds"
    by (intro exI [of _ "s\<lparr>main := Failed Out_of_bounds\<rparr>"]) (auto intro: rtranclp.rtrancl_into_rtrancl)
  fix s assume "runTest new_ref cfg fds (test_init m0) s"
  then have "overrun_inv s"
  proof (induction rule: rtranclp_induct)
    case base
    show ?case by (simp add: overrun_inv_def test_init_def)
  qed (rule overrun_step [OF _ n])
  then show "\<not> started s" "main s \<noteq> Returned" by (auto simp: overrun_inv_def)
next
  assume "writeReqBytes cfg = 0"
  then have "\<not> no_trap cfg" by (simp add: no_trap_def)
  then show "transferToFpgaDone new_ref cfg sglId base tag cycles w = Inl Division_trap"
    "transferFromFpgaDone new_ref cfg sglId base tag cycles w = Inl Division_trap"
    by (simp_all add: transferToFpgaDone_def transferFromFpgaDone_def report_utilization_iff)
qed

theorem unchecked_options_fail_witness:
  "\<exists>cfg s. dma_options [(CHR ''n'', ''5'')] default_config = Some cfg \<and>
     runTest (\<lambda>_ _. 3) cfg (\<lambda>i k. int (4 * i + k)) (test_init \<lparr>mgr = False, calls = []\<rparr>) s \<and> main s = Failed Out_of_bounds"
proof -
  have opt: "dma_options [(CHR ''n'', ''5'')] default_config = Some (default_config\<lparr>numchannels := 5\<rparr>)"
    by (simp add: dma_option_def strtoul_def is_space_def scan_unsigned_def scan_digits_def scan_base_def digit_val_def to_int_def Let_def)
  from unchecked_options_fail [of "default_config\<lparr>numchannels := 5\<rparr>" "\<lambda>_ _. 3" "\<lambda>i k. int (4 * i + k)" "\<lparr>mgr = False, calls = []\<rparr>"]
  show ?thesis unfolding opt by auto
qed

end
