(* ===== verification/Dpdk.thy ===== *)
theory Dpdk
  imports Sonic_Prelude
begin

unbundle bit_operations_syntax

text \<open>
  The bridge to Intel DPDK (\<^verbatim>\<open>src/sonic/cpp/dpdk.cpp\<close>): the scatter-gather list and region table sent
  to the memory-management unit, packet requests by physical address, and the transmit credit
  shared between the client's thread and the portal's.  The portal proxies and the DMA manager
  belong to Connectal: the requests made of them are recorded in order, and the list number
  the unit answers with is an argument.  A C \<^verbatim>\<open>int\<close> counter is kept as the 32-bit word it is.
\<close>

section \<open>State\<close>

datatype request =
    Platform_init | New_request_proxy | New_indication
  | Id_request int | Wait_sglId | Wait_conf
  | Sglist int nat int int | Region int "(u64 \<times> u32) list"
  | Mutex_init | Mutex_lock | Mutex_unlock
  | Read_version | Start_read int u32 u32 u32 | Start_write int u32 u32 u32 | Reset_write u32
  | Poller_start | Poller_stop | Poller_event

text \<open>
  The singleton (zero until it is first used), the credit counter and the requests made.
\<close>

record dpdk =
  constructed :: bool
  mmu_sglId :: int
  phys_base :: u64
  tx_credit :: u32
  requests :: "request list"

definition SONIC_TX_CREDIT :: u32 where "SONIC_TX_CREDIT = 128"

definition dpdk_start :: dpdk where
  "dpdk_start = \<lparr>constructed = False, mmu_sglId = 0, phys_base = 0, tx_credit = SONIC_TX_CREDIT, requests = []\<rparr>"

definition ask :: "request list \<Rightarrow> dpdk \<Rightarrow> dpdk" where
  "ask rs s = s\<lparr>requests := requests s @ rs\<rparr>"

section \<open>The scatter-gather list\<close>

definition shifts :: "nat list" where "shifts = [24, 20, 16, 12, 0]"

definition wrap32 :: "int \<Rightarrow> int" where
  "wrap32 x = sint (of_int x :: u32)"

text \<open>
  The loop over the entries, with the index, the accumulated size and the region counters.  The
  inner loop looks for the page size; an unknown size leaves the address unshifted.
\<close>

fun sglist_loop :: "int \<Rightarrow> int \<Rightarrow> nat \<Rightarrow> nat \<Rightarrow> int \<Rightarrow> u32 list \<Rightarrow> request list \<times> nat \<times> u32 list" where
  "sglist_loop lid len 0 i size_accum regions = ([], i, regions)"
| "sglist_loop lid len (Suc entries) i size_accum regions =
     (if len = 0 then ([], i, regions)
      else let addr = size_accum OR push_bit 32 lid;
               (regions, addr) =
                 (case find (\<lambda>j. len = 2 ^ (shifts ! j)) [0..<4] of
                    Some j \<Rightarrow> (regions[j := regions ! j + 1], drop_bit (shifts ! j) addr)
                  | None \<Rightarrow> (regions, addr));
               (rs, n, regions) = sglist_loop lid len entries (Suc i) (wrap32 (size_accum + len)) regions
           in (Sglist lid i addr len # rs, n, regions))"

text \<open>One step of the loop that computes the borders of the four page sizes, and the loop.\<close>

definition region_step :: "u32 list \<Rightarrow> nat \<Rightarrow> u8 \<times> u64 \<times> (u64 \<times> u32) list \<Rightarrow> u8 \<times> u64 \<times> (u64 \<times> u32) list" where
  "region_step regions i st =
     (let (entryCount, border, vals) = st;
          idxOffset = entryCount - ucast border;
          entryCount = entryCount + ucast (regions ! i);
          border = border + ucast (regions ! i)
      in (entryCount, push_bit (shifts ! i - shifts ! (i + 1)) border, vals @ [(border, ucast idxOffset)]))"

definition region_values :: "u32 list \<Rightarrow> (u64 \<times> u32) list" where
  "region_values regions = snd (snd (fold (region_step regions) [0..<4] (0, 0, [])))"

definition send_fd_to_portal :: "int \<Rightarrow> u64 \<Rightarrow> dpdk \<Rightarrow> int \<times> dpdk" where
  "send_fd_to_portal lid sz s =
     (let entries = unat (ucast (drop_bit 24 sz) :: u32);
          (rs, i, regions) = sglist_loop lid (2 ^ 24) entries 0 0 [0, 0, 0, 0]
      in (lid, ask (rs @ [Sglist lid i 0 0, Region lid (region_values regions)]) s))"

text \<open>\<open>sglId\<close> is the number the memory-management unit answers the request with.\<close>

definition dma_reference :: "int \<Rightarrow> int \<Rightarrow> u64 \<Rightarrow> dpdk \<Rightarrow> int \<times> dpdk" where
  "dma_reference sglId fd sz s =
     (let s = ask [Id_request fd, Wait_sglId] s;
          (rc, s) = send_fd_to_portal sglId sz s
      in (rc, if rc \<le> 0 then ask [Wait_conf] s else s))"

section \<open>The manager\<close>

text \<open>The methods of the class.\<close>

definition SonicDpdkManager_new :: "dpdk \<Rightarrow> dpdk" where
  "SonicDpdkManager_new s = ask [Platform_init, New_request_proxy, New_indication] (s\<lparr>constructed := True\<rparr>)"

definition manager_init :: "int \<Rightarrow> int \<Rightarrow> u64 \<Rightarrow> u32 \<Rightarrow> dpdk \<Rightarrow> dpdk" where
  "manager_init sglId fd phys_addr len s =
     (let (rc, s) = dma_reference sglId fd (ucast len) s
      in ask [Mutex_init] (s\<lparr>mmu_sglId := rc, phys_base := phys_addr\<rparr>))"

definition manager_tx_send_pa :: "u64 \<Rightarrow> u32 \<Rightarrow> dpdk \<Rightarrow> dpdk" where
  "manager_tx_send_pa pkt_base len s =
     (let offset = ucast (pkt_base - phys_base s) in ask [Start_read (mmu_sglId s) offset len len] s)"

definition manager_rx_send_pa :: "u64 \<Rightarrow> u32 \<Rightarrow> dpdk \<Rightarrow> dpdk" where
  "manager_rx_send_pa pkt_base len s =
     (let offset = ucast (pkt_base - phys_base s) in ask [Start_write (mmu_sglId s) offset len len] s)"

definition manager_reset_rx :: "u32 \<Rightarrow> dpdk \<Rightarrow> dpdk" where
  "manager_reset_rx qid = ask [Reset_write qid]"

definition manager_read_version :: "dpdk \<Rightarrow> dpdk" where
  "manager_read_version = ask [Read_version]"

text \<open>The C interface: every call reaches the one manager, which the first call constructs.\<close>

definition theDpdk :: "dpdk \<Rightarrow> dpdk" where
  "theDpdk s = (if constructed s then s else SonicDpdkManager_new s)"

definition init :: "int \<Rightarrow> int \<Rightarrow> u64 \<Rightarrow> u32 \<Rightarrow> dpdk \<Rightarrow> dpdk" where
  "init sglId fd phys_addr len s = manager_init sglId fd phys_addr len (theDpdk s)"

definition tx_send_pa :: "u64 \<Rightarrow> u32 \<Rightarrow> dpdk \<Rightarrow> dpdk" where
  "tx_send_pa base len s = manager_tx_send_pa base len (theDpdk s)"

definition rx_send_pa :: "u64 \<Rightarrow> u32 \<Rightarrow> dpdk \<Rightarrow> dpdk" where
  "rx_send_pa base len s = manager_rx_send_pa base len (theDpdk s)"

definition reset_rx :: "u32 \<Rightarrow> dpdk \<Rightarrow> dpdk" where
  "reset_rx qid s = manager_reset_rx qid (theDpdk s)"

definition read_version :: "dpdk \<Rightarrow> dpdk" where
  "read_version s = manager_read_version (theDpdk s)"

definition start_default_poller :: "dpdk \<Rightarrow> dpdk" where
  "start_default_poller = ask [Poller_start]"

definition stop_default_poller :: "dpdk \<Rightarrow> dpdk" where
  "stop_default_poller = ask [Poller_stop]"

definition sonic_poll :: "dpdk \<Rightarrow> dpdk" where
  "sonic_poll = ask [Poller_event]"

section \<open>The transmit credit\<close>

text \<open>
  The functions on the credit as the instructions a thread executes, with its copy of the counter in a
  register: \<^verbatim>\<open>tx_credit += cred\<close> is a load, an addition and a store.
\<close>

datatype credit_instr = Lock | Load | Add u32 | Subtract u32 | Store | Unlock

definition writeTxCred_code :: "u32 \<Rightarrow> credit_instr list" where
  "writeTxCred_code cred = [Lock, Load, Add cred, Store, Unlock]"

definition tx_credit_decrement_code :: "u32 \<Rightarrow> credit_instr list" where
  "tx_credit_decrement_code v = [Lock, Load, Subtract v, Store, Unlock]"

definition tx_credit_available_code :: "credit_instr list" where
  "tx_credit_available_code = [Lock, Load, Unlock]"

text \<open>Executed by one thread alone.\<close>

fun run_alone :: "credit_instr list \<Rightarrow> u32 \<Rightarrow> dpdk \<Rightarrow> u32 \<times> dpdk" where
  "run_alone [] r s = (r, s)"
| "run_alone (Lock # is) r s = run_alone is r (ask [Mutex_lock] s)"
| "run_alone (Load # is) r s = run_alone is (tx_credit s) s"
| "run_alone (Add c # is) r s = run_alone is (r + c) s"
| "run_alone (Subtract c # is) r s = run_alone is (r - c) s"
| "run_alone (Store # is) r s = run_alone is r (s\<lparr>tx_credit := r\<rparr>)"
| "run_alone (Unlock # is) r s = run_alone is r (ask [Mutex_unlock] s)"

definition writeTxCred :: "u32 \<Rightarrow> dpdk \<Rightarrow> dpdk" where
  "writeTxCred cred s = snd (run_alone (writeTxCred_code cred) 0 s)"

definition tx_credit_decrement :: "u32 \<Rightarrow> dpdk \<Rightarrow> dpdk" where
  "tx_credit_decrement v s = snd (run_alone (tx_credit_decrement_code v) 0 s)"

definition tx_credit_available :: "dpdk \<Rightarrow> int \<times> dpdk" where
  "tx_credit_available s = (let (v, s) = run_alone tx_credit_available_code 0 s in (sint v, s))"

definition get_tx_credit :: "dpdk \<Rightarrow> u32" where
  "get_tx_credit s = tx_credit s"

text \<open>The handlers of the device's indications: all but the credit only print.\<close>

datatype top_indication =
    Version_resp u32 | Read_done u32 | Started u32 | Write_done u32 | State_dbg u32 u32 | Tx_cred u32

fun SonicTopIndication :: "top_indication \<Rightarrow> dpdk \<Rightarrow> dpdk" where
  "SonicTopIndication (Version_resp a) s = s"
| "SonicTopIndication (Read_done a) s = s"
| "SonicTopIndication (Started words) s = s"
| "SonicTopIndication (Write_done srcGen) s = s"
| "SonicTopIndication (State_dbg streamWrCnt srcGen) s = s"
| "SonicTopIndication (Tx_cred cred) s = writeTxCred cred s"

section \<open>The list sent\<close>

lemma find_shift: "find (\<lambda>j. (2 :: int) ^ 24 = 2 ^ (shifts ! j)) [0..<4] = Some 0"
  by (simp add: shifts_def upt_rec)

lemma entry_address:
  assumes "i < 128"
  shows "drop_bit 24 (int i * 2 ^ 24 OR push_bit 32 lid) = lid * 256 + int i"
proof -
  have "drop_bit 24 (int i * 2 ^ 24 OR push_bit 32 lid) = int i OR push_bit 8 lid"
    unfolding drop_bit_or by (simp add: drop_bit_push_bit) (simp add: drop_bit_eq_div)
  also have "\<dots> = concat_bit 8 (int i) lid"
    using assms by (simp add: concat_bit_def take_bit_int_eq_self)
  also have "\<dots> = lid * 256 + int i"
    using assms by (simp add: concat_bit_eq take_bit_int_eq_self push_bit_eq_mult)
  finally show ?thesis .
qed

lemma wrap32_id: "- 2147483648 \<le> x \<Longrightarrow> x < 2147483648 \<Longrightarrow> wrap32 x = x"
  by (simp add: wrap32_def signed_of_int signed_take_bit_int_eq_self)

lemma sglist_loop_pages:
  assumes "i + n < 128" "length regions = 4"
  shows "sglist_loop lid (2 ^ 24) n i (int i * 2 ^ 24) regions =
    (map (\<lambda>k. Sglist lid k (lid * 256 + int k) (2 ^ 24)) [i..<i + n], i + n,
     regions[0 := regions ! 0 + of_nat n])"
  using assms
proof (induction n arbitrary: i regions)
  case (Suc n)
  have acc: "wrap32 (int i * 2 ^ 24 + 2 ^ 24) = int (Suc i) * 2 ^ 24"
    using Suc.prems(1) by (subst wrap32_id) auto
  have up: "[i..<i + Suc n] = i # [Suc i..<Suc i + n]"
    by (simp add: upt_rec)
  show ?case
    using Suc.prems Suc.IH [of "Suc i" "regions[0 := regions ! 0 + 1]"]
    by (simp only: sglist_loop.simps find_shift option.case acc up)
      (simp add: Let_def shifts_def entry_address [simplified] add.assoc)
qed simp

lemma region_borders:
  "map fst (region_values [of_nat n, 0, 0, 0]) =
     [ucast (of_nat n :: u32), ucast (of_nat n :: u32) * 16, ucast (of_nat n :: u32) * 256, ucast (of_nat n :: u32) * 4096]"
  "snd (region_values [of_nat n, 0, 0, 0] ! 0) = 0"
  by (simp_all add: region_values_def upt_rec region_step_def Let_def shifts_def push_bit_eq_mult)

lemma region_border_bytes:
  assumes "n < 128" "j < 4"
  shows "uint (map fst (region_values [of_nat n, 0, 0, 0]) ! j) * 2 ^ (shifts ! j) = int n * 2 ^ 24"
proof -
  have c: "ucast (of_nat n :: u32) = (of_nat n :: u64)"
    using assms(1) by (simp add: unsigned_of_nat take_bit_nat_eq_self)
  have u: "uint (of_nat n * k :: u64) = int n * uint k" if "int n * uint k < 2 ^ 64" for k :: u64
    using that assms(1) by (simp add: uint_word_arith_bintrs unsigned_of_nat take_bit_int_eq_self take_bit_nat_eq_self)
  from assms(2) consider "j = 0" | "j = 1" | "j = 2" | "j = 3" by linarith
  then show ?thesis
    unfolding region_borders c using assms(1) u [of 1] u [of 16] u [of 256] u [of 4096]
    by cases (simp_all add: shifts_def)
qed

lemma send_fd_pages:
  assumes "sz < 2 ^ 31"
  shows "send_fd_to_portal lid sz s =
    (lid, ask (map (\<lambda>k. Sglist lid k (lid * 256 + int k) (2 ^ 24)) [0..<unat sz div 2 ^ 24] @
       [Sglist lid (unat sz div 2 ^ 24) 0 0, Region lid (region_values [of_nat (unat sz div 2 ^ 24), 0, 0, 0])]) s)"
proof -
  have sz: "unat sz < 2 ^ 31" using assms by (simp add: word_less_nat_alt)
  then have "unat (ucast (drop_bit 24 sz) :: u32) = unat sz div 2 ^ 24"
    by (simp add: unsigned_ucast_eq unat_drop_bit_eq) (simp add: drop_bit_eq_div take_bit_nat_eq_self)
  moreover have "unat sz div 2 ^ 24 < 128" using sz by simp
  ultimately show ?thesis
    using sglist_loop_pages [of 0 "unat sz div 2 ^ 24" "[0, 0, 0, 0]" lid] by (simp add: send_fd_to_portal_def Let_def)
qed

lemma init_requests:
  assumes "len < 2 ^ 31"
  shows "requests (init sglId fd phys_addr len s) = requests (theDpdk s) @ [Id_request fd, Wait_sglId] @
      map (\<lambda>k. Sglist sglId k (sglId * 256 + int k) (2 ^ 24)) [0..<unat len div 2 ^ 24] @
      [Sglist sglId (unat len div 2 ^ 24) 0 0, Region sglId (region_values [of_nat (unat len div 2 ^ 24), 0, 0, 0])] @
      (if sglId \<le> 0 then [Wait_conf] else []) @ [Mutex_init]"
    and "mmu_sglId (init sglId fd phys_addr len s) = sglId"
proof -
  have "unat len < 2 ^ 64" using unsigned_less [of len, where 'a = nat] by simp
  then have u: "unat (ucast len :: u64) = unat len" by (simp add: unsigned_ucast_eq take_bit_nat_eq_self)
  then have c: "(ucast len :: u64) < 2 ^ 31" using assms by (simp add: word_less_nat_alt)
  show "requests (init sglId fd phys_addr len s) = requests (theDpdk s) @ [Id_request fd, Wait_sglId] @
      map (\<lambda>k. Sglist sglId k (sglId * 256 + int k) (2 ^ 24)) [0..<unat len div 2 ^ 24] @
      [Sglist sglId (unat len div 2 ^ 24) 0 0, Region sglId (region_values [of_nat (unat len div 2 ^ 24), 0, 0, 0])] @
      (if sglId \<le> 0 then [Wait_conf] else []) @ [Mutex_init]"
    "mmu_sglId (init sglId fd phys_addr len s) = sglId"
    unfolding init_def manager_init_def Let_def dma_reference_def send_fd_pages [OF c] u by (simp_all add: ask_def)
qed

lemma init_frame:
  "phys_base (init sglId fd phys_addr len s) = phys_addr" "tx_credit (init sglId fd phys_addr len s) = tx_credit s"
  "constructed (init sglId fd phys_addr len s)"
  by (auto simp: init_def manager_init_def dma_reference_def send_fd_to_portal_def Let_def ask_def theDpdk_def SonicDpdkManager_new_def case_prod_unfold)

lemma packet_offset:
  assumes "uint (phys :: u64) \<le> uint base" "uint base - uint phys < 2 ^ 32"
  shows "uint (ucast (base - phys) :: u32) = uint base - uint phys"
proof -
  have "uint (base - phys) = uint base - uint phys"
    using assms by (simp add: uint_word_arith_bintrs take_bit_int_eq_self)
  then show ?thesis using assms by (simp add: unsigned_ucast_eq take_bit_int_eq_self)
qed

lemma page_of_byte:
  assumes "0 \<le> b" "b < int n * 2 ^ 24"
  shows "Sglist lid (nat (b div 2 ^ 24)) (lid * 256 + b div 2 ^ 24) (2 ^ 24) \<in>
      set (map (\<lambda>k. Sglist lid k (lid * 256 + int k) (2 ^ 24)) [0..<n])"
    and "(lid * 256 + b div 2 ^ 24) * 2 ^ 24 + b mod 2 ^ 24 = lid * 2 ^ 32 + b"
proof -
  have e: "b div 2 ^ 24 * 2 ^ 24 + b mod 2 ^ 24 = b" by simp
  have q: "0 \<le> b div 2 ^ 24" using assms(1) by simp
  have "b div 2 ^ 24 < int n"
  proof (rule ccontr)
    assume "\<not> b div 2 ^ 24 < int n"
    then have "int n * 2 ^ 24 \<le> b div 2 ^ 24 * 2 ^ 24" by (intro mult_right_mono) simp_all
    moreover have "0 \<le> b mod 2 ^ 24" by simp
    ultimately show False using assms(2) e by linarith
  qed
  with q show "Sglist lid (nat (b div 2 ^ 24)) (lid * 256 + b div 2 ^ 24) (2 ^ 24) \<in>
      set (map (\<lambda>k. Sglist lid k (lid * 256 + int k) (2 ^ 24)) [0..<n])"
    unfolding set_map by (intro image_eqI [where x = "nat (b div 2 ^ 24)"]) (simp_all add: nat_less_iff)
  show "(lid * 256 + b div 2 ^ 24) * 2 ^ 24 + b mod 2 ^ 24 = lid * 2 ^ 32 + b"
    using e by (simp add: algebra_simps)
qed

section \<open>Credit accounting\<close>

lemma credit_functions:
  "tx_credit (writeTxCred cred s) = tx_credit s + cred"
  "tx_credit (tx_credit_decrement v s) = tx_credit s - v"
  "fst (tx_credit_available s) = sint (tx_credit s)" "tx_credit (snd (tx_credit_available s)) = tx_credit s"
  by (simp_all add: writeTxCred_def writeTxCred_code_def tx_credit_decrement_def tx_credit_decrement_code_def
      tx_credit_available_def tx_credit_available_code_def ask_def)

text \<open>
  What a credit counter promises: the balance moves by what is granted and spent.  As long as
  no more is granted than is outstanding and no more is spent than is left, the signed reading
  of the balance is what is left.
\<close>

locale credit_account =
  fixes balance :: "'s \<Rightarrow> u32"
    and grant :: "u32 \<Rightarrow> 's \<Rightarrow> 's"
    and spend :: "u32 \<Rightarrow> 's \<Rightarrow> 's"
  assumes balance_grant: "balance (grant c s) = balance s + c"
    and balance_spend: "balance (spend c s) = balance s - c"
begin

lemma grant_left:
  assumes "sint (balance s) = 128 - outstanding" "outstanding \<le> 128" "uint c \<le> outstanding"
  shows "sint (balance (grant c s)) = 128 - (outstanding - uint c)"
proof -
  have "balance (grant c s) = of_int (128 - (outstanding - uint c))"
    using arg_cong [OF assms(1), of "of_int :: int \<Rightarrow> u32"] by (simp add: balance_grant)
  moreover have "wrap32 (128 - (outstanding - uint c)) = 128 - (outstanding - uint c)"
    using assms(2,3) uint_ge_0 [of c] by (intro wrap32_id) linarith+
  ultimately show ?thesis by (simp only: wrap32_def)
qed

lemma spend_left:
  assumes "sint (balance s) = 128 - outstanding" "0 \<le> outstanding" "uint c \<le> 128 - outstanding"
  shows "sint (balance (spend c s)) = 128 - (outstanding + uint c)"
proof -
  have "balance (spend c s) = of_int (128 - (outstanding + uint c))"
    using arg_cong [OF assms(1), of "of_int :: int \<Rightarrow> u32"] by (simp add: balance_spend)
  moreover have "wrap32 (128 - (outstanding + uint c)) = 128 - (outstanding + uint c)"
    using assms(2,3) uint_ge_0 [of c] by (intro wrap32_id) linarith+
  ultimately show ?thesis by (simp only: wrap32_def)
qed

end

interpretation txcred: credit_account tx_credit writeTxCred tx_credit_decrement
  by unfold_locales (simp_all add: credit_functions)

text \<open>
  A client in the style of a poll-mode driver: it looks at the credit, sends no more packets
  than the credit it has seen, and the device returns credit for packets it has consumed.
  \<open>seen\<close> is what is left of the credit last seen, which may be stale; \<open>outstanding\<close> counts packets
  the device has not returned.
\<close>

inductive credit_client :: "dpdk \<Rightarrow> int \<Rightarrow> int \<Rightarrow> bool" where
  start: "tx_credit s = SONIC_TX_CREDIT \<Longrightarrow> credit_client s 0 0"
| look: "credit_client s seen outstanding \<Longrightarrow> tx_credit_available s = (v, s') \<Longrightarrow> credit_client s' v outstanding"
| send: "credit_client s seen outstanding \<Longrightarrow> uint v \<le> seen \<Longrightarrow>
    credit_client (tx_credit_decrement v (tx_send_pa base len s)) (seen - uint v) (outstanding + uint v)"
| returned: "credit_client s seen outstanding \<Longrightarrow> uint c \<le> outstanding \<Longrightarrow>
    credit_client (writeTxCred c s) seen (outstanding - uint c)"
| other: "credit_client s seen outstanding \<Longrightarrow> tx_credit s' = tx_credit s \<Longrightarrow> credit_client s' seen outstanding"

lemma tx_credit_frame [simp]:
  "tx_credit (ask rs s) = tx_credit s" "tx_credit (theDpdk s) = tx_credit s"
  "tx_credit (tx_send_pa base len s) = tx_credit s"
  by (simp_all add: ask_def theDpdk_def SonicDpdkManager_new_def tx_send_pa_def manager_tx_send_pa_def Let_def)

lemma credit_client_balance:
  "credit_client s seen outstanding \<Longrightarrow>
     sint (tx_credit s) = 128 - outstanding \<and> 0 \<le> outstanding \<and> outstanding \<le> 128 \<and> seen \<le> 128 - outstanding"
proof (induction rule: credit_client.induct)
  case (start s)
  then show ?case by (simp add: SONIC_TX_CREDIT_def)
next
  case (look s seen outstanding v s')
  then show ?case using credit_functions(3,4) [of s] by simp
next
  case (send s seen outstanding v base len)
  then show ?case
    using txcred.spend_left [of "tx_send_pa base len s" outstanding v] by auto
next
  case (returned s seen outstanding c)
  then show ?case using txcred.grant_left [of s outstanding c] uint_ge_0 [of c] by linarith
qed auto

section \<open>Threads on the credit\<close>

text \<open>
  Any number of threads call the functions, and execute their instructions in any interleaving; a
  lock can be taken when no thread holds it.  \<open>hist\<close> records each call at its last access to the
  counter, with its register then: what an update stores, or what a query returns.
\<close>

datatype credit_call = Write_cred u32 | Decrement u32 | Available

fun credit_code :: "credit_call \<Rightarrow> credit_instr list" where
  "credit_code (Write_cred cred) = writeTxCred_code cred"
| "credit_code (Decrement v) = tx_credit_decrement_code v"
| "credit_code Available = tx_credit_available_code"

datatype credit_thread = Idle | Running credit_call "credit_instr list" u32

record credit_sys =
  credit :: u32
  holder :: "nat option"
  thread :: "nat \<Rightarrow> credit_thread"
  hist :: "(credit_call \<times> u32) list"

definition record_last :: "credit_call \<Rightarrow> credit_instr list \<Rightarrow> u32 \<Rightarrow> credit_sys \<Rightarrow> credit_sys" where
  "record_last c is r s = (if Load \<in> set is \<or> Store \<in> set is then s else s\<lparr>hist := hist s @ [(c, r)]\<rparr>)"

definition goes_on :: "nat \<Rightarrow> credit_call \<Rightarrow> credit_instr list \<Rightarrow> u32 \<Rightarrow> credit_sys \<Rightarrow> credit_sys" where
  "goes_on t c is r s = s\<lparr>thread := (thread s)(t := Running c is r)\<rparr>"

inductive credit_step :: "nat \<Rightarrow> credit_sys \<Rightarrow> credit_sys \<Rightarrow> bool" for t where
  call: "thread s t = Idle \<Longrightarrow> credit_step t s (goes_on t c (credit_code c) 0 s)"
| lock: "thread s t = Running c (Lock # is) r \<Longrightarrow> holder s = None \<Longrightarrow>
    credit_step t s (goes_on t c is r (s\<lparr>holder := Some t\<rparr>))"
| load: "thread s t = Running c (Load # is) r \<Longrightarrow>
    credit_step t s (goes_on t c is (credit s) (record_last c is (credit s) s))"
| add: "thread s t = Running c (Add x # is) r \<Longrightarrow> credit_step t s (goes_on t c is (r + x) s)"
| subtract: "thread s t = Running c (Subtract x # is) r \<Longrightarrow> credit_step t s (goes_on t c is (r - x) s)"
| store: "thread s t = Running c (Store # is) r \<Longrightarrow>
    credit_step t s (goes_on t c is r (record_last c is r (s\<lparr>credit := r\<rparr>)))"
| unlock: "thread s t = Running c (Unlock # is) r \<Longrightarrow> credit_step t s (goes_on t c is r (s\<lparr>holder := None\<rparr>))"
| leave: "thread s t = Running c [] r \<Longrightarrow> credit_step t s (s\<lparr>thread := (thread s)(t := Idle)\<rparr>)"

definition credit_steps :: "credit_sys \<Rightarrow> credit_sys \<Rightarrow> bool" where
  "credit_steps = (\<lambda>s s'. \<exists>t. credit_step t s s')\<^sup>*\<^sup>*"

text \<open>The same call made by one thread alone.\<close>

fun credit_effect :: "credit_call \<Rightarrow> dpdk \<Rightarrow> dpdk" where
  "credit_effect (Write_cred cred) s = writeTxCred cred s"
| "credit_effect (Decrement v) s = tx_credit_decrement v s"
| "credit_effect Available s = snd (tx_credit_available s)"

fun stored_value :: "credit_call \<Rightarrow> u32 \<Rightarrow> u32" where
  "stored_value (Write_cred cred) v = v + cred"
| "stored_value (Decrement d) v = v - d"
| "stored_value Available v = v"

lemma credit_effect_value: "tx_credit (credit_effect c s) = stored_value c (tx_credit s)"
  by (cases c) (simp_all add: credit_functions)

definition credit_idle :: "u32 \<Rightarrow> credit_sys" where
  "credit_idle c = \<lparr>credit = c, holder = None, thread = (\<lambda>_. Idle), hist = []\<rparr>"

text \<open>
  The holder of the lock is between its lock and its unlock, every other thread outside, and the
  holder's register is what the counter is, or what the call makes of it.
\<close>

fun outside :: "credit_thread \<Rightarrow> bool" where
  "outside Idle = True"
| "outside (Running c is r) = (is = [] \<or> is = credit_code c)"

fun inside :: "u32 \<Rightarrow> credit_thread \<Rightarrow> bool" where
  "inside v Idle = False"
| "inside v (Running c is r) =
     (is = drop 1 (credit_code c) \<or> is = [Unlock] \<or>
      is = drop 2 (credit_code c) \<and> r = v \<or>
      is = drop 3 (credit_code c) \<and> is \<noteq> [] \<and> r = stored_value c v)"

definition lock_ok :: "credit_sys \<Rightarrow> bool" where
  "lock_ok s \<longleftrightarrow> (\<forall>t. if holder s = Some t then inside (credit s) (thread s t) else outside (thread s t))"

definition credit_ok :: "dpdk \<Rightarrow> credit_sys \<Rightarrow> bool" where
  "credit_ok s0 s \<longleftrightarrow> lock_ok s \<and>
     credit s = tx_credit (fold credit_effect (map fst (hist s)) s0) \<and>
     (\<forall>i < length (hist s). snd (hist s ! i) = tx_credit (fold credit_effect (map fst (take (Suc i) (hist s))) s0))"

lemmas credit_codes = writeTxCred_code_def tx_credit_decrement_code_def tx_credit_available_code_def

lemma outside_start: "outside (Running c is r) \<Longrightarrow> is = [] \<or> (\<exists>is'. is = Lock # is')"
  by (cases c) (auto simp: credit_codes)

lemma inside_step:
  assumes "inside v (Running c is r)"
  shows "(is = Load # drop 2 (credit_code c)) \<or> (\<exists>x. is = Add x # [Store, Unlock] \<and> r = v \<and> stored_value c v = v + x \<and> is = drop 2 (credit_code c)) \<or>
    (\<exists>x. is = Subtract x # [Store, Unlock] \<and> r = v \<and> stored_value c v = v - x \<and> is = drop 2 (credit_code c)) \<or>
    is = [Store, Unlock] \<and> r = stored_value c v \<or> is = [Unlock]"
  using assms by (cases c) (auto simp: credit_codes)

lemma credit_ok_thread:
  "credit_ok s0 s \<Longrightarrow> holder s = Some t \<Longrightarrow> inside (credit s) (thread s t)"
  "credit_ok s0 s \<Longrightarrow> holder s \<noteq> Some t \<Longrightarrow> outside (thread s t)"
  unfolding credit_ok_def lock_ok_def by metis+

lemma holder_inside:
  assumes "credit_ok s0 s" "thread s t = Running c (i # is) r" "i \<noteq> Lock"
  shows "holder s = Some t" "inside (credit s) (Running c (i # is) r)"
proof -
  have "\<not> outside (thread s t)" using assms(2,3) outside_start [of c "i # is" r] by auto
  with assms(1,2) show "holder s = Some t" "inside (credit s) (Running c (i # is) r)"
    using credit_ok_thread [OF assms(1), of t] by fastforce+
qed

lemma credit_ok_goes_on:
  assumes "credit_ok s0 s" "holder s = Some t" "inside (credit s) (Running c is r)"
  shows "credit_ok s0 (goes_on t c is r s)"
  using assms unfolding credit_ok_def by (simp add: goes_on_def lock_ok_def)

text \<open>The last access of a call: the counter becomes what the call makes of it, and is recorded.\<close>

lemma credit_ok_access:
  assumes "credit_ok s0 s" "holder s = Some t" "v = stored_value c (credit s)" "inside v (Running c is v)"
  shows "credit_ok s0 (goes_on t c is v (s\<lparr>credit := v, hist := hist s @ [(c, v)]\<rparr>))"
  using assms unfolding credit_ok_def by (auto simp: goes_on_def lock_ok_def credit_effect_value nth_append less_Suc_eq)

lemma credit_step_ok: "credit_step t s s' \<Longrightarrow> credit_ok s0 s \<Longrightarrow> credit_ok s0 s'"
proof (induction rule: credit_step.induct)
  case (call s c)
  then have "holder s \<noteq> Some t" using credit_ok_thread(1) [OF call.prems, of t] by auto
  then have "lock_ok (goes_on t c (credit_code c) 0 s)"
    using credit_ok_thread [OF call.prems] by (auto simp: lock_ok_def goes_on_def)
  with call.prems show ?case unfolding credit_ok_def by (simp add: goes_on_def)
next
  case (lock s c "is" r)
  have "outside (thread s u)" for u using credit_ok_thread(2) [OF lock.prems] lock.hyps(2) by simp
  note out = this [of t, unfolded lock.hyps(1)] this
  then have "is = drop 1 (credit_code c)" by (cases c) (auto simp: credit_codes)
  then have "inside (credit s) (Running c is r)" by simp
  with lock out(2) show ?case unfolding credit_ok_def by (auto simp: goes_on_def lock_ok_def)
next
  case (load s c "is" r)
  have h: "holder s = Some t" "inside (credit s) (Running c (Load # is) r)"
    by (rule holder_inside [OF load.prems load.hyps]; simp)+
  from inside_step [OF h(2)] have "is = drop 2 (credit_code c)" by auto
  moreover have "stored_value Available v = v" for v by simp
  ultimately show ?case
    using load.prems h(1) credit_ok_goes_on [OF load.prems h(1), of c "is" "credit s"]
      credit_ok_access [OF load.prems h(1), of "credit s" c "is"]
    by (cases c) (auto simp: record_last_def credit_codes)
next
  case (add s c x "is" r)
  have h: "holder s = Some t" "inside (credit s) (Running c (Add x # is) r)"
    by (rule holder_inside [OF add.prems add.hyps]; simp)+
  from inside_step [OF h(2)] have "is = [Store, Unlock]" "r + x = stored_value c (credit s)" "is = drop 3 (credit_code c)"
    by (auto simp: credit_codes) (cases c; simp add: credit_codes)+
  then show ?case by (intro credit_ok_goes_on [OF add.prems h(1)]) simp
next
  case (subtract s c x "is" r)
  have h: "holder s = Some t" "inside (credit s) (Running c (Subtract x # is) r)"
    by (rule holder_inside [OF subtract.prems subtract.hyps]; simp)+
  from inside_step [OF h(2)] have "is = [Store, Unlock]" "r - x = stored_value c (credit s)" "is = drop 3 (credit_code c)"
    by (auto simp: credit_codes) (cases c; simp add: credit_codes)+
  then show ?case by (intro credit_ok_goes_on [OF subtract.prems h(1)]) simp
next
  case (store s c "is" r)
  have h: "holder s = Some t" "inside (credit s) (Running c (Store # is) r)"
    by (rule holder_inside [OF store.prems store.hyps]; simp)+
  from inside_step [OF h(2)] have "is = [Unlock]" "r = stored_value c (credit s)" by auto
  then show ?case using credit_ok_access [OF store.prems h(1), of r c "is"] by (simp add: record_last_def)
next
  case (unlock s c "is" r)
  have h: "holder s = Some t" "inside (credit s) (Running c (Unlock # is) r)"
    by (rule holder_inside [OF unlock.prems unlock.hyps]; simp)+
  from inside_step [OF h(2)] have "is = []" by auto
  with unlock.prems h(1) credit_ok_thread(2) [OF unlock.prems] show ?case
    unfolding credit_ok_def by (auto simp: goes_on_def lock_ok_def)
next
  case (leave s c r)
  have "holder s \<noteq> Some t"
  proof
    assume "holder s = Some t"
    with credit_ok_thread(1) [OF leave.prems] leave.hyps have "inside (credit s) (Running c [] r)" by metis
    then show False by (cases c) (simp_all add: credit_codes)
  qed
  then have "lock_ok (s\<lparr>thread := (thread s)(t := Idle)\<rparr>)"
    using credit_ok_thread [OF leave.prems] by (auto simp: lock_ok_def)
  with leave.prems show ?case unfolding credit_ok_def by simp
qed

lemma credit_steps_ok: "credit_steps s s' \<Longrightarrow> credit_ok s0 s \<Longrightarrow> credit_ok s0 s'"
  unfolding credit_steps_def by (induction rule: rtranclp_induct) (auto intro: credit_step_ok)

text \<open>No deadlock: a thread that is inside can go on, and with no thread inside the lock is free.\<close>

lemma credit_progress:
  assumes "credit_ok s0 s" "thread s t \<noteq> Idle"
  shows "\<exists>u s'. thread s u \<noteq> Idle \<and> credit_step u s s'"
proof (cases "holder s")
  case None
  then have "outside (thread s t)" using credit_ok_thread(2) [OF assms(1)] by simp
  with assms(2) obtain c "is" r where t: "thread s t = Running c is r" "outside (Running c is r)"
    by (cases "thread s t") simp_all
  from outside_start [OF t(2)] have "\<exists>s'. credit_step t s s'"
    using t(1) None credit_step.lock [of s t] credit_step.leave [of s t] by blast
  with assms(2) show ?thesis by blast
next
  case (Some u)
  then have "inside (credit s) (thread s u)" by (rule credit_ok_thread(1) [OF assms(1)])
  then obtain c "is" r where u: "thread s u = Running c is r" "inside (credit s) (Running c is r)"
    by (cases "thread s u") auto
  from inside_step [OF u(2)] u(1) have "\<exists>s'. credit_step u s s'"
    by (elim disjE exE conjE) (auto intro: credit_step.load credit_step.add credit_step.subtract credit_step.store credit_step.unlock)
  with u(1) show ?thesis by (metis credit_thread.distinct(1))
qed

section \<open>Properties\<close>

text \<open>
  Initialising the bridge for a region below 2 GB sends, after the list number is answered,
  one entry per 16 MB page, numbered from zero, whose page number places it at the list's own
  4 GB window, then the end mark and a region table in which all four borders denote the same
  number of bytes and the first region starts at entry zero; the answered number becomes the
  manager's, and the configuration is awaited exactly when that number is not positive.
\<close>

theorem init_sends_page_list:
  assumes "len < 2 ^ 31"
  shows "let n = unat len div 2 ^ 24; s' = init sglId fd phys_addr len s
    in requests s' = requests (theDpdk s) @ [Id_request fd, Wait_sglId] @
         map (\<lambda>k. Sglist sglId k (sglId * 256 + int k) (2 ^ 24)) [0..<n] @
         [Sglist sglId n 0 0, Region sglId (region_values [of_nat n, 0, 0, 0])] @
         (if sglId \<le> 0 then [Wait_conf] else []) @ [Mutex_init] \<and>
       mmu_sglId s' = sglId \<and> phys_base s' = phys_addr \<and> tx_credit s' = tx_credit s \<and> constructed s' \<and>
       snd (region_values [of_nat n, 0, 0, 0] ! 0) = 0 \<and>
       (\<forall>j<4. uint (map fst (region_values [of_nat n, 0, 0, 0]) ! j) * 2 ^ (shifts ! j) = int n * 2 ^ 24)"
proof -
  have "unat len div 2 ^ 24 < 128" using assms by (simp add: word_less_nat_alt)
  then show ?thesis
    unfolding Let_def
    by (intro conjI allI impI init_requests [OF assms] init_frame region_borders(2) region_border_bytes)
qed

theorem init_sends_page_list_witness:
  "requests (init 3 7 0x80000000 0x2000000 dpdk_start) =
     [Platform_init, New_request_proxy, New_indication, Id_request 7, Wait_sglId,
      Sglist 3 0 768 (2 ^ 24), Sglist 3 1 769 (2 ^ 24), Sglist 3 2 0 0, Region 3 (region_values [2, 0, 0, 0]), Mutex_init]"
  using init_sends_page_list [of "0x2000000" 3 7 "0x80000000" dpdk_start]
  by (simp add: Let_def dpdk_start_def theDpdk_def SonicDpdkManager_new_def ask_def upt_rec)

text \<open>
  C21. In a region shorter than 2 GB (from there on the size the code accumulates overflows), a packet
  that lies inside the whole pages of the region is sent with the offset of its
  physical address in the region, and every byte of it lies on a page the list describes: the
  entry of the byte's page gives back the byte's offset inside the list's window, so transmit
  and receive requests never leave the mapped memory.
\<close>

theorem packets_stay_in_mapped_pages:
  assumes "len < 2 ^ 31" "uint phys \<le> uint base" "uint base + uint plen \<le> uint phys + uint len div 2 ^ 24 * 2 ^ 24"
  shows "let s' = init sglId fd phys len s; off = ucast (base - phys)
    in requests (tx_send_pa base plen s') = requests s' @ [Start_read sglId off plen plen] \<and>
       requests (rx_send_pa base plen s') = requests s' @ [Start_write sglId off plen plen] \<and>
       uint (off :: u32) = uint base - uint phys \<and>
       (\<forall>b. uint off \<le> b \<and> b < uint off + uint plen \<longrightarrow>
          (\<exists>a. Sglist sglId (nat (b div 2 ^ 24)) a (2 ^ 24) \<in> set (requests s') \<and>
               a * 2 ^ 24 + b mod 2 ^ 24 = sglId * 2 ^ 32 + b))"
proof -
  have len: "uint len div 2 ^ 24 = int (unat len div 2 ^ 24)" by (simp add: zdiv_int)
  have n: "int (unat len div 2 ^ 24) * 2 ^ 24 < 2 ^ 32"
  proof -
    have "unat len div 2 ^ 24 < 128" using assms(1) by (simp add: word_less_nat_alt)
    then show ?thesis by simp
  qed
  have off: "uint (ucast (base - phys) :: u32) = uint base - uint phys"
    using assms(2,3) n uint_ge_0 [of plen] unfolding len by (intro packet_offset) linarith+
  have bytes: "\<exists>a. Sglist sglId (nat (b div 2 ^ 24)) a (2 ^ 24) \<in> set (requests (init sglId fd phys len s)) \<and>
      a * 2 ^ 24 + b mod 2 ^ 24 = sglId * 2 ^ 32 + b"
    if "uint (ucast (base - phys) :: u32) \<le> b \<and> b < uint (ucast (base - phys) :: u32) + uint plen" for b
  proof -
    have "0 \<le> b" "b < int (unat len div 2 ^ 24) * 2 ^ 24"
      using that assms(2,3) unfolding len off by linarith+
    note p = page_of_byte [OF this, of sglId]
    have "Sglist sglId (nat (b div 2 ^ 24)) (sglId * 256 + b div 2 ^ 24) (2 ^ 24) \<in> set (requests (init sglId fd phys len s))"
      using p(1) unfolding init_requests(1) [OF assms(1)] set_append by blast
    with p(2) show ?thesis by blast
  qed
  show ?thesis
    unfolding Let_def
    by (intro conjI allI impI off bytes)
      (simp_all add: tx_send_pa_def manager_tx_send_pa_def rx_send_pa_def manager_rx_send_pa_def theDpdk_def SonicDpdkManager_new_def init_frame init_requests(2) [OF assms(1)] ask_def Let_def)
qed

theorem packets_stay_in_mapped_pages_witness:
  "requests (tx_send_pa 0x80001000 64 (init 3 7 0x80000000 0x2000000 dpdk_start)) =
   requests (init 3 7 0x80000000 0x2000000 dpdk_start) @ [Start_read 3 0x1000 64 64]"
  using packets_stay_in_mapped_pages [of "0x2000000" "0x80000000" "0x80001000" 64 3 7 dpdk_start] by (simp add: Let_def)

text \<open>
  C22. Updates of the transmit credit are not lost: whatever way any number of threads interleave
  the locks, loads, stores and unlocks of \<^verbatim>\<open>writeTxCred\<close>, \<^verbatim>\<open>tx_credit_decrement\<close> and \<^verbatim>\<open>tx_credit_available\<close>,
  the counter is what the calls give when made one after the other in the order of their last
  accesses to it, and each call stores or returns what it does in that order.  As long as some call has not returned, one
  of those threads can go on.  (The credit's lock is not initialised again meanwhile.)
\<close>

theorem credit_calls_are_atomic:
  assumes "credit_steps (credit_idle (tx_credit s0)) s"
  shows "credit s = tx_credit (fold credit_effect (map fst (hist s)) s0) \<and>
    (\<forall>i < length (hist s). snd (hist s ! i) = tx_credit (fold credit_effect (map fst (take (Suc i) (hist s))) s0)) \<and>
    (\<forall>t. thread s t \<noteq> Idle \<longrightarrow> (\<exists>u s'. thread s u \<noteq> Idle \<and> credit_step u s s'))"
proof -
  have "credit_ok s0 (credit_idle (tx_credit s0))" by (simp add: credit_ok_def lock_ok_def credit_idle_def)
  with credit_steps_ok [OF assms] have ok: "credit_ok s0 s" .
  then show ?thesis using credit_progress [OF ok] unfolding credit_ok_def by blast
qed

text \<open>Two threads: one returns 8 credits and leaves while the other waits at the lock with a decrement of 3.\<close>

definition waiting :: credit_sys where
  "waiting = (credit_idle 136)\<lparr>thread := (\<lambda>_. Idle)(1 := Running (Decrement 3) (tx_credit_decrement_code 3) 0),
     hist := [(Write_cred 8, 136)]\<rparr>"

lemma credit_step_then: "credit_step t s s' \<Longrightarrow> credit_steps s' s'' \<Longrightarrow> credit_steps s s''"
  unfolding credit_steps_def by (rule converse_rtranclp_into_rtranclp) auto

lemma waiting_reached: "credit_steps (credit_idle 128) waiting"
proof -
  define s1 where "s1 = goes_on 1 (Decrement 3) (credit_code (Decrement 3)) 0 (credit_idle 128)"
  define s2 where "s2 = goes_on 0 (Write_cred 8) (credit_code (Write_cred 8)) 0 s1"
  define s3 where "s3 = goes_on 0 (Write_cred 8) [Load, Add 8, Store, Unlock] 0 (s2\<lparr>holder := Some 0\<rparr>)"
  define s4 where "s4 = goes_on 0 (Write_cred 8) [Add 8, Store, Unlock] 128 s3"
  define s5 where "s5 = goes_on 0 (Write_cred 8) [Store, Unlock] 136 s4"
  define s6 where "s6 = goes_on 0 (Write_cred 8) [Unlock] 136 (s5\<lparr>credit := 136, hist := [(Write_cred 8, 136)]\<rparr>)"
  define s7 where "s7 = goes_on 0 (Write_cred 8) [] 136 (s6\<lparr>holder := None\<rparr>)"
  note defs = s1_def s2_def s3_def s4_def s5_def s6_def s7_def goes_on_def credit_idle_def
  have "credit_step 1 (credit_idle 128) s1" unfolding s1_def by (rule credit_step.call) (simp add: credit_idle_def)
  moreover have "credit_step 0 s1 s2" unfolding s2_def by (rule credit_step.call) (simp add: defs)
  moreover have "credit_step 0 s2 s3"
    unfolding s3_def by (rule credit_step.lock) (simp_all add: s2_def s1_def goes_on_def credit_idle_def credit_codes)
  moreover have "credit_step 0 s3 s4"
    using credit_step.load [of s3 0 "Write_cred 8" "[Add 8, Store, Unlock]" 0] by (simp add: defs record_last_def)
  moreover have "credit_step 0 s4 s5"
    using credit_step.add [of s4 0 "Write_cred 8" 8 "[Store, Unlock]" 128] by (simp add: defs)
  moreover have "credit_step 0 s5 s6"
    using credit_step.store [of s5 0 "Write_cred 8" "[Unlock]" 136] by (simp add: defs record_last_def)
  moreover have "credit_step 0 s6 s7" unfolding s7_def by (rule credit_step.unlock) (simp add: s6_def goes_on_def)
  moreover have "credit_step 0 s7 waiting"
    using credit_step.leave [of s7 0 "Write_cred 8" 136] by (simp add: defs waiting_def fun_upd_twist fun_upd_idem)
  moreover have "credit_steps waiting waiting" by (simp add: credit_steps_def)
  ultimately show ?thesis by (blast intro: credit_step_then)
qed

theorem credit_calls_are_atomic_witness:
  "credit waiting = tx_credit (writeTxCred 8 dpdk_start) \<and> (\<exists>u s'. thread waiting u \<noteq> Idle \<and> credit_step u waiting s')"
proof -
  have start: "tx_credit dpdk_start = 128" by (simp add: dpdk_start_def SONIC_TX_CREDIT_def)
  have "hist waiting = [(Write_cred 8, 136)]" "thread waiting 1 \<noteq> Idle" by (simp_all add: waiting_def)
  with credit_calls_are_atomic [of dpdk_start waiting] waiting_reached show ?thesis unfolding start by auto
qed

text \<open>
  C23. A client that never spends more credit than it has last seen, on a device that returns
  credit only for what was spent, keeps the counter between 0 and 128: it is exactly 128 less
  what is outstanding, so the 32-bit counter never wraps and a stale reading is never more
  than what is really left.
\<close>

theorem credit_never_overdrawn:
  assumes "credit_client s seen outstanding"
  shows "sint (get_tx_credit s) = 128 - outstanding \<and> 0 \<le> outstanding \<and> outstanding \<le> 128 \<and>
    seen \<le> fst (tx_credit_available s) \<and> fst (tx_credit_available s) = sint (get_tx_credit s)"
  using credit_client_balance [OF assms] by (simp add: get_tx_credit_def credit_functions)

theorem credit_never_overdrawn_witness:
  "sint (get_tx_credit (tx_credit_decrement 5 (tx_send_pa 0 64 (snd (tx_credit_available dpdk_start))))) = 123"
proof -
  have a: "tx_credit_available dpdk_start = (128, snd (tx_credit_available dpdk_start))"
    using credit_functions(3) [of dpdk_start] by (simp add: prod_eq_iff dpdk_start_def SONIC_TX_CREDIT_def)
  have "credit_client dpdk_start 0 0" by (rule credit_client.start) (simp add: dpdk_start_def)
  from credit_client.send [OF credit_client.look [OF this a], of 5 0 64]
  have "credit_client (tx_credit_decrement 5 (tx_send_pa 0 64 (snd (tx_credit_available dpdk_start)))) 123 5" by simp
  from credit_never_overdrawn [OF this] show ?thesis by simp
qed

end
