(* ===== verification/Spec2Isabelle.thy ===== *)
theory Spec2Isabelle
  imports Match_Table Mem_Model Dtp_User Dtp_Old Dtp_Exerciser Pktgen Paxos_Driver Scheduler_Test Sonic_Tests Dmac Dma_Test Dpdk
begin

text \<open>
  A verification development for the C and C++ software of SoNIC-lite: the driver, kernel module
  and user-space reader of the Datacenter Time Protocol (DTP) card, the DMA library and its
  exerciser, the bridge to DPDK, packet replay, the exercisers and tests of the cards, and the
  simulation models the hardware calls.

  \<^bold>\<open>The program and its parts.\<close>  A DTP card keeps a synchronised counter per port.  The kernel
  module (\<^verbatim>\<open>src/sw/daemon/kernel.c\<close>) talks to it through a memory-mapped portal
  (\<^verbatim>\<open>dtp_portal.c\<close>): requests are words written to a channel's FIFO, answers words read from an
  indication FIFO.  A kernel thread wakes every second, takes the flag of a shared page, samples
  the counters between two time stamps, sends and drains log messages, releases the flag and
  refreshes its parameters.  \<^verbatim>\<open>/proc/dtp\<close> changes the parameters and reports the state; user space
  (\<^verbatim>\<open>dtp_user.c\<close>) maps the page and copies samples under the flag protocol.  Beside it stand the DMA
  library of the packet interface with a multi-threaded exerciser, the DPDK bridge, the programs
  that replay captured packets into the pipeline, and those that drive the cards by hand.

  \<^bold>\<open>Theories.\<close>

  \<^item> \<open>Sonic_Prelude\<close>: machine integers as words, halves of 64-bit words, evaluation of state-monad
    programs, list updates by index.  \<open>C_Text\<close>: the number formatting and scanning of the C library
    the sources use, with print-and-scan round trips.

  \<^item> \<open>Dtp_Controller\<close> and \<open>Dtp_Portal\<close>: the request methods of \<^verbatim>\<open>src/hw/bsv/DtpController.bsv\<close>, and every
    function of \<^verbatim>\<open>src/sw/daemon/dtp_portal.c\<close> as a state-monad program over a bus that is a parameter.
    The contract of the bus is the locale \<open>dtp_portal_hw\<close>, with the controller behind it \<open>dtp_nic\<close>; a
    concrete bus meets it under \<open>portal_layout\<close>, interpreted for the layout of the generated header.
    Queries return the register they name and leave the portal quiet; messages are read in order.

  \<^item> \<open>Dtp_Daemon\<close> and \<open>Dtp_Turn\<close>: the polling thread of \<^verbatim>\<open>kernel.c\<close>.  The page's log is an interpretation
    of \<open>bounded_log\<close>.  One turn of the detailed program refines a specification of the page, the
    queues and the private state; the thread returns when it is asked to.  The receive loop is a
    \<^theory_text>\<open>partial_function\<close> whose result is proved to exist.  \<open>Dtp_Old\<close>: the thread of the first version
    \<^verbatim>\<open>dtp.c\<close> over the locale \<open>old_counter\<close>.

  \<^item> \<open>Dtp_Proc\<close>: \<^verbatim>\<open>/proc/dtp\<close> and the device file: what any write can do, the round trip of commands, the
    report, and a command's effect through the daemon.  \<open>Dtp_Module\<close>: \<^verbatim>\<open>dtp_init\<close> and \<^verbatim>\<open>dtp_exit\<close> of
    \<^verbatim>\<open>kernel.c\<close> and \<^verbatim>\<open>dtp.c\<close>, every kernel answer an argument: resources are balanced on every path,
    and a successful load establishes the daemon's invariant.

  \<^item> \<open>Dtp_User\<close>: the reader of the page, one memory access per step, interleaved with the daemon's
    writes by an inductive relation: bounds in every reachable state, exact copies when the
    daemon does not interfere, a run with a torn copy when it does, and the daemon's turn as steps
    of that relation.  Also the load generator \<^verbatim>\<open>cpu.c\<close>.

  \<^item> \<open>Dmac_First\<close> and \<open>Dmac\<close>: the two versions of the DMA library, \<^verbatim>\<open>src/dmac/cpp/dmac.cpp\<close> and
    \<^verbatim>\<open>src/sw/dmac.cpp\<close>.  A channel records its lock, requests, polls and callbacks in order; an
    operation either returns or stops (\<open>stop\<close>: a deadlock, a trap, an access outside an array).
    Every operation is an interpretation of \<open>channel_operation\<close> or its extension
    \<open>request_operation\<close>, which give the lock discipline; clients of a channel are \<open>channel_client\<close>.
    References are balanced, lengths fit their buffers, and the two versions agree on the calls
    they share.  A callback that uses a shared channel deadlocks.

  \<^item> \<open>Channel_Worker\<close> and \<open>Dma_Test\<close>: \<^verbatim>\<open>src/dmac/cpp/testdma.cpp\<close>.  A worker makes exactly its iterations'
    transfers and returns.  \<^verbatim>\<open>runTest\<close> is an inductive step relation of the main thread and the workers
    over their shared flag and manager: in every reachable state no thread has failed or counted
    wrongly, from every reachable state the program can return, and options that are not checked
    make it fail.

  \<^item> \<open>Dpdk\<close>: \<^verbatim>\<open>src/sonic/cpp/dpdk.cpp\<close>: the scatter-gather list, packet requests inside it, the
    transmit credit under any interleaving of threads, and its bounds (locale \<open>credit_account\<close>).

  \<^item> \<open>Lpcap\<close> and \<open>Pktgen\<close>: \<^verbatim>\<open>src/sw/lpcap.c\<close>, the two plain copies of \<^verbatim>\<open>mem_copy\<close> under \<^verbatim>\<open>src/p4\<close>, the raw
    capture reader of the packetbuf example, and the generators of \<^verbatim>\<open>src/dtp/examples\<close>: beats carry
    packets exactly, and a generator replays its trace and starts with the right idle gap.

  \<^item> \<open>Dtp_Exerciser\<close>: the four \<^verbatim>\<open>test-dtp.cpp\<close> programs on the whole request interface of the controller:
    what a turn of their loops asks, and that the answers are the card's registers, of the type
    and for the port each request names.

  \<^item> \<open>Sonic_Tests\<close>: \<^verbatim>\<open>src/sw/test-sonic.cpp\<close>, the packet tests of \<^verbatim>\<open>src/sonic/t\<close> and \<^verbatim>\<open>src/sw/testdelay.cpp\<close>:
    the verdict of the self test, the bytes handed to the device, and the end of each program for
    a device that does its part.  The indication handlers are interpretations of the locale
    \<open>posting_handler\<close>.

  \<^item> \<open>Match_Table\<close> and \<open>Mem_Model\<close>: the tables and the asymmetric memory the simulated hardware calls
    (\<^verbatim>\<open>src/p4/bsv/matchtable_model.cpp\<close>, \<^verbatim>\<open>src/p4/bsv/AsymmetricBRAM/mem_model.c\<close>): answers from the
    history of writes.

  \<^item> \<open>Cmd_Handshake\<close> and \<open>P4_Drivers\<close>: the drivers of the P4 designs (\<^verbatim>\<open>src/p4/examples/*/test.cpp\<close> and
    \<^verbatim>\<open>src/p4/benchmark/fwd/test.cpp\<close>).  A driver is a list of requests and waits; a run interleaves it with the
    answers of its card (inductive relation \<open>dialogue_step\<close>).  Drivers that wait for exactly the
    answers their card gives are interpretations of the locale \<open>stepping_program\<close>: they lose no
    answer and come to their end in every interleaving.  Two drivers wait for answers their design
    does not give and hang; one may leave before its answer.  The others replay their trace.

  \<^item> \<open>Paxos_Driver\<close>: the drivers of the two Paxos designs, with the entries they write followed through
    \<open>Match_Table\<close>: what a simulated card finds in its tables afterwards, and what its registers hold.
    \<open>Scheduler_Test\<close>: the programs of \<^verbatim>\<open>src/scheduler/cpp\<close> and the tester \<^verbatim>\<open>src/p4/cpp/test.cpp\<close>.

  \<^bold>\<open>Conventions.\<close>  Registers, counters and addresses that wrap are words of their width; C \<^verbatim>\<open>int\<close>
  parameters that the code only compares are integers, with the wrap-around written where a
  value is converted.  Errors, exits, traps and accesses outside an array are values.  What the
  kernel, Connectal, libpcap, \<^verbatim>\<open>getopt\<close> and the hardware answer is an argument of the
  definitions; what is relied on of them is a locale or a hypothesis with a concrete instance.
  Loops over hardware answers run over the list of answers that occur, so a run that ends before
  the loop does gives \<open>None\<close>, and the theorems say which answers suffice.  Doubles are reals with
  a rounding function; the theorems on the idle gap are for exact arithmetic.

  \<^bold>\<open>Not modelled.\<close>  The hardware beyond the request methods of the DTP controller and, for the P4
  drivers, which requests a design answers and how it packs table entries; Connectal and Tins, which
  are not part of the repository; \<^verbatim>\<open>src/p4/examples/packetbuf/test.cpp\<close>, which calls functions of the
  capture library with arguments it does not take (its copy of the raw reader is modelled); the
  unit tests of \<^verbatim>\<open>src/hw/tests\<close>, fixed scripts of requests whose handlers print; the printing loop of
  the receive test, which uses a variable that is not declared; log messages, sleeps and
  scheduling calls.
\<close>

end
